(* ===== verification/Zperf_Prelude.thy ===== *)
theory Zperf_Prelude
  imports "HOL-Library.Word" "HOL-Library.Signed_Division"
begin

text \<open>
  The vocabulary every component shares: the C integer types of the 32-bit build
  (\<^verbatim>\<open>-m32\<close> in \<^verbatim>\<open>src/freertos/CMakeLists.txt\<close>), the faults a C expression can raise,
  byte order, 32-bit fields inside byte buffers, search in an array, and the collections of
  simplification rules the component theories add to.

  \<^item> \<open>byte_order\<close> is the interface of \<open>htons/ntohs\<close> and \<open>htonl/ntohl\<close>; it is interpreted on
    the two byte swaps at the end of its section.
  \<^item> \<open>store32\<close> and \<open>load32\<close> are an assignment to, and a read of, a 32-bit struct field that a
    pointer cast overlays on a byte array.
  \<^item> \<open>find_index\<close> is the scan of an array for the first element with a property.
\<close>

unbundle bit_operations_syntax

section \<open>C types, faults, collections\<close>

type_synonym u8 = "8 word"
type_synonym u16 = "16 word"
type_synonym u32 = "32 word"
type_synonym u64 = "64 word"

text \<open>
  A fault is a C operation whose behaviour is undefined and that stops or corrupts the process:
  an integer division by zero, an access outside an array, the use of a null pointer or handle,
  a failed \<open>assert\<close>, or an overflow of a signed integer. A computation that can fault returns
  \<open>Inl fault\<close>; \<open>fbind\<close> goes on after one that did not.
\<close>

datatype fault = Division_by_zero | Out_of_bounds | Null_pointer | Assertion_failed | Signed_overflow

type_synonym 'a faulty = "fault + 'a"

definition fbind :: "'a faulty \<Rightarrow> ('a \<Rightarrow> 'b faulty) \<Rightarrow> 'b faulty" where
  "fbind m g = (case m of Inl f \<Rightarrow> Inl f | Inr x \<Rightarrow> g x)"

lemma fbind_simps [simp]: "fbind (Inl f) g = Inl f" "fbind (Inr x) g = g x"
  by (simp_all add: fbind_def)

lemma fbind_Inr_iff: "fbind m g = Inr y \<longleftrightarrow> (\<exists>x. m = Inr x \<and> g x = Inr y)"
  by (cases m) simp_all

named_theorems io_defs "definitions of the socket and kernel calls"
named_theorems session_simps "how an operation changes the fields of a session"
named_theorems trace_simps "how an operation extends the event trace"

section \<open>Byte order\<close>

lemma byte_bit_beyond [simp]:
  "8 \<le> n \<Longrightarrow> \<not> bit (b :: u8) n"
  by (auto dest: bit_imp_le_length)

lemma octet_cases:
  assumes "n < (32 :: nat)"
  obtains k where "k < 8" "n = k" | k where "k < 8" "n = 8 + k"
    | k where "k < 8" "n = 16 + k" | k where "k < 8" "n = 24 + k"
proof -
  consider "n < 8" | "8 \<le> n \<and> n < 16" | "16 \<le> n \<and> n < 24" | "24 \<le> n"
    by linarith
  then show thesis
  proof cases
    case 1
    then show thesis by (rule that(1)) simp
  next
    case 2
    then show thesis by (intro that(2) [of "n - 8"]) auto
  next
    case 3
    then show thesis by (intro that(3) [of "n - 16"]) auto
  next
    case 4
    with assms show thesis by (intro that(4) [of "n - 24"]) auto
  qed
qed

text \<open>The four octets of a 32-bit value, most significant first, and the value they make.\<close>

definition be_bytes32 :: "u32 \<Rightarrow> u8 list" where
  "be_bytes32 w = [ucast (drop_bit 24 w), ucast (drop_bit 16 w), ucast (drop_bit 8 w), ucast w]"

fun of_be32 :: "u8 list \<Rightarrow> u32" where
  "of_be32 [a, b, c, d] =
     push_bit 24 (ucast a) OR push_bit 16 (ucast b) OR push_bit 8 (ucast c) OR ucast d"
| "of_be32 _ = 0"

lemma of_be32_be_bytes32 [simp]: "of_be32 (be_bytes32 w) = w"
proof (rule bit_word_eqI)
  fix n assume "n < LENGTH(32)"
  then have "n < 32" by simp
  then show "bit (of_be32 (be_bytes32 w)) n = bit w n"
    by (cases rule: octet_cases) (auto simp: be_bytes32_def bit_simps)
qed

lemma be_bytes32_of_be32 [simp]: "be_bytes32 (of_be32 [a, b, c, d]) = [a, b, c, d]"
  unfolding be_bytes32_def by (auto intro!: bit_word_eqI simp: bit_simps)

lemma length_be_bytes32 [simp]: "length (be_bytes32 w) = 4"
  by (simp add: be_bytes32_def)

lemma list4E:
  assumes "length xs = 4"
  obtains a b c d where "xs = [a, b, c, d]"
proof -
  from assms have "length xs = Suc (Suc (Suc (Suc 0)))" by simp
  then show thesis using that by (auto simp: length_Suc_conv)
qed

text \<open>The build target is little-endian: a 32-bit object is stored least significant octet first.\<close>

definition le_bytes32 :: "u32 \<Rightarrow> u8 list" where
  "le_bytes32 w = rev (be_bytes32 w)"

definition of_le32 :: "u8 list \<Rightarrow> u32" where
  "of_le32 bs = of_be32 (rev bs)"

lemma length_le_bytes32 [simp]: "length (le_bytes32 w) = 4"
  by (simp add: le_bytes32_def)

lemma of_le32_le_bytes32 [simp]: "of_le32 (le_bytes32 w) = w"
  by (simp add: of_le32_def le_bytes32_def)

lemma le_bytes32_of_le32:
  assumes "length bs = 4"
  shows "le_bytes32 (of_le32 bs) = bs"
  using assms by (elim list4E) (simp add: of_le32_def le_bytes32_def del: of_be32.simps)

definition htonl :: "u32 \<Rightarrow> u32" where
  "htonl w = of_le32 (be_bytes32 w)"

definition ntohl :: "u32 \<Rightarrow> u32" where
  "ntohl w = of_be32 (le_bytes32 w)"

definition htons :: "u16 \<Rightarrow> u16" where
  "htons w = push_bit 8 w OR drop_bit 8 w"

definition ntohs :: "u16 \<Rightarrow> u16" where
  "ntohs w = push_bit 8 w OR drop_bit 8 w"

text \<open>What the wire carries: the memory image of \<open>htonl w\<close> is \<open>w\<close> in network order.\<close>

lemma le_bytes32_htonl [simp]: "le_bytes32 (htonl w) = be_bytes32 w"
  by (simp add: htonl_def le_bytes32_of_le32)

locale byte_order =
  fixes hton ntoh :: "'a :: len word \<Rightarrow> 'a word"
  assumes ntoh_hton: "ntoh (hton x) = x"
    and hton_ntoh: "hton (ntoh x) = x"
    and hton_zero: "hton 0 = 0"
begin

lemma hton_eq_iff: "hton x = hton y \<longleftrightarrow> x = y"
  by (metis ntoh_hton)

lemma hton_eq_0_iff: "hton x = 0 \<longleftrightarrow> x = 0"
  using hton_eq_iff [of x 0] by (simp add: hton_zero)

lemma ntoh_eq_iff: "ntoh x = ntoh y \<longleftrightarrow> x = y"
  by (metis hton_ntoh)

end

lemma htonl_eq: "htonl w = of_be32 (rev (be_bytes32 w))"
  by (simp add: htonl_def of_le32_def)

interpretation bo32: byte_order htonl ntohl
proof
  show "ntohl (htonl x) = x" for x
    by (simp add: ntohl_def)
  show "htonl (ntohl x) = x" for x
  proof -
    obtain a b c d where x: "le_bytes32 x = [a, b, c, d]"
      by (rule list4E [of "le_bytes32 x"]) simp_all
    have "htonl (ntohl x) = of_le32 (le_bytes32 x)"
      by (simp add: htonl_def ntohl_def x del: of_be32.simps)
    then show ?thesis by simp
  qed
  show "htonl 0 = 0"
    by (simp add: htonl_eq be_bytes32_def)
qed

interpretation bo16: byte_order htons ntohs
proof
  show "ntohs (htons x) = x" for x
    unfolding htons_def ntohs_def by (rule bit_word_eqI) (auto simp: bit_simps)
  show "htons (ntohs x) = x" for x
    unfolding htons_def ntohs_def by (rule bit_word_eqI) (auto simp: bit_simps)
  show "htons 0 = 0"
    by (simp add: htons_def)
qed

declare bo32.ntoh_hton [simp] bo32.hton_ntoh [simp] bo16.ntoh_hton [simp] bo16.hton_ntoh [simp]

section \<open>32-bit fields of a byte buffer\<close>

definition store32 :: "nat \<Rightarrow> u32 \<Rightarrow> u8 list \<Rightarrow> u8 list" where
  "store32 off w buf = take off buf @ le_bytes32 w @ drop (off + 4) buf"

definition load32 :: "nat \<Rightarrow> u8 list \<Rightarrow> u32" where
  "load32 off buf = of_le32 (take 4 (drop off buf))"

lemma length_store32 [simp]:
  "off + 4 \<le> length buf \<Longrightarrow> length (store32 off w buf) = length buf"
  by (simp add: store32_def)

lemma load32_store32_same [simp]:
  "off + 4 \<le> length buf \<Longrightarrow> load32 off (store32 off w buf) = w"
  by (simp add: load32_def store32_def)

lemma take_drop_store32_below:
  "off' + n \<le> off \<Longrightarrow> off + 4 \<le> length buf \<Longrightarrow>
   take n (drop off' (store32 off w buf)) = take n (drop off' buf)"
  by (simp add: store32_def take_drop)

lemma take_drop_store32_above:
  assumes "off + 4 \<le> off'" and "off + 4 \<le> length buf"
  shows "take n (drop off' (store32 off w buf)) = take n (drop off' buf)"
proof -
  have "drop off' (store32 off w buf) = drop off' buf"
    using assms by (simp add: store32_def)
  then show ?thesis by simp
qed

lemma load32_store32_other [simp]:
  "off' + 4 \<le> off \<or> off + 4 \<le> off' \<Longrightarrow> off + 4 \<le> length buf \<Longrightarrow>
   load32 off' (store32 off w buf) = load32 off' buf"
  by (auto simp: load32_def take_drop_store32_below take_drop_store32_above)

lemma load32_append [simp]:
  "off + 4 \<le> length xs \<Longrightarrow> load32 off (xs @ ys) = load32 off xs"
  by (simp add: load32_def)

lemma load32_take [simp]:
  "off + 4 \<le> n \<Longrightarrow> load32 off (take n buf) = load32 off buf"
  by (simp add: load32_def drop_take min_def)

section \<open>Searching an array\<close>

fun find_index :: "('a \<Rightarrow> bool) \<Rightarrow> 'a list \<Rightarrow> nat option" where
  "find_index P [] = None"
| "find_index P (x # xs) = (if P x then Some 0 else map_option Suc (find_index P xs))"

lemma find_index_None_iff: "find_index P xs = None \<longleftrightarrow> (\<forall>x \<in> set xs. \<not> P x)"
  by (induction xs) auto

lemma find_index_Some_iff:
  "find_index P xs = Some i \<longleftrightarrow> i < length xs \<and> P (xs ! i) \<and> (\<forall>j < i. \<not> P (xs ! j))"
proof (induction xs arbitrary: i)
  case Nil
  then show ?case by simp
next
  case (Cons x xs)
  then show ?case by (cases i) (auto simp: less_Suc_eq_0_disj)
qed

lemma find_index_SomeD:
  "find_index P xs = Some i \<Longrightarrow> i < length xs \<and> P (xs ! i)"
  by (simp add: find_index_Some_iff)

section \<open>Signed 32-bit arithmetic\<close>

text \<open>A C \<open>int32_t\<close> is a \<^typ>\<open>u32\<close> read by \<open>sint\<close>; \<open>s_abs\<close> is \<open>(x < 0) ? -x : x\<close>.\<close>

definition s_abs :: "u32 \<Rightarrow> u32" where
  "s_abs x = (if sint x < 0 then - x else x)"

lemma unat_lt_u32: "unat (x :: u32) < 2 ^ 32"
  using unsigned_less [of x, where 'a = nat] by simp

lemma sint_range32: "- (2 ^ 31) \<le> sint (x :: u32) \<and> sint x < 2 ^ 31"
  using sint_ge [of x] sint_lt [of x] by simp

lemma sint_of_int32: "- (2 ^ 31) \<le> i \<Longrightarrow> i < 2 ^ 31 \<Longrightarrow> sint (word_of_int i :: u32) = i"
  by (simp add: sint_sbintrunc' signed_take_bit_int_eq_self)

lemma uint_range32: "0 \<le> uint (x :: u32) \<and> uint x < 2 ^ 32"
  using uint_lt2p [of x] by simp

lemma sint32_eq: "sint (x :: u32) = (if uint x < 2 ^ 31 then uint x else uint x - 2 ^ 32)"
proof -
  have "sint x = (uint x + 2 ^ 31) mod 2 ^ 32 - 2 ^ 31"
    using int_word_sint [of "uint x", where 'a = 32] by simp
  moreover have "(uint x + 2 ^ 31) mod 2 ^ 32 = (uint x - 2 ^ 31) mod 2 ^ 32"
    using mod_add_self2 [of "uint x - 2 ^ 31" "2 ^ 32"] by (simp add: add.commute)
  ultimately show ?thesis
    using uint_range32 [of x] by (cases "uint x < 2 ^ 31") (simp_all add: mod_pos_pos_trivial)
qed

text \<open>A difference of two small numbers that wraps is a large one.\<close>

lemma unat_wrapped_diff:
  assumes "n < k" and "k < 2 ^ 31"
  shows "unat (of_nat n - of_nat k :: u32) = 2 ^ 32 - (k - n)"
proof -
  have "unat (of_nat n :: u32) = n" "unat (of_nat k :: u32) = k"
    using assms by (simp_all add: unsigned_of_nat take_bit_nat_eq_self)
  then show ?thesis using assms by (simp add: unat_sub_if')
qed

lemma unat_diff_of_nat: "n \<le> unat (x :: u32) \<Longrightarrow> unat (x - of_nat n) = unat x - n"
proof -
  assume "n \<le> unat x"
  moreover from this have n: "unat (of_nat n :: u32) = n"
    using unsigned_less [where ?'a = nat, of x] by (simp add: unsigned_of_nat take_bit_nat_eq_self)
  ultimately have "of_nat n \<le> x" by (simp add: word_le_nat_alt)
  from unat_sub [OF this] n show ?thesis by simp
qed

lemma sint_nonneg_iff: "0 \<le> sint (x :: u32) \<longleftrightarrow> unat x < 2 ^ 31"
proof -
  have "unat x < 2 ^ 31 \<longleftrightarrow> uint x < 2 ^ 31"
    by (simp only: uint_nat of_nat_less_iff [where 'a = int, symmetric] of_nat_power of_nat_numeral)
  then show ?thesis using uint_range32 [of x] by (simp add: sint32_eq)
qed

lemma sint_eq_unat32: "0 \<le> sint (x :: u32) \<Longrightarrow> sint x = int (unat x)"
  using uint_range32 [of x] by (auto simp: sint32_eq split: if_splits)

lemma word_of_sint [simp]: "word_of_int (sint (x :: u32)) = x"
  by simp

lemma s_abs_nonneg:
  assumes "x \<noteq> word_of_int (- (2 ^ 31))"
  shows "0 \<le> sint (s_abs x) \<and> sint (s_abs x) = \<bar>sint x\<bar>"
proof (cases "sint x < 0")
  case True
  have "sint x \<noteq> - (2 ^ 31)"
    using assms by (metis word_of_sint)
  with True sint_range32 [of x] have "sint (word_of_int (- sint x) :: u32) = - sint x"
    by (intro sint_of_int32) auto
  moreover have "(word_of_int (- sint x) :: u32) = - x" by simp
  ultimately show ?thesis using True by (simp add: s_abs_def)
next
  case False
  then show ?thesis by (simp add: s_abs_def)
qed

lemma sint_diff_nonneg:
  assumes "0 \<le> sint (a :: u32)" and "0 \<le> sint b"
  shows "sint (a - b) = sint a - sint b"
proof -
  have "sint (word_of_int (sint a - sint b) :: u32) = sint a - sint b"
    using assms sint_range32 [of a] sint_range32 [of b] by (intro sint_of_int32) linarith+
  then show ?thesis by simp
qed

text \<open>The low half of a 64-bit difference of 32-bit times is their difference.\<close>

lemma ucast_diff_u64: "(ucast (ucast a - ucast b :: u64) :: u32) = a - b"
proof -
  have "take_bit 32 (take_bit 64 (take_bit 32 x - take_bit 32 y)) = take_bit 32 (x - y)" for x y :: int
    by (simp add: take_bit_diff)
  then show ?thesis by transfer simp
qed

end
