(* ===== verification/Zperf_Types.thy ===== *)
theory Zperf_Types
  imports Zperf_Prelude
begin

text \<open>
  The data of the program: the public API types of \<^verbatim>\<open>zperf.h\<close>, the wire structures and constants
  of \<^verbatim>\<open>zperf_internal.h\<close>, the build configuration of \<^verbatim>\<open>zephyr/config.h\<close> and
  \<^verbatim>\<open>lwip/include/lwipopts.h\<close>, and the socket addresses the code passes around.

  A socket address is a tagged union: the family decides which of \<open>sockaddr_in\<close> and
  \<open>sockaddr_in6\<close> the code reads through its casts. \<open>Sockaddr_other\<close> is an address of another
  family whose remaining bytes are zero; family 0 is the zero-filled structure.
\<close>

section \<open>Build configuration\<close>

definition CONFIG_NET_IPV4 :: bool where "CONFIG_NET_IPV4 = True"
definition CONFIG_NET_IPV6 :: bool where "CONFIG_NET_IPV6 = True"
definition CONFIG_NET_UDP :: bool where "CONFIG_NET_UDP = True"
definition CONFIG_NET_TCP :: bool where "CONFIG_NET_TCP = True"
definition CONFIG_NET_CONTEXT_PRIORITY :: bool where "CONFIG_NET_CONTEXT_PRIORITY = False"
definition CONFIG_NET_ALLOW_ANY_PRIORITY :: bool where "CONFIG_NET_ALLOW_ANY_PRIORITY = False"
definition CONFIG_NET_ZPERF_MAX_SESSIONS :: nat where "CONFIG_NET_ZPERF_MAX_SESSIONS = 4"
definition PACKET_SIZE_MAX :: nat where "PACKET_SIZE_MAX = 1024"
definition MY_IP4ADDR :: string where "MY_IP4ADDR = ''192.168.0.2''"
definition MY_IP6ADDR :: string where "MY_IP6ADDR = ''2001:db8::1''"
definition DST_IP4ADDR :: string where "DST_IP4ADDR = ''192.168.0.1''"
definition DST_IP6ADDR :: string where "DST_IP6ADDR = ''2001:db8::2''"
definition DEF_PORT :: nat where "DEF_PORT = 5001"
definition DEF_PORT_STR :: string where "DEF_PORT_STR = ''5001''"
definition MY_SRC_PORT :: nat where "MY_SRC_PORT = 50000"

definition CONFIG_NET_SHELL :: bool where
  "CONFIG_NET_SHELL \<longleftrightarrow> True"

lemmas config_defs = CONFIG_NET_IPV4_def CONFIG_NET_IPV6_def CONFIG_NET_UDP_def
  CONFIG_NET_TCP_def CONFIG_NET_CONTEXT_PRIORITY_def CONFIG_NET_ALLOW_ANY_PRIORITY_def
  CONFIG_NET_ZPERF_MAX_SESSIONS_def PACKET_SIZE_MAX_def

section \<open>Error numbers of the C library\<close>

definition EINVAL :: int where "EINVAL = 22"
definition EALREADY :: int where "EALREADY = 114"
definition EBUSY :: int where "EBUSY = 16"
definition ENOMEM :: int where "ENOMEM = 12"
definition EAGAIN :: int where "EAGAIN = 11"

lemmas errno_defs = EINVAL_def EALREADY_def EBUSY_def ENOMEM_def EAGAIN_def

section \<open>Time units\<close>

definition USEC_PER_MSEC :: u32 where "USEC_PER_MSEC = 1000"
definition MSEC_PER_SEC :: u32 where "MSEC_PER_SEC = 1000"
definition USEC_PER_SEC :: u32 where "USEC_PER_SEC = USEC_PER_MSEC * MSEC_PER_SEC"

lemma USEC_PER_SEC_eq [simp]: "USEC_PER_SEC = 1000000"
  by (simp add: USEC_PER_SEC_def USEC_PER_MSEC_def MSEC_PER_SEC_def)

section \<open>Socket addresses\<close>

type_synonym in_addr = u32

record in6_addr =
  u32_addr0 :: u32
  u32_addr1 :: u32
  u32_addr2 :: u32
  u32_addr3 :: u32

datatype sockaddr =
    Sockaddr_in u16 in_addr
  | Sockaddr_in6 u16 in6_addr
  | Sockaddr_other u8

definition INADDR_ANY :: in_addr where
  "INADDR_ANY = 0"

definition IPV6_ANY_ADDR :: in6_addr where
  "IPV6_ANY_ADDR = \<lparr>u32_addr0 = 0, u32_addr1 = 0, u32_addr2 = 0, u32_addr3 = 0\<rparr>"

section \<open>The public API types\<close>

datatype zperf_status = ZPERF_SESSION_STARTED | ZPERF_SESSION_FINISHED | ZPERF_SESSION_ERROR

record zperf_upload_params =
  up_peer_addr :: sockaddr
  up_duration_ms :: u32
  up_rate_kbps :: u32
  up_packet_size :: u16
  up_tos :: u8
  up_tcp_nodelay :: int
  up_priority :: int

record zperf_download_params =
  dp_port :: u16
  dp_addr :: sockaddr

record zperf_results =
  nb_packets_sent :: u32
  nb_packets_rcvd :: u32
  nb_packets_lost :: u32
  nb_packets_outorder :: u32
  total_len :: u32
  time_in_us :: u32
  jitter_in_us :: u32
  client_time_in_us :: u32
  packet_size :: u32
  nb_packets_errors :: u32

text \<open>\<open>struct zperf_results results = { 0 };\<close>\<close>

definition results_zero :: zperf_results where
  "results_zero = \<lparr>nb_packets_sent = 0, nb_packets_rcvd = 0, nb_packets_lost = 0,
     nb_packets_outorder = 0, total_len = 0, time_in_us = 0, jitter_in_us = 0,
     client_time_in_us = 0, packet_size = 0, nb_packets_errors = 0\<rparr>"

text \<open>
  A callback is a function pointer and its user data a pointer; the program only stores, compares
  with \<open>NULL\<close> and calls them, so each is the number that identifies it.
\<close>

type_synonym zperf_callback = nat
type_synonym user_data = nat

section \<open>Wire structures\<close>

record zperf_udp_datagram =
  dg_id :: u32
  dg_tv_sec :: u32
  dg_tv_usec :: u32

record zperf_client_hdr_v1 =
  ch_flags :: u32
  ch_num_of_threads :: u32
  ch_port :: u32
  ch_buffer_len :: u32
  ch_bandwidth :: u32
  ch_num_of_bytes :: u32

record zperf_server_hdr =
  sh_flags :: u32
  sh_total_len1 :: u32
  sh_total_len2 :: u32
  sh_stop_sec :: u32
  sh_stop_usec :: u32
  sh_error_cnt :: u32
  sh_outorder_cnt :: u32
  sh_datagrams :: u32
  sh_jitter1 :: u32
  sh_jitter2 :: u32

definition server_hdr_zero :: zperf_server_hdr where
  "server_hdr_zero = \<lparr>sh_flags = 0, sh_total_len1 = 0, sh_total_len2 = 0, sh_stop_sec = 0,
     sh_stop_usec = 0, sh_error_cnt = 0, sh_outorder_cnt = 0, sh_datagrams = 0,
     sh_jitter1 = 0, sh_jitter2 = 0\<rparr>"

text \<open>\<open>sizeof\<close> of the three structures: \<open>12\<close>, \<open>24\<close> and \<open>40\<close> bytes, with no padding.\<close>

definition sizeof_udp_datagram :: nat where "sizeof_udp_datagram = 12"
definition sizeof_client_hdr_v1 :: nat where "sizeof_client_hdr_v1 = 24"
definition sizeof_server_hdr :: nat where "sizeof_server_hdr = 40"

lemmas sizeof_defs = sizeof_udp_datagram_def sizeof_client_hdr_v1_def sizeof_server_hdr_def

text \<open>
  \<open>time_delta\<close>: \<open>ULONG_MAX\<close> is \<open>2\<^sup>3\<^sup>2 - 1\<close> on the 32-bit target, so the wrapped branch is one
  tick short of the modular difference.
\<close>

definition time_delta :: "u32 \<Rightarrow> u32 \<Rightarrow> u32" where
  "time_delta ts t = (if ts \<le> t then t - ts else 0xFFFFFFFF - ts + t)"

lemma time_delta_ge: "ts \<le> t \<Longrightarrow> time_delta ts t = t - ts"
  by (simp add: time_delta_def)

lemma time_delta_wrap: "t < ts \<Longrightarrow> time_delta ts t = t - ts - 1"
proof -
  assume "t < ts"
  moreover have "(0xFFFFFFFF :: u32) = - 1" by simp
  ultimately show ?thesis by (simp add: time_delta_def del: word_neg_numeral_alt)
qed

end
