(* ===== verification/Zperf_Wire.thy ===== *)
theory Zperf_Wire
  imports Zperf_Types
begin

text \<open>
  The packet formats of \<^verbatim>\<open>zperf_internal.h\<close> as the code reads and writes them, through pointer
  casts into byte buffers: the datagram header at offset 0, the client header and the server
  report at offset 12, every field 4 bytes wide.

  \<open>struct_write\<close> is the interface of writing one structure into its range of a buffer and
  \<open>struct_overlay\<close> adds the read; \<open>two_structs\<close> combines a structure with a later write to a
  disjoint range. They are interpreted on the datagram header, the server report and the client
  header, which gives the round trips of \<open>build_reply\<close> with \<open>zperf_upload_decode_stat\<close> and of the
  uploader's header with the receiver's.
\<close>

section \<open>Interfaces\<close>

locale struct_write =
  fixes wr :: "'a \<Rightarrow> u8 list \<Rightarrow> u8 list" and lo hi :: nat
  assumes length_write: "hi \<le> length buf \<Longrightarrow> length (wr x buf) = length buf"
    and write_below: "hi \<le> length buf \<Longrightarrow> off + n \<le> lo \<Longrightarrow>
      take n (drop off (wr x buf)) = take n (drop off buf)"
    and write_above: "hi \<le> length buf \<Longrightarrow> hi \<le> off \<Longrightarrow>
      take n (drop off (wr x buf)) = take n (drop off buf)"
begin

lemma load32_write_other:
  "hi \<le> length buf \<Longrightarrow> off + 4 \<le> lo \<or> hi \<le> off \<Longrightarrow> load32 off (wr x buf) = load32 off buf"
  by (auto simp: load32_def write_below write_above)

end

locale struct_overlay = struct_write +
  fixes rd :: "u8 list \<Rightarrow> 'a"
  assumes read_write: "hi \<le> length buf \<Longrightarrow> rd (wr x buf) = x"
    and read_cong: "take (hi - lo) (drop lo b) = take (hi - lo) (drop lo c) \<Longrightarrow> rd b = rd c"
begin

text \<open>A receiver of at least \<open>hi\<close> bytes of the buffer reads back what was written.\<close>

lemma read_sent_prefix:
  assumes "hi \<le> length buf" and "hi \<le> n"
  shows "rd (take n (wr x buf)) = x"
proof -
  have "take (hi - lo) (drop lo (take n (wr x buf))) = take (hi - lo) (drop lo (wr x buf))"
    using assms(2) by (simp add: drop_take min_def)
  then have "rd (take n (wr x buf)) = rd (wr x buf)" by (rule read_cong)
  with assms(1) show ?thesis by (simp add: read_write)
qed

end

locale two_structs = a: struct_overlay write_a lo_a hi_a read_a + b: struct_write write_b lo_b hi_b
  for write_a :: "'a \<Rightarrow> u8 list \<Rightarrow> u8 list" and lo_a hi_a read_a
    and write_b :: "'b \<Rightarrow> u8 list \<Rightarrow> u8 list" and lo_b hi_b +
  assumes disjoint: "lo_a \<le> hi_a" "hi_a \<le> lo_b"
begin

lemma read_a_after_b:
  assumes "hi_a \<le> length buf" and "hi_b \<le> length buf"
  shows "read_a (write_b y (write_a x buf)) = x"
proof -
  have "read_a (write_b y (write_a x buf)) = read_a (write_a x buf)"
    using assms disjoint
    by (intro a.read_cong b.write_below) (simp_all add: a.length_write)
  then show ?thesis using assms by (simp add: a.read_write)
qed

lemma read_a_prefix:
  assumes "hi_a \<le> length buf" and "hi_b \<le> length buf" and "hi_a \<le> n"
  shows "read_a (take n (write_b y (write_a x buf))) = x"
proof -
  have "read_a (take n (write_b y (write_a x buf))) = read_a (write_b y (write_a x buf))"
    using assms by (intro a.read_cong) (simp add: drop_take min_def)
  then show ?thesis using assms by (simp add: read_a_after_b)
qed

end

section \<open>The datagram header\<close>

text \<open>\<open>datagram->id = htonl(id); datagram->tv_sec = ...; datagram->tv_usec = ...\<close>\<close>

definition put_datagram :: "zperf_udp_datagram \<Rightarrow> u8 list \<Rightarrow> u8 list" where
  "put_datagram d buf =
     store32 8 (htonl (dg_tv_usec d)) (store32 4 (htonl (dg_tv_sec d)) (store32 0 (htonl (dg_id d)) buf))"

text \<open>\<open>ntohl(hdr->id)\<close>, \<open>ntohl(hdr->tv_sec)\<close>, \<open>ntohl(hdr->tv_usec)\<close>.\<close>

definition get_datagram :: "u8 list \<Rightarrow> zperf_udp_datagram" where
  "get_datagram data =
     \<lparr>dg_id = ntohl (load32 0 data), dg_tv_sec = ntohl (load32 4 data),
      dg_tv_usec = ntohl (load32 8 data)\<rparr>"

lemma take4_drop_of_prefix:
  assumes "take (hi - lo) (drop lo b) = take (hi - lo) (drop lo c)"
    and "lo \<le> off" and "off + 4 \<le> hi"
  shows "load32 off b = load32 off c"
proof -
  have "take 4 (drop off x) = take 4 (drop (off - lo) (take (hi - lo) (drop lo x)))" for x :: "u8 list"
    using assms(2,3) by (simp add: drop_take min_def)
  with assms(1) show ?thesis by (simp add: load32_def)
qed

interpretation dgram: struct_overlay put_datagram 0 12 get_datagram
proof (unfold_locales, goal_cases)
  case (5 b c)
  then have "load32 off b = load32 off c" if "off + 4 \<le> 12" for off
    using that by (intro take4_drop_of_prefix [of 12 0]) simp_all
  then show ?case by (simp add: get_datagram_def)
qed (simp_all add: put_datagram_def get_datagram_def take_drop_store32_above)

section \<open>The server report\<close>

definition server_hdr_fields :: "zperf_server_hdr \<Rightarrow> u32 list" where
  "server_hdr_fields st =
     [sh_flags st, sh_total_len1 st, sh_total_len2 st, sh_stop_sec st, sh_stop_usec st,
      sh_error_cnt st, sh_outorder_cnt st, sh_datagrams st, sh_jitter1 st, sh_jitter2 st]"

text \<open>
  The assignments \<open>stat_hdr->flags = htonl(stat->flags)\<close> to \<open>stat_hdr->jitter2\<close>, in the order of
  the source, at the offsets of \<open>struct zperf_server_hdr\<close> behind the datagram header.
\<close>

definition put_server_hdr :: "zperf_server_hdr \<Rightarrow> u8 list \<Rightarrow> u8 list" where
  "put_server_hdr st buf =
     fold (\<lambda>(off, v). store32 off (htonl v))
       (zip [12, 16, 20, 24, 28, 32, 36, 40, 44, 48] (server_hdr_fields st)) buf"

definition get_server_hdr :: "u8 list \<Rightarrow> zperf_server_hdr" where
  "get_server_hdr data =
     \<lparr>sh_flags = ntohl (load32 12 data), sh_total_len1 = ntohl (load32 16 data),
      sh_total_len2 = ntohl (load32 20 data), sh_stop_sec = ntohl (load32 24 data),
      sh_stop_usec = ntohl (load32 28 data), sh_error_cnt = ntohl (load32 32 data),
      sh_outorder_cnt = ntohl (load32 36 data), sh_datagrams = ntohl (load32 40 data),
      sh_jitter1 = ntohl (load32 44 data), sh_jitter2 = ntohl (load32 48 data)\<rparr>"

interpretation srvhdr: struct_overlay put_server_hdr 12 52 get_server_hdr
proof (unfold_locales, goal_cases)
  case (5 b c)
  then have "load32 off b = load32 off c" if "12 \<le> off" "off + 4 \<le> 52" for off
    using that by (intro take4_drop_of_prefix [of 52 12]) simp_all
  then show ?case by (simp add: get_server_hdr_def)
qed (simp_all add: put_server_hdr_def get_server_hdr_def server_hdr_fields_def
      take_drop_store32_above take_drop_store32_below)

section \<open>The client header\<close>

text \<open>
  The fields are stored as they are in the record: the uploader applies \<open>htonl\<close> itself, and not
  to every field.
\<close>

definition put_client_hdr :: "zperf_client_hdr_v1 \<Rightarrow> u8 list \<Rightarrow> u8 list" where
  "put_client_hdr h buf =
     store32 32 (ch_num_of_bytes h) (store32 28 (ch_bandwidth h) (store32 24 (ch_buffer_len h)
       (store32 20 (ch_port h) (store32 16 (ch_num_of_threads h) (store32 12 (ch_flags h) buf)))))"

interpretation clihdr: struct_write put_client_hdr 12 36
  by unfold_locales (simp_all add: put_client_hdr_def take_drop_store32_above take_drop_store32_below)

interpretation upload_packet: two_structs put_datagram 0 12 get_datagram put_client_hdr 12 36
  by unfold_locales simp_all

section \<open>The reply\<close>

definition build_reply :: "u8 list \<Rightarrow> zperf_server_hdr \<Rightarrow> u8 list \<Rightarrow> u8 list" where
  "build_reply hdr st buf = put_server_hdr st (take sizeof_udp_datagram hdr @ drop sizeof_udp_datagram buf)"

definition zperf_upload_decode_stat :: "u8 list \<Rightarrow> nat \<Rightarrow> zperf_results \<Rightarrow> zperf_results" where
  "zperf_upload_decode_stat data datalen res =
     (let st = get_server_hdr data in
      res\<lparr>nb_packets_rcvd := sh_datagrams st,
          nb_packets_lost := sh_error_cnt st,
          nb_packets_outorder := sh_outorder_cnt st,
          total_len := sh_total_len2 st,
          time_in_us := sh_stop_usec st + sh_stop_sec st * USEC_PER_SEC,
          jitter_in_us := sh_jitter2 st + sh_jitter1 st * USEC_PER_SEC\<rparr>)"

lemma length_build_reply:
  "length hdr \<ge> 12 \<Longrightarrow> length buf = 52 \<Longrightarrow> length (build_reply hdr st buf) = 52"
  by (simp add: build_reply_def srvhdr.length_write sizeof_defs)

lemma get_server_hdr_build_reply:
  "length hdr \<ge> 12 \<Longrightarrow> length buf = 52 \<Longrightarrow> get_server_hdr (build_reply hdr st buf) = st"
  by (simp add: build_reply_def srvhdr.read_write sizeof_defs)

text \<open>The reply starts with the header of the packet it answers.\<close>

lemma take_build_reply:
  assumes "length hdr \<ge> 12" and "length buf = 52"
  shows "take 12 (build_reply hdr st buf) = take 12 hdr"
  using srvhdr.write_below [of "take 12 hdr @ drop 12 buf" 0 12 st] assms
  by (simp add: build_reply_def sizeof_defs)

end
