(* ===== verification/Zperf_Platform.thy ===== *)
theory Zperf_Platform
  imports Zperf_Types
begin

text \<open>
  The code below the program, which is not part of this repository: the lwIP socket layer and the
  FreeRTOS clock. It is a parameter of the model, the record \<open>platform\<close>, whose functions act on an
  abstract world \<open>'w\<close>: every definition that calls the stack takes it as its first argument, and
  every theorem holds for all platforms, or names the documented behaviour it needs.

  The wrappers \<open>zsock_*\<close> are the macros of \<^verbatim>\<open>zephyr/net/socket.h\<close>. Each calls the platform and
  appends an event to the \<open>trace\<close> of the run, which is what the properties about sent data, order of
  calls and open sockets speak of. The clock macros are those of \<^verbatim>\<open>zephyr/thread.h\<close>.

  \<open>balance tr fd\<close> counts how often the trace opened the descriptor minus how often it closed it.
\<close>

section \<open>The parameter\<close>

datatype address_family = AF_INET | AF_INET6
datatype sock_type = SOCK_DGRAM | SOCK_STREAM
datatype ip_protocol = IPPROTO_UDP | IPPROTO_TCP

datatype sock_option =
    IP_TOS int
  | SO_PRIORITY u8
  | SO_RCVTIMEO int int
  | TCP_NODELAY int

record revents =
  pollin :: bool
  pollerr :: bool
  pollnval :: bool

definition no_revents :: revents where
  "no_revents = \<lparr>pollin = False, pollerr = False, pollnval = False\<rparr>"

record pollfd =
  pfd_fd :: int
  pfd_events :: bool
  pfd_revents :: revents

record 'w platform =
  configTICK_RATE_HZ :: u64
  xTaskGetTickCount :: "'w \<Rightarrow> u32 \<times> 'w"
  vTaskDelay :: "u32 \<Rightarrow> 'w \<Rightarrow> 'w"
  taskYIELD :: "'w \<Rightarrow> 'w"
  pdMS_TO_TICKS :: "u32 \<Rightarrow> u32"
  errno_of :: "'w \<Rightarrow> int"
  lwip_socket :: "address_family \<Rightarrow> sock_type \<Rightarrow> ip_protocol \<Rightarrow> 'w \<Rightarrow> int \<times> 'w"
  lwip_setsockopt :: "int \<Rightarrow> sock_option \<Rightarrow> 'w \<Rightarrow> int \<times> 'w"
  lwip_connect :: "int \<Rightarrow> sockaddr \<Rightarrow> 'w \<Rightarrow> int \<times> 'w"
  lwip_bind :: "int \<Rightarrow> sockaddr \<Rightarrow> 'w \<Rightarrow> int \<times> 'w"
  lwip_listen :: "int \<Rightarrow> int \<Rightarrow> 'w \<Rightarrow> int \<times> 'w"
  lwip_accept :: "int \<Rightarrow> 'w \<Rightarrow> int \<times> sockaddr \<times> 'w"
  lwip_close :: "int \<Rightarrow> 'w \<Rightarrow> 'w"
  lwip_poll :: "pollfd list \<Rightarrow> int \<Rightarrow> 'w \<Rightarrow> int \<times> (nat \<Rightarrow> revents) \<times> 'w"
  lwip_recv :: "int \<Rightarrow> nat \<Rightarrow> bool \<Rightarrow> 'w \<Rightarrow> int \<times> u8 list \<times> 'w"
  lwip_recvfrom :: "int \<Rightarrow> nat \<Rightarrow> 'w \<Rightarrow> int \<times> u8 list \<times> sockaddr \<times> 'w"
  lwip_send :: "int \<Rightarrow> u8 list \<Rightarrow> 'w \<Rightarrow> int \<times> 'w"
  lwip_sendto :: "int \<Rightarrow> u8 list \<Rightarrow> sockaddr \<Rightarrow> 'w \<Rightarrow> int \<times> 'w"
  inet_pton4 :: "string \<Rightarrow> in_addr \<Rightarrow> int \<times> in_addr"
  inet_pton6 :: "string \<Rightarrow> in6_addr \<Rightarrow> int \<times> in6_addr"
  ip4addr_ntoa :: "in_addr \<Rightarrow> string"
  ip6addr_ntoa :: "in6_addr \<Rightarrow> string"
  netif_add_ip6_address :: "in6_addr \<Rightarrow> 'w \<Rightarrow> bool \<times> 'w"
  netif_set_addr :: "in_addr \<Rightarrow> 'w \<Rightarrow> 'w"
  sin_addr_of_in6 :: "u16 \<Rightarrow> in6_addr \<Rightarrow> in_addr"
  sin6_addr_of_in :: "u16 \<Rightarrow> in_addr \<Rightarrow> in6_addr"
  memcpy_sockaddr :: "sockaddr \<Rightarrow> sockaddr \<Rightarrow> sockaddr"

text \<open>
  The last three fields are the memory layout of lwIP's address structures, which this repository
  does not define: what a \<open>sockaddr_in\<close> cast reads in a \<open>sockaddr_in6\<close>, the converse, and what a
  \<open>sockaddr_storage\<close> holds after \<open>memcpy(dest, src, sizeof(struct sockaddr))\<close>, given its old and the
  source's contents.
\<close>

section \<open>Events and the state of a run\<close>

datatype io_event =
    Ev_socket address_family sock_type ip_protocol int
  | Ev_setsockopt int sock_option int
  | Ev_connect int sockaddr int
  | Ev_bind int sockaddr int
  | Ev_listen int int int
  | Ev_accept int int
  | Ev_close int
  | Ev_poll int
  | Ev_recv int int
  | Ev_recvfrom int int sockaddr
  | Ev_send int "u8 list" int
  | Ev_sendto int "u8 list" sockaddr int
  | Ev_delay u32
  | Ev_callback zperf_callback zperf_status "zperf_results option" user_data

record 'w io_state =
  world :: 'w
  trace :: "io_event list"

section \<open>The clock\<close>

definition k_uptime_ticks :: "'w platform \<Rightarrow> ('w, 'z) io_state_scheme \<Rightarrow> u32 \<times> ('w, 'z) io_state_scheme" where
  "k_uptime_ticks P st =
     (let (t, w) = xTaskGetTickCount P (world st) in (t, st\<lparr>world := w\<rparr>))"

definition k_yield :: "'w platform \<Rightarrow> ('w, 'z) io_state_scheme \<Rightarrow> ('w, 'z) io_state_scheme" where
  "k_yield P st = st\<lparr>world := taskYIELD P (world st)\<rparr>"

definition k_sleep :: "'w platform \<Rightarrow> u32 \<Rightarrow> ('w, 'z) io_state_scheme \<Rightarrow> ('w, 'z) io_state_scheme" where
  "k_sleep P d st = st\<lparr>world := vTaskDelay P d (world st), trace := trace st @ [Ev_delay d]\<rparr>"

definition errno_now :: "'w platform \<Rightarrow> ('w, 'z) io_state_scheme \<Rightarrow> int" where
  "errno_now P st = errno_of P (world st)"

section \<open>The socket wrappers\<close>

definition zsock_socket ::
  "'w platform \<Rightarrow> address_family \<Rightarrow> sock_type \<Rightarrow> ip_protocol \<Rightarrow> ('w, 'z) io_state_scheme \<Rightarrow>
   int \<times> ('w, 'z) io_state_scheme" where
  "zsock_socket P fam ty proto st =
     (let (r, w) = lwip_socket P fam ty proto (world st)
      in (r, st\<lparr>world := w, trace := trace st @ [Ev_socket fam ty proto r]\<rparr>))"

definition zsock_setsockopt ::
  "'w platform \<Rightarrow> int \<Rightarrow> sock_option \<Rightarrow> ('w, 'z) io_state_scheme \<Rightarrow> int \<times> ('w, 'z) io_state_scheme" where
  "zsock_setsockopt P s opt st =
     (let (r, w) = lwip_setsockopt P s opt (world st)
      in (r, st\<lparr>world := w, trace := trace st @ [Ev_setsockopt s opt r]\<rparr>))"

definition zsock_connect ::
  "'w platform \<Rightarrow> int \<Rightarrow> sockaddr \<Rightarrow> ('w, 'z) io_state_scheme \<Rightarrow> int \<times> ('w, 'z) io_state_scheme" where
  "zsock_connect P s name st =
     (let (r, w) = lwip_connect P s name (world st)
      in (r, st\<lparr>world := w, trace := trace st @ [Ev_connect s name r]\<rparr>))"

definition zsock_bind ::
  "'w platform \<Rightarrow> int \<Rightarrow> sockaddr \<Rightarrow> ('w, 'z) io_state_scheme \<Rightarrow> int \<times> ('w, 'z) io_state_scheme" where
  "zsock_bind P s name st =
     (let (r, w) = lwip_bind P s name (world st)
      in (r, st\<lparr>world := w, trace := trace st @ [Ev_bind s name r]\<rparr>))"

definition zsock_listen ::
  "'w platform \<Rightarrow> int \<Rightarrow> int \<Rightarrow> ('w, 'z) io_state_scheme \<Rightarrow> int \<times> ('w, 'z) io_state_scheme" where
  "zsock_listen P s backlog st =
     (let (r, w) = lwip_listen P s backlog (world st)
      in (r, st\<lparr>world := w, trace := trace st @ [Ev_listen s backlog r]\<rparr>))"

definition zsock_accept ::
  "'w platform \<Rightarrow> int \<Rightarrow> ('w, 'z) io_state_scheme \<Rightarrow> int \<times> sockaddr \<times> ('w, 'z) io_state_scheme" where
  "zsock_accept P s st =
     (let (r, sa, w) = lwip_accept P s (world st)
      in (r, sa, st\<lparr>world := w, trace := trace st @ [Ev_accept s r]\<rparr>))"

definition zsock_close ::
  "'w platform \<Rightarrow> int \<Rightarrow> ('w, 'z) io_state_scheme \<Rightarrow> ('w, 'z) io_state_scheme" where
  "zsock_close P s st =
     st\<lparr>world := lwip_close P s (world st), trace := trace st @ [Ev_close s]\<rparr>"

definition zsock_poll ::
  "'w platform \<Rightarrow> pollfd list \<Rightarrow> int \<Rightarrow> ('w, 'z) io_state_scheme \<Rightarrow>
   int \<times> pollfd list \<times> ('w, 'z) io_state_scheme" where
  "zsock_poll P fds timeout st =
     (let (r, rev, w) = lwip_poll P fds timeout (world st)
      in (r, map (\<lambda>(i, p). p\<lparr>pfd_revents := rev i\<rparr>) (enumerate 0 fds),
          st\<lparr>world := w, trace := trace st @ [Ev_poll r]\<rparr>))"

definition zsock_recv ::
  "'w platform \<Rightarrow> int \<Rightarrow> nat \<Rightarrow> bool \<Rightarrow> ('w, 'z) io_state_scheme \<Rightarrow>
   int \<times> u8 list \<times> ('w, 'z) io_state_scheme" where
  "zsock_recv P s n dontwait st =
     (let (r, bs, w) = lwip_recv P s n dontwait (world st)
      in (r, bs, st\<lparr>world := w, trace := trace st @ [Ev_recv s r]\<rparr>))"

definition zsock_recvfrom ::
  "'w platform \<Rightarrow> int \<Rightarrow> nat \<Rightarrow> ('w, 'z) io_state_scheme \<Rightarrow>
   int \<times> u8 list \<times> sockaddr \<times> ('w, 'z) io_state_scheme" where
  "zsock_recvfrom P s n st =
     (let (r, bs, sa, w) = lwip_recvfrom P s n (world st)
      in (r, bs, sa, st\<lparr>world := w, trace := trace st @ [Ev_recvfrom s r sa]\<rparr>))"

definition zsock_send ::
  "'w platform \<Rightarrow> int \<Rightarrow> u8 list \<Rightarrow> ('w, 'z) io_state_scheme \<Rightarrow> int \<times> ('w, 'z) io_state_scheme" where
  "zsock_send P s data st =
     (let (r, w) = lwip_send P s data (world st)
      in (r, st\<lparr>world := w, trace := trace st @ [Ev_send s data r]\<rparr>))"

definition zsock_sendto ::
  "'w platform \<Rightarrow> int \<Rightarrow> u8 list \<Rightarrow> sockaddr \<Rightarrow> ('w, 'z) io_state_scheme \<Rightarrow>
   int \<times> ('w, 'z) io_state_scheme" where
  "zsock_sendto P s data to st =
     (let (r, w) = lwip_sendto P s data to (world st)
      in (r, st\<lparr>world := w, trace := trace st @ [Ev_sendto s data to r]\<rparr>))"

text \<open>
  A call of a stored callback, guarded by the \<open>NULL\<close> test the code makes.
\<close>

definition call_session_cb ::
  "zperf_callback option \<Rightarrow> zperf_status \<Rightarrow> zperf_results option \<Rightarrow> user_data \<Rightarrow>
   ('w, 'z) io_state_scheme \<Rightarrow> ('w, 'z) io_state_scheme" where
  "call_session_cb cb status res ud st =
     (case cb of None \<Rightarrow> st
      | Some f \<Rightarrow> st\<lparr>trace := trace st @ [Ev_callback f status res ud]\<rparr>)"

declare k_uptime_ticks_def [io_defs] k_yield_def [io_defs] k_sleep_def [io_defs]
  zsock_socket_def [io_defs] zsock_setsockopt_def [io_defs] zsock_connect_def [io_defs]
  zsock_bind_def [io_defs] zsock_listen_def [io_defs] zsock_accept_def [io_defs]
  zsock_close_def [io_defs] zsock_poll_def [io_defs] zsock_recv_def [io_defs]
  zsock_recvfrom_def [io_defs] zsock_send_def [io_defs] zsock_sendto_def [io_defs]
  call_session_cb_def [io_defs]

section \<open>Open descriptors\<close>

fun opens :: "int \<Rightarrow> io_event \<Rightarrow> int" where
  "opens fd (Ev_socket _ _ _ r) = (if r = fd \<and> 0 \<le> r then 1 else 0)"
| "opens fd (Ev_accept _ r) = (if r = fd \<and> 0 \<le> r then 1 else 0)"
| "opens fd (Ev_close r) = (if r = fd then -1 else 0)"
| "opens fd _ = 0"

definition balance :: "io_event list \<Rightarrow> int \<Rightarrow> int" where
  "balance tr fd = sum_list (map (opens fd) tr)"

lemma balance_Nil [simp]: "balance [] fd = 0"
  by (simp add: balance_def)

lemma balance_append [simp]: "balance (xs @ ys) fd = balance xs fd + balance ys fd"
  by (simp add: balance_def)

lemma balance_single [simp]: "balance [e] fd = opens fd e"
  by (simp add: balance_def)

lemma balance_Cons [simp]: "balance (e # es) fd = opens fd e + balance es fd"
  by (simp add: balance_def)

lemma balance_call_session_cb [simp]:
  "balance (trace (call_session_cb cb s r ud st)) fd = balance (trace st) fd"
  by (simp add: call_session_cb_def split: option.split)

text \<open>
  \<open>quiet_ext st st'\<close>: between \<open>st\<close> and \<open>st'\<close> only the world and the trace have moved, and the new
  events neither opened nor closed a descriptor.
\<close>

definition quiet :: "io_event list \<Rightarrow> bool" where
  "quiet evs \<longleftrightarrow> (\<forall>fd. balance evs fd = 0)"

definition quiet_ext :: "('w, 'z) io_state_scheme \<Rightarrow> ('w, 'z) io_state_scheme \<Rightarrow> bool" where
  "quiet_ext st st' \<longleftrightarrow> (\<exists>w evs. quiet evs \<and> st' = st\<lparr>world := w, trace := trace st @ evs\<rparr>)"

named_theorems quiet_intros "calls that neither open nor close a descriptor"

lemma quiet_append: "quiet xs \<Longrightarrow> quiet ys \<Longrightarrow> quiet (xs @ ys)"
  by (simp add: quiet_def)

lemma quiet_ext_step:
  assumes "quiet_ext st st'" and "quiet evs"
  shows "quiet_ext st (st'\<lparr>world := w, trace := trace st' @ evs\<rparr>)"
proof -
  from assms(1) obtain w0 evs0 where "quiet evs0"
    and "st' = st\<lparr>world := w0, trace := trace st @ evs0\<rparr>"
    by (auto simp: quiet_ext_def)
  with assms(2) show ?thesis
    unfolding quiet_ext_def by (intro exI [of _ w] exI [of _ "evs0 @ evs"]) (simp add: quiet_append)
qed

lemma quiet_ext_refl [quiet_intros]: "quiet_ext st st"
  unfolding quiet_ext_def by (intro exI [of _ "world st"] exI [of _ "[]"]) (simp add: quiet_def)

lemma quiet_ext_world [quiet_intros]:
  assumes "quiet_ext st st'"
  shows "quiet_ext st (st'\<lparr>world := w\<rparr>)"
  using quiet_ext_step [OF assms, of "[]" w] by (simp add: quiet_def)

lemma quiet_ext_event [quiet_intros]:
  assumes "quiet_ext st st'" and "\<And>fd. opens fd e = 0"
  shows "quiet_ext st (st'\<lparr>world := w, trace := trace st' @ [e]\<rparr>)"
  using quiet_ext_step [OF assms(1), of "[e]" w] assms(2) by (simp add: quiet_def)

lemma quiet_ext_callback [quiet_intros]:
  assumes "quiet_ext st st'"
  shows "quiet_ext st (call_session_cb cb x r u st')"
proof (cases cb)
  case None
  with assms show ?thesis by (simp add: call_session_cb_def)
next
  case (Some f)
  with quiet_ext_event [OF assms, of "Ev_callback f x r u" "world st'"] show ?thesis
    by (simp add: call_session_cb_def)
qed

lemma quiet_ext_sendto [quiet_intros]:
  "quiet_ext st st' \<Longrightarrow> quiet_ext st (snd (zsock_sendto P s d a st'))"
  by (auto simp: zsock_sendto_def split: prod.split intro: quiet_ext_event)

lemma quiet_ext_bind [quiet_intros]:
  "quiet_ext st st' \<Longrightarrow> quiet_ext st (snd (zsock_bind P s a st'))"
  by (auto simp: zsock_bind_def split: prod.split intro: quiet_ext_event)

lemma quiet_ext_listen [quiet_intros]:
  "quiet_ext st st' \<Longrightarrow> quiet_ext st (snd (zsock_listen P s n st'))"
  by (auto simp: zsock_listen_def split: prod.split intro: quiet_ext_event)

lemma quiet_ext_ticks [quiet_intros]:
  "quiet_ext st st' \<Longrightarrow> quiet_ext st (snd (k_uptime_ticks P st'))"
  by (auto simp: k_uptime_ticks_def split: prod.split intro: quiet_ext_world)

lemma quiet_ext_recv [quiet_intros]:
  "quiet_ext st st' \<Longrightarrow> quiet_ext st (snd (snd (zsock_recv P s n d st')))"
  by (auto simp: zsock_recv_def split: prod.split intro: quiet_ext_event)

lemma quiet_ext_trans: "quiet_ext a b \<Longrightarrow> quiet_ext b c \<Longrightarrow> quiet_ext a c"
  by (metis quiet_ext_def quiet_ext_step)

lemma quiet_extE:
  assumes "quiet_ext st st'"
  obtains w evs where "st' = st\<lparr>world := w, trace := trace st @ evs\<rparr>" "quiet evs"
  using assms by (auto simp: quiet_ext_def)

lemma quiet_ext_balance: "quiet_ext st st' \<Longrightarrow> balance (trace st') fd = balance (trace st) fd"
  by (elim quiet_extE) (simp add: quiet_def)

text \<open>The datagrams a trace sent, with the descriptor they went to.\<close>

fun sent_of :: "io_event \<Rightarrow> (int \<times> u8 list) list" where
  "sent_of (Ev_send s d r) = [(s, d)]"
| "sent_of _ = []"

definition sent :: "io_event list \<Rightarrow> (int \<times> u8 list) list" where
  "sent tr = concat (map sent_of tr)"

lemma sent_Nil [simp]: "sent [] = []"
  by (simp add: sent_def)

lemma sent_append [simp]: "sent (xs @ ys) = sent xs @ sent ys"
  by (simp add: sent_def)

lemma sent_Cons [simp]: "sent (e # es) = sent_of e @ sent es"
  by (simp add: sent_def)

end
