(* ===== verification/Zephyr_Net_Ip.thy ===== *)
theory Zephyr_Net_Ip
  imports Zperf_Platform
begin

text \<open>
  The address helpers of \<^verbatim>\<open>zephyr/net/net_ip.c\<close>, \<^verbatim>\<open>zephyr/net/net_ip.h\<close>,
  \<^verbatim>\<open>zephyr/net/net_core.c\<close> and \<^verbatim>\<open>zephyr/net/net_if.c\<close>: comparison, copy, tests for the
  unspecified address, the text-to-address wrapper around \<open>inet_pton\<close>, the copies into a
  \<open>sockaddr_storage\<close> and the registration of an address with the network interface.
\<close>

section \<open>Comparing and copying addresses\<close>

definition net_ipv4_addr_cmp :: "in_addr \<Rightarrow> in_addr \<Rightarrow> bool" where
  "net_ipv4_addr_cmp a b \<longleftrightarrow> a = b"

definition net_ipv6_addr_cmp :: "in6_addr \<Rightarrow> in6_addr \<Rightarrow> bool" where
  "net_ipv6_addr_cmp a b \<longleftrightarrow>
     u32_addr0 a = u32_addr0 b \<and> u32_addr1 a = u32_addr1 b \<and>
     u32_addr2 a = u32_addr2 b \<and> u32_addr3 a = u32_addr3 b"

lemma net_ipv6_addr_cmp_iff [simp]: "net_ipv6_addr_cmp a b \<longleftrightarrow> a = b"
  by (cases a, cases b) (simp add: net_ipv6_addr_cmp_def)

lemma net_ipv4_addr_cmp_iff [simp]: "net_ipv4_addr_cmp a b \<longleftrightarrow> a = b"
  by (simp add: net_ipv4_addr_cmp_def)

text \<open>The copies write every byte of the destination, so the result is the source.\<close>

definition net_ipaddr_copy :: "in_addr \<Rightarrow> in_addr \<Rightarrow> in_addr" where
  "net_ipaddr_copy dest src = src"

definition net_ipaddr6_copy :: "in6_addr \<Rightarrow> in6_addr \<Rightarrow> in6_addr" where
  "net_ipaddr6_copy dest src =
     dest\<lparr>u32_addr0 := u32_addr0 src, u32_addr1 := u32_addr1 src,
          u32_addr2 := u32_addr2 src, u32_addr3 := u32_addr3 src\<rparr>"

lemma net_ipaddr6_copy_eq [simp]: "net_ipaddr6_copy dest src = src"
  by (cases src, cases dest) (simp add: net_ipaddr6_copy_def)

definition net_ipv6_unspecified_address :: in6_addr where
  "net_ipv6_unspecified_address = IPV6_ANY_ADDR"

definition net_ipv4_is_addr_unspecified :: "in_addr \<Rightarrow> bool" where
  "net_ipv4_is_addr_unspecified addr \<longleftrightarrow> addr = INADDR_ANY"

definition net_ipv6_is_addr_unspecified :: "in6_addr \<Rightarrow> bool" where
  "net_ipv6_is_addr_unspecified addr \<longleftrightarrow> net_ipv6_addr_cmp addr net_ipv6_unspecified_address"

section \<open>Casts between address structures\<close>

text \<open>\<open>net_sin(addr)->sin_addr\<close> and \<open>net_sin6(addr)->sin6_addr\<close>, whatever the family.\<close>

definition net_sin_addr :: "'w platform \<Rightarrow> sockaddr \<Rightarrow> in_addr" where
  "net_sin_addr P sa = (case sa of Sockaddr_in p a \<Rightarrow> a
     | Sockaddr_in6 p a \<Rightarrow> sin_addr_of_in6 P p a
     | Sockaddr_other f \<Rightarrow> 0)"

definition net_sin6_addr :: "'w platform \<Rightarrow> sockaddr \<Rightarrow> in6_addr" where
  "net_sin6_addr P sa = (case sa of Sockaddr_in p a \<Rightarrow> sin6_addr_of_in P p a
     | Sockaddr_in6 p a \<Rightarrow> a
     | Sockaddr_other f \<Rightarrow> IPV6_ANY_ADDR)"

text \<open>
  The two copies of \<^verbatim>\<open>net_core.c\<close> zero the destination and copy the source if its family is the
  expected one.
\<close>

definition copy_sockaddr_in6_to_sockaddr_storage :: "sockaddr \<Rightarrow> sockaddr" where
  "copy_sockaddr_in6_to_sockaddr_storage src =
     (case src of Sockaddr_in6 p a \<Rightarrow> Sockaddr_in6 p a | _ \<Rightarrow> Sockaddr_other 0)"

definition copy_sockaddr_in_to_sockaddr_storage :: "sockaddr \<Rightarrow> sockaddr" where
  "copy_sockaddr_in_to_sockaddr_storage src =
     (case src of Sockaddr_in p a \<Rightarrow> Sockaddr_in p a | _ \<Rightarrow> Sockaddr_other 0)"

section \<open>Text to address\<close>

definition net_addr_pton4 :: "'w platform \<Rightarrow> string \<Rightarrow> in_addr \<Rightarrow> int \<times> in_addr" where
  "net_addr_pton4 P src dst =
     (let (r, dst') = inet_pton4 P src dst in (if r = 0 then -1 else 0, dst'))"

definition net_addr_pton6 :: "'w platform \<Rightarrow> string \<Rightarrow> in6_addr \<Rightarrow> int \<times> in6_addr" where
  "net_addr_pton6 P src dst =
     (let (r, dst') = inet_pton6 P src dst in (if r = 0 then -1 else 0, dst'))"

section \<open>Interface addresses\<close>

text \<open>
  \<open>net_if_ipv6_addr_add\<close> returns \<open>NULL\<close> when lwIP has no room for the address; its IPv4 and its
  prefix counterpart return the address of a static object, never \<open>NULL\<close>. A pointer result is
  modelled by whether it is non-null.
\<close>

definition net_if_ipv6_addr_add ::
  "'w platform \<Rightarrow> in6_addr \<Rightarrow> ('w, 'z) io_state_scheme \<Rightarrow> bool \<times> ('w, 'z) io_state_scheme" where
  "net_if_ipv6_addr_add P addr st =
     (let (ok, w) = netif_add_ip6_address P addr (world st) in (ok, st\<lparr>world := w\<rparr>))"

definition net_if_ipv4_addr_add ::
  "'w platform \<Rightarrow> in_addr \<Rightarrow> ('w, 'z) io_state_scheme \<Rightarrow> bool \<times> ('w, 'z) io_state_scheme" where
  "net_if_ipv4_addr_add P addr st = (True, st\<lparr>world := netif_set_addr P addr (world st)\<rparr>)"

definition net_if_ipv6_prefix_add :: "in6_addr \<Rightarrow> u8 \<Rightarrow> bool" where
  "net_if_ipv6_prefix_add addr prefix_len = True"

end
