(* ===== verification/Zperf_Session.thy ===== *)
theory Zperf_Session
  imports Zephyr_Net_Ip
begin

text \<open>
  The session table of \<^verbatim>\<open>zperf_session.c\<close> and \<^verbatim>\<open>zperf_session.h\<close>: one row of
  \<open>CONFIG_NET_ZPERF_MAX_SESSIONS\<close> slots for each protocol. A pointer into the table is the index
  of a slot in its row.

  The interface the two receivers use is the locale \<open>session_table\<close>: the lookup \<open>get\<close>, the slots
  \<open>row\<close> and a write through the returned pointer, \<open>put\<close>. What the clients need is proved once in
  the locale from the laws of these operations, and the locale is interpreted on the UDP row
  (\<open>udp_tab\<close>) and on the TCP row (\<open>tcp_tab\<close>) of the table.
\<close>

section \<open>The table\<close>

datatype session_state =
    STATE_NULL
  | STATE_ONGOING
  | STATE_LAST_PACKET_RECEIVED
  | STATE_COMPLETED

datatype session_proto = SESSION_UDP | SESSION_TCP | SESSION_PROTO_END

fun proto_index :: "session_proto \<Rightarrow> nat" where
  "proto_index SESSION_UDP = 0"
| "proto_index SESSION_TCP = 1"
| "proto_index SESSION_PROTO_END = 2"

text \<open>\<open>struct net_addr\<close>: the family is the tag of the union; a fresh slot has family 0.\<close>

datatype net_addr = Net_unset | Net_in in_addr | Net_in6 in6_addr

record session =
  ses_port :: u16
  ses_ip :: net_addr
  ses_state :: session_state
  ses_counter :: u32
  ses_next_id :: u32
  ses_outorder :: u32
  ses_error :: u32
  ses_length :: u64
  ses_start_time :: u64
  ses_last_time :: u32
  ses_jitter :: u32
  ses_last_transit_time :: u32
  ses_stat :: zperf_server_hdr

type_synonym sessions = "session list list"

definition SESSION_MAX :: nat where
  "SESSION_MAX = CONFIG_NET_ZPERF_MAX_SESSIONS"

lemma SESSION_MAX_eq [simp]: "SESSION_MAX = 4"
  by (simp add: SESSION_MAX_def CONFIG_NET_ZPERF_MAX_SESSIONS_def)

section \<open>Lookup\<close>

definition session_matches :: "sockaddr \<Rightarrow> session \<Rightarrow> bool" where
  "session_matches addr ptr =
     (case addr of
        Sockaddr_in p a \<Rightarrow> CONFIG_NET_IPV4 \<and>
          (case ses_ip ptr of Net_in a' \<Rightarrow> ses_port ptr = p \<and> net_ipv4_addr_cmp a' a | _ \<Rightarrow> False)
      | Sockaddr_in6 p a \<Rightarrow> CONFIG_NET_IPV6 \<and>
          (case ses_ip ptr of Net_in6 a' \<Rightarrow> ses_port ptr = p \<and> net_ipv6_addr_cmp a' a | _ \<Rightarrow> False)
      | Sockaddr_other f \<Rightarrow> False)"

definition session_free :: "session \<Rightarrow> bool" where
  "session_free ptr \<longleftrightarrow> ses_state ptr = STATE_NULL \<or> ses_state ptr = STATE_COMPLETED"

text \<open>The scan: the matching slot, and the first free slot seen before it.\<close>

fun get_session_scan ::
  "sockaddr \<Rightarrow> session list \<Rightarrow> nat \<Rightarrow> nat option \<Rightarrow> nat option \<times> nat option" where
  "get_session_scan addr [] i free = (None, free)"
| "get_session_scan addr (ptr # rest) i free =
     (if session_matches addr ptr then (Some i, free)
      else get_session_scan addr rest (Suc i)
             (if free = None \<and> session_free ptr then Some i else free))"

text \<open>The new owner of a free slot: port and address are overwritten, the rest is kept.\<close>

definition session_claim :: "sockaddr \<Rightarrow> session \<Rightarrow> session" where
  "session_claim addr active =
     (case addr of
        Sockaddr_in p a \<Rightarrow>
          if CONFIG_NET_IPV4 then active\<lparr>ses_port := p, ses_ip := Net_in a\<rparr> else active
      | Sockaddr_in6 p a \<Rightarrow>
          if CONFIG_NET_IPV6 then active\<lparr>ses_port := p, ses_ip := Net_in6 a\<rparr> else active
      | Sockaddr_other f \<Rightarrow> active)"

definition put_session :: "session_proto \<Rightarrow> nat \<Rightarrow> session \<Rightarrow> sessions \<Rightarrow> sessions" where
  "put_session proto i s ss = ss[proto_index proto := (ss ! proto_index proto)[i := s]]"

definition get_session :: "sockaddr \<Rightarrow> session_proto \<Rightarrow> sessions \<Rightarrow> nat option \<times> sessions" where
  "get_session addr proto ss =
     (if proto \<noteq> SESSION_TCP \<and> proto \<noteq> SESSION_UDP then (None, ss)
      else case get_session_scan addr (ss ! proto_index proto) 0 None of
             (Some i, _) \<Rightarrow> (Some i, ss)
           | (None, None) \<Rightarrow> (None, ss)
           | (None, Some i) \<Rightarrow>
               (Some i, put_session proto i (session_claim addr (ss ! proto_index proto ! i)) ss))"

section \<open>Reset and initialisation\<close>

definition zperf_reset_session_stats :: "session \<Rightarrow> session" where
  "zperf_reset_session_stats s =
     s\<lparr>ses_counter := 0, ses_start_time := 0, ses_next_id := 1, ses_length := 0,
       ses_outorder := 0, ses_error := 0, ses_jitter := 0, ses_last_transit_time := 0\<rparr>"

definition zperf_session_init :: "sessions \<Rightarrow> sessions" where
  "zperf_session_init ss =
     map (map (\<lambda>s. zperf_reset_session_stats (s\<lparr>ses_state := STATE_NULL\<rparr>))) ss"

text \<open>The static array before \<open>zperf_session_init\<close> runs: all bytes zero.\<close>

definition session_zero :: session where
  "session_zero = \<lparr>ses_port = 0, ses_ip = Net_unset, ses_state = STATE_NULL, ses_counter = 0,
     ses_next_id = 0, ses_outorder = 0, ses_error = 0, ses_length = 0, ses_start_time = 0,
     ses_last_time = 0, ses_jitter = 0, ses_last_transit_time = 0, ses_stat = server_hdr_zero\<rparr>"

definition sessions_zero :: sessions where
  "sessions_zero = replicate (proto_index SESSION_PROTO_END) (replicate SESSION_MAX session_zero)"

section \<open>Abstract view\<close>

text \<open>The peer a slot belongs to; the slot of a peer is found by comparing peers.\<close>

definition peer_of :: "session \<Rightarrow> sockaddr option" where
  "peer_of s = (case ses_ip s of Net_unset \<Rightarrow> None
     | Net_in a \<Rightarrow> Some (Sockaddr_in (ses_port s) a)
     | Net_in6 a \<Rightarrow> Some (Sockaddr_in6 (ses_port s) a))"

fun is_ip :: "sockaddr \<Rightarrow> bool" where
  "is_ip (Sockaddr_in _ _) = True"
| "is_ip (Sockaddr_in6 _ _) = True"
| "is_ip (Sockaddr_other _) = False"

lemma peer_of_cong:
  "ses_ip s = ses_ip s' \<Longrightarrow> ses_port s = ses_port s' \<Longrightarrow> peer_of s = peer_of s'"
  by (simp add: peer_of_def split: net_addr.split)

lemma session_matches_iff: "session_matches addr s \<longleftrightarrow> is_ip addr \<and> peer_of s = Some addr"
  by (cases addr)
    (auto simp: session_matches_def peer_of_def config_defs split: net_addr.splits)

lemma peer_of_is_ip: "peer_of s = Some a \<Longrightarrow> is_ip a"
  by (auto simp: peer_of_def split: net_addr.splits)

lemma session_matches_peer: "session_matches addr s \<longleftrightarrow> peer_of s = Some addr"
  by (auto simp: session_matches_iff dest: peer_of_is_ip)

lemma peer_of_claim [simp]: "is_ip addr \<Longrightarrow> peer_of (session_claim addr s) = Some addr"
  by (cases addr) (simp_all add: session_claim_def peer_of_def config_defs)

lemma session_claim_fields [session_simps]:
  "ses_state (session_claim a s) = ses_state s"
  "ses_counter (session_claim a s) = ses_counter s"
  "ses_next_id (session_claim a s) = ses_next_id s"
  "ses_outorder (session_claim a s) = ses_outorder s"
  "ses_error (session_claim a s) = ses_error s"
  "ses_length (session_claim a s) = ses_length s"
  "ses_start_time (session_claim a s) = ses_start_time s"
  "ses_jitter (session_claim a s) = ses_jitter s"
  "ses_last_transit_time (session_claim a s) = ses_last_transit_time s"
  "ses_stat (session_claim a s) = ses_stat s"
  by (cases a; simp add: session_claim_def)+

lemma get_session_scan_eq:
  "get_session_scan addr row i free =
     (map_option ((+) i) (find_index (session_matches addr) row),
      case free of Some f \<Rightarrow> Some f
      | None \<Rightarrow> map_option ((+) i)
          (find_index session_free
             (case find_index (session_matches addr) row of None \<Rightarrow> row | Some k \<Rightarrow> take k row)))"
proof (induction row arbitrary: i free)
  case Nil
  then show ?case by (simp split: option.split)
next
  case (Cons ptr row)
  show ?case
  proof (cases "session_matches addr ptr")
    case True
    then show ?thesis by (simp split: option.split)
  next
    case False
    then show ?thesis
      by (cases free; cases "find_index (session_matches addr) row")
        (auto simp: Cons.IH option.map_comp comp_def intro!: option.map_cong)
  qed
qed

text \<open>The specification of the lookup, in terms of peers.\<close>

lemma get_session_spec:
  assumes "proto = SESSION_UDP \<or> proto = SESSION_TCP"
  shows "get_session addr proto ss =
    (let row = ss ! proto_index proto
     in case find_index (\<lambda>s. peer_of s = Some addr) row of
          Some i \<Rightarrow> (Some i, ss)
        | None \<Rightarrow> (case find_index session_free row of
            None \<Rightarrow> (None, ss)
          | Some i \<Rightarrow> (Some i, put_session proto i (session_claim addr (row ! i)) ss)))"
proof -
  have "session_matches addr = (\<lambda>s. peer_of s = Some addr)"
    by (simp add: session_matches_peer fun_eq_iff)
  then show ?thesis
    using assms
    by (auto simp: get_session_def get_session_scan_eq Let_def split: option.splits)
qed

section \<open>The table invariant\<close>

definition peers_unique :: "session list \<Rightarrow> bool" where
  "peers_unique row \<longleftrightarrow> (\<forall>i < length row. \<forall>j < length row.
     peer_of (row ! i) \<noteq> None \<longrightarrow> peer_of (row ! i) = peer_of (row ! j) \<longrightarrow> i = j)"

definition sessions_wf :: "sessions \<Rightarrow> bool" where
  "sessions_wf ss \<longleftrightarrow> length ss = proto_index SESSION_PROTO_END \<and>
     (\<forall>row \<in> set ss. length row = SESSION_MAX \<and> peers_unique row)"

lemma peers_uniqueD:
  "peers_unique row \<Longrightarrow> i < length row \<Longrightarrow> j < length row \<Longrightarrow>
   peer_of (row ! i) = Some a \<Longrightarrow> peer_of (row ! j) = Some a \<Longrightarrow> i = j"
  by (auto simp: peers_unique_def)

lemma peers_unique_update:
  assumes "peers_unique row" and "i < length row"
    and "\<And>j. j < length row \<Longrightarrow> j \<noteq> i \<Longrightarrow> peer_of s \<noteq> None \<Longrightarrow> peer_of (row ! j) \<noteq> peer_of s"
  shows "peers_unique (row[i := s])"
  using assms unfolding peers_unique_def by (auto simp: nth_list_update)

lemma sessions_wf_row:
  "sessions_wf ss \<Longrightarrow> proto_index p < 2 \<Longrightarrow>
   length (ss ! proto_index p) = SESSION_MAX \<and> peers_unique (ss ! proto_index p)"
  by (simp add: sessions_wf_def)

lemma row_put_session [simp]:
  "proto_index p < length ss \<Longrightarrow>
   put_session p i s ss ! proto_index p = (ss ! proto_index p)[i := s]"
  by (simp add: put_session_def)

lemma sessions_wf_put:
  assumes "sessions_wf ss" and "proto_index p < 2" and "peers_unique ((ss ! proto_index p)[i := s])"
  shows "sessions_wf (put_session p i s ss)"
  using assms sessions_wf_row [OF assms(1,2)]
  by (auto simp: sessions_wf_def put_session_def dest: set_update_subset_insert [THEN subsetD])

lemma sessions_wf_init:
  assumes "sessions_wf ss"
  shows "sessions_wf (zperf_session_init ss)"
proof -
  have peer: "peer_of (zperf_reset_session_stats (s\<lparr>ses_state := STATE_NULL\<rparr>)) = peer_of s" for s
    by (rule peer_of_cong) (simp_all add: zperf_reset_session_stats_def)
  show ?thesis
    using assms by (auto simp: sessions_wf_def zperf_session_init_def peers_unique_def peer)
qed

lemma sessions_wf_zero: "sessions_wf sessions_zero"
  by (simp add: sessions_wf_def sessions_zero_def peers_unique_def session_zero_def peer_of_def
      nth_replicate)

section \<open>The interface of the table\<close>

locale session_table =
  fixes get :: "sockaddr \<Rightarrow> 't \<Rightarrow> nat option \<times> 't"
    and row :: "'t \<Rightarrow> session list"
    and put :: "nat \<Rightarrow> session \<Rightarrow> 't \<Rightarrow> 't"
    and inv :: "'t \<Rightarrow> bool"
  assumes inv_row: "inv t \<Longrightarrow> length (row t) = SESSION_MAX \<and> peers_unique (row t)"
    and row_put: "inv t \<Longrightarrow> i < length (row t) \<Longrightarrow> row (put i s t) = (row t)[i := s]"
    and inv_put: "inv t \<Longrightarrow> i < length (row t) \<Longrightarrow> peers_unique ((row t)[i := s]) \<Longrightarrow> inv (put i s t)"
    and get_eq: "get a t =
      (case find_index (\<lambda>s. peer_of s = Some a) (row t) of
         Some i \<Rightarrow> (Some i, t)
       | None \<Rightarrow> (case find_index session_free (row t) of
           None \<Rightarrow> (None, t)
         | Some i \<Rightarrow> (Some i, put i (session_claim a (row t ! i)) t)))"
begin

text \<open>The peer of the packet already has a slot: that slot is returned and nothing changes.\<close>

lemma get_known:
  assumes "inv t" and "i < length (row t)" and "peer_of (row t ! i) = Some a"
  shows "get a t = (Some i, t)"
proof -
  from assms(2,3) obtain k where k: "find_index (\<lambda>s. peer_of s = Some a) (row t) = Some k"
    by (cases "find_index (\<lambda>s. peer_of s = Some a) (row t)")
      (auto simp: find_index_None_iff dest: nth_mem)
  then have "k < length (row t)" and "peer_of (row t ! k) = Some a"
    by (auto dest: find_index_SomeD)
  with assms inv_row have "k = i" by (blast intro: peers_uniqueD)
  with k show ?thesis by (simp add: get_eq)
qed

text \<open>The lookup fails exactly when the peer is unknown and every slot is in use.\<close>

lemma get_None_iff:
  "fst (get a t) = None \<longleftrightarrow>
     (\<forall>s \<in> set (row t). peer_of s \<noteq> Some a \<and> \<not> session_free s)"
proof -
  have "fst (get a t) = None \<longleftrightarrow>
      find_index (\<lambda>s. peer_of s = Some a) (row t) = None \<and> find_index session_free (row t) = None"
    by (simp add: get_eq split: option.split)
  then show ?thesis by (auto simp: find_index_None_iff)
qed

lemma get_None_unchanged: "fst (get a t) = None \<Longrightarrow> snd (get a t) = t"
  by (auto simp: get_eq split: option.splits)

text \<open>The two ways a lookup succeeds.\<close>

lemma get_cases:
  assumes "get a t = (Some i, t')"
  obtains (known) "i < length (row t)" "peer_of (row t ! i) = Some a" "t' = t"
    | (claimed) "i < length (row t)" "session_free (row t ! i)"
        "\<forall>s \<in> set (row t). peer_of s \<noteq> Some a"
        "t' = put i (session_claim a (row t ! i)) t"
proof (cases "find_index (\<lambda>s. peer_of s = Some a) (row t)")
  case (Some k)
  with assms show thesis
    using find_index_SomeD [OF Some] by (intro known) (auto simp: get_eq)
next
  case None
  with assms obtain k where k: "find_index session_free (row t) = Some k"
    by (auto simp: get_eq split: option.splits)
  with None assms have "i = k" and "t' = put i (session_claim a (row t ! i)) t"
    by (auto simp: get_eq)
  moreover from None have "\<forall>s \<in> set (row t). peer_of s \<noteq> Some a"
    by (simp add: find_index_None_iff)
  ultimately show thesis
    using find_index_SomeD [OF k] by (intro claimed) auto
qed

lemma get_index: "get a t = (Some i, t') \<Longrightarrow> inv t \<Longrightarrow> i < SESSION_MAX"
  by (erule get_cases) (auto simp: inv_row)

lemma get_row_other:
  assumes "inv t" and "get a t = (Some i, t')" and "j \<noteq> i"
  shows "row t' ! j = row t ! j"
  using assms(2) by (cases rule: get_cases) (use assms in \<open>simp_all add: row_put\<close>)

lemma get_slot:
  assumes "inv t" and "get a t = (Some i, t')" and "is_ip a"
  shows "peer_of (row t' ! i) = Some a"
  using assms(2) by (cases rule: get_cases) (use assms in \<open>simp_all add: row_put\<close>)

lemma get_slot_kept:
  assumes "inv t" and "get a t = (Some i, t')"
  shows "row t' ! i = row t ! i \<or> (session_free (row t ! i) \<and> row t' ! i = session_claim a (row t ! i))"
  using assms(2) by (cases rule: get_cases) (use assms in \<open>simp_all add: row_put\<close>)

lemma inv_get:
  assumes "inv t"
  shows "inv (snd (get a t))"
proof (cases "get a t")
  case (Pair r t')
  show ?thesis
  proof (cases r)
    case None
    with Pair assms get_None_unchanged [of a t] show ?thesis by simp
  next
    case (Some i)
    with Pair have "get a t = (Some i, t')" by simp
    then show ?thesis
    proof (cases rule: get_cases)
      case known
      with assms Pair show ?thesis by simp
    next
      case claimed
      have "peers_unique ((row t)[i := session_claim a (row t ! i)])"
      proof (cases "is_ip a")
        case True
        with claimed assms inv_row show ?thesis
          by (intro peers_unique_update) (auto simp: all_set_conv_all_nth)
      next
        case False
        then have "session_claim a (row t ! i) = row t ! i"
          by (cases a) (simp_all add: session_claim_def)
        with assms inv_row show ?thesis by simp
      qed
      with claimed assms Pair show ?thesis by (simp add: inv_put)
    qed
  qed
qed

text \<open>A write through the pointer that leaves the peer alone keeps the invariant.\<close>

lemma inv_put_same_peer:
  assumes "inv t" and "i < SESSION_MAX" and "peer_of s = peer_of (row t ! i)"
  shows "inv (put i s t)"
proof -
  from assms have i: "i < length (row t)" by (simp add: inv_row)
  with assms have "peers_unique ((row t)[i := s])"
    using inv_row [OF assms(1)] by (intro peers_unique_update) (auto simp: peers_unique_def)
  with assms i show ?thesis by (simp add: inv_put)
qed

text \<open>Once a peer has its slot, every later lookup returns it, whatever is written to the slot's
  statistics.\<close>

lemma get_again:
  assumes "inv t" and "get a t = (Some i, t')" and "is_ip a" and "peer_of s = Some a"
  shows "get a (put i s t') = (Some i, put i s t')"
proof -
  have inv': "inv t'" using inv_get [OF assms(1), of a] assms(2) by simp
  have i: "i < SESSION_MAX" using get_index [OF assms(2,1)] .
  have same: "peer_of s = peer_of (row t' ! i)"
    using get_slot [OF assms(1-3)] assms(4) by simp
  have "inv (put i s t')" using inv' i same by (rule inv_put_same_peer)
  then show ?thesis
    using i inv' assms(4) by (intro get_known) (simp_all add: row_put inv_row)
qed

end

lemma session_table_row: "proto = SESSION_UDP \<or> proto = SESSION_TCP \<Longrightarrow>
  session_table (\<lambda>a. get_session a proto) (\<lambda>ss. ss ! proto_index proto) (put_session proto) sessions_wf"
proof (unfold_locales, goal_cases)
  case (1 t)
  then show ?case using sessions_wf_row [of t proto] by auto
next
  case (2 t i s)
  then show ?case by (intro row_put_session) (auto simp: sessions_wf_def)
next
  case (3 t i s)
  then show ?case by (intro sessions_wf_put) auto
next
  case (4 a t)
  then show ?case by (simp add: get_session_spec Let_def)
qed

interpretation udp_tab: session_table "\<lambda>a. get_session a SESSION_UDP"
  "\<lambda>ss. ss ! proto_index SESSION_UDP" "put_session SESSION_UDP" sessions_wf
  by (rule session_table_row) simp

interpretation tcp_tab: session_table "\<lambda>a. get_session a SESSION_TCP"
  "\<lambda>ss. ss ! proto_index SESSION_TCP" "put_session SESSION_TCP" sessions_wf
  by (rule session_table_row) simp

section \<open>Properties\<close>

text \<open>
  A peer that has a slot keeps it: the lookup returns that slot and changes nothing.
\<close>

theorem get_session_known:
  assumes "sessions_wf ss" and "proto = SESSION_UDP \<or> proto = SESSION_TCP" and "i < SESSION_MAX"
    and "peer_of (ss ! proto_index proto ! i) = Some addr"
  shows "get_session addr proto ss = (Some i, ss)"
  using assms udp_tab.get_known [of ss i addr] tcp_tab.get_known [of ss i addr]
    udp_tab.inv_row [OF assms(1)] tcp_tab.inv_row [OF assms(1)]
  by auto

text \<open>The static table with one slot given to a peer, for the witnesses.\<close>

definition one_peer_sessions :: "session_proto \<Rightarrow> sessions" where
  "one_peer_sessions proto = put_session proto 2 (session_claim (Sockaddr_in 9 7) session_zero) sessions_zero"

lemma one_peer_sessions_row:
  "proto = SESSION_UDP \<or> proto = SESSION_TCP \<Longrightarrow> one_peer_sessions proto ! proto_index proto =
    [session_zero, session_zero, session_claim (Sockaddr_in 9 7) session_zero, session_zero]"
  by (auto simp: one_peer_sessions_def put_session_def sessions_zero_def numeral_eq_Suc)

lemma peer_of_session_zero [simp]: "peer_of session_zero = None"
  by (simp add: peer_of_def session_zero_def)

lemma one_peer_sessions_wf:
  assumes "proto = SESSION_UDP \<or> proto = SESSION_TCP"
  shows "sessions_wf (one_peer_sessions proto)"
proof -
  have row: "sessions_zero ! proto_index proto = replicate SESSION_MAX session_zero"
    using assms by (auto simp: sessions_zero_def)
  then show ?thesis
    using assms sessions_wf_row [OF sessions_wf_zero, of proto] unfolding one_peer_sessions_def
    by (intro sessions_wf_put [OF sessions_wf_zero] peers_unique_update) auto
qed

theorem get_session_known_witness:
  "get_session (Sockaddr_in 9 7) SESSION_UDP (one_peer_sessions SESSION_UDP) =
     (Some 2, one_peer_sessions SESSION_UDP)"
  by (rule get_session_known [OF one_peer_sessions_wf])
    (simp_all add: one_peer_sessions_row [of SESSION_UDP, simplified])

text \<open>
  C21. A lookup keeps the table well formed, returns a slot of the peer it was asked for, and leaves
  every other slot alone; the slot it returns was this peer's already or was not in use, so a session
  that is under way is never given to somebody else.
\<close>

theorem get_session_safe:
  assumes "sessions_wf ss" and "proto = SESSION_UDP \<or> proto = SESSION_TCP" and "is_ip addr"
    and "get_session addr proto ss = (Some i, ss')"
  shows "sessions_wf ss' \<and> i < SESSION_MAX \<and> peer_of (ss' ! proto_index proto ! i) = Some addr \<and>
    (\<forall>j. j \<noteq> i \<longrightarrow> ss' ! proto_index proto ! j = ss ! proto_index proto ! j) \<and>
    (peer_of (ss ! proto_index proto ! i) = Some addr \<or> session_free (ss ! proto_index proto ! i))"
proof -
  have tab: "session_table (\<lambda>a. get_session a proto) (\<lambda>ss. ss ! proto_index proto)
      (put_session proto) sessions_wf"
    using assms(2) by (rule session_table_row)
  show ?thesis
    using session_table.inv_get [OF tab assms(1), of addr] assms(4)
      session_table.get_index [OF tab assms(4,1)] session_table.get_slot [OF tab assms(1,4,3)]
      session_table.get_row_other [OF tab assms(1,4)] session_table.get_slot_kept [OF tab assms(1,4)]
    by auto
qed

theorem get_session_safe_witness:
  "\<exists>ss'. get_session (Sockaddr_in 1 2) SESSION_TCP (one_peer_sessions SESSION_TCP) = (Some 0, ss') \<and>
     sessions_wf ss'"
proof -
  obtain ss' where call: "get_session (Sockaddr_in 1 2) SESSION_TCP (one_peer_sessions SESSION_TCP) = (Some 0, ss')"
    using get_session_spec [of SESSION_TCP "Sockaddr_in 1 2" "one_peer_sessions SESSION_TCP"]
    by (simp add: one_peer_sessions_row [of SESSION_TCP, simplified] session_free_def session_zero_def
        Let_def peer_of_def session_claim_def config_defs)
  with get_session_safe [OF one_peer_sessions_wf _ _ call] show ?thesis by simp
qed

text \<open>
  A lookup succeeds exactly when the protocol has a row in which the peer is known or a slot is
  not in use.
\<close>

lemma get_session_succeeds_iff:
  "fst (get_session addr proto ss) \<noteq> None \<longleftrightarrow> proto \<noteq> SESSION_PROTO_END \<and>
     (\<exists>s \<in> set (ss ! proto_index proto). peer_of s = Some addr \<or> session_free s)"
proof (cases proto)
  case SESSION_UDP
  with udp_tab.get_None_iff [of addr ss] show ?thesis by auto
next
  case SESSION_TCP
  with tcp_tab.get_None_iff [of addr ss] show ?thesis by auto
next
  case SESSION_PROTO_END
  then show ?thesis by (simp add: get_session_def)
qed

end
