(* ===== verification/Zephyr_Kernel.thy ===== *)
theory Zephyr_Kernel
  imports Zperf_Platform
begin

text \<open>
  The time conversions of \<^verbatim>\<open>zephyr/kernel.c\<close> and \<^verbatim>\<open>zephyr/kernel.h\<close>. The tick rate is the
  platform's \<open>configTICK_RATE_HZ\<close>; intermediate products are 64 bits wide and results are truncated
  to the return type, as in the C code. Despite their names the \<open>ceil\<close> conversions round down,
  which the lemmas below state: each is the truncated quotient.
\<close>

section \<open>The conversions\<close>

definition k_ticks_to_us_ceil32 :: "'w platform \<Rightarrow> u32 \<Rightarrow> u32" where
  "k_ticks_to_us_ceil32 P ticks =
     ucast ((ucast ticks * ucast USEC_PER_SEC :: u64) div configTICK_RATE_HZ P)"

definition k_us_to_ticks_ceil32 :: "'w platform \<Rightarrow> u32 \<Rightarrow> u32" where
  "k_us_to_ticks_ceil32 P us =
     ucast ((ucast us * configTICK_RATE_HZ P :: u64) div ucast USEC_PER_SEC)"

definition k_ticks_to_ms_ceil32 :: "'w platform \<Rightarrow> u32 \<Rightarrow> u32" where
  "k_ticks_to_ms_ceil32 P ticks =
     ucast ((ucast ticks * ucast USEC_PER_MSEC :: u64) div configTICK_RATE_HZ P)"

definition k_ms_to_ticks_ceil32 :: "'w platform \<Rightarrow> u32 \<Rightarrow> u32" where
  "k_ms_to_ticks_ceil32 P ms =
     ucast ((ucast ms * configTICK_RATE_HZ P :: u64) div ucast USEC_PER_MSEC)"

definition k_ticks_to_us_ceil64 :: "'w platform \<Rightarrow> u64 \<Rightarrow> u64" where
  "k_ticks_to_us_ceil64 P ticks = (ticks * ucast USEC_PER_SEC) div configTICK_RATE_HZ P"

definition k_ms_to_ticks_ceil64 :: "'w platform \<Rightarrow> u64 \<Rightarrow> u64" where
  "k_ms_to_ticks_ceil64 P ms = (ms * configTICK_RATE_HZ P) div ucast USEC_PER_MSEC"

definition k_ticks_to_us_floor64 :: "'w platform \<Rightarrow> u64 \<Rightarrow> u64" where
  "k_ticks_to_us_floor64 P ticks = k_ticks_to_us_ceil64 P ticks"

text \<open>\<open>k_timepoint_t\<close> is 64 bits wide, the tick count 32.\<close>

definition sys_timepoint_calc ::
  "'w platform \<Rightarrow> u32 \<Rightarrow> ('w, 'z) io_state_scheme \<Rightarrow> u64 \<times> ('w, 'z) io_state_scheme" where
  "sys_timepoint_calc P ticks st =
     (let (now, st') = k_uptime_ticks P st in (ucast now + ucast ticks, st'))"

definition sys_timepoint_expired ::
  "'w platform \<Rightarrow> u64 \<Rightarrow> ('w, 'z) io_state_scheme \<Rightarrow> bool \<times> ('w, 'z) io_state_scheme" where
  "sys_timepoint_expired P end st =
     (let (now, st') = k_uptime_ticks P st in (end \<le> ucast now, st'))"

definition CLAMP :: "int \<Rightarrow> int \<Rightarrow> int \<Rightarrow> int" where
  "CLAMP val low high = (if val \<le> low then low else min val high)"

section \<open>What they compute\<close>

lemma unat_ucast_u32_u64 [simp]: "unat (ucast (x :: u32) :: u64) = unat x"
  using unat_lt_u32 [of x] by (simp add: unsigned_ucast_eq take_bit_nat_eq_self)

lemma unat_mult_u64:
  "unat (a :: u64) * unat b < 2 ^ 64 \<Longrightarrow> unat (a * b) = unat a * unat b"
  by (simp add: unat_word_ariths)

lemma unat_ucast_u64_u32: "unat (ucast (x :: u64) :: u32) = unat x mod 2 ^ 32"
  by (simp add: unsigned_ucast_eq take_bit_eq_mod)

lemma unat_k_ticks_to_us_ceil32:
  "unat (k_ticks_to_us_ceil32 P t) =
     (unat t * 1000000 div unat (configTICK_RATE_HZ P)) mod 2 ^ 32"
proof -
  have "unat t * 1000000 < 2 ^ 64" using unat_lt_u32 [of t] by simp
  then have "unat (ucast t * 1000000 :: u64) = unat t * 1000000"
    by (subst unat_mult_u64) simp_all
  then show ?thesis
    by (simp add: k_ticks_to_us_ceil32_def unat_ucast_u64_u32 unat_div)
qed

lemma unat_k_us_to_ticks_ceil32:
  assumes "unat (configTICK_RATE_HZ P) < 2 ^ 32"
  shows "unat (k_us_to_ticks_ceil32 P us) =
     (unat us * unat (configTICK_RATE_HZ P) div 1000000) mod 2 ^ 32"
proof -
  have "unat us * unat (configTICK_RATE_HZ P) < 2 ^ 32 * 2 ^ 32"
    using unat_lt_u32 [of us] assms by (intro mult_strict_mono) simp_all
  then have "unat (ucast us * configTICK_RATE_HZ P :: u64) = unat us * unat (configTICK_RATE_HZ P)"
    by (subst unat_mult_u64) simp_all
  then show ?thesis
    by (simp add: k_us_to_ticks_ceil32_def unat_ucast_u64_u32 unat_div)
qed

text \<open>
  Converting ticks to microseconds and back is the identity when the tick length is a whole number
  of microseconds and the value in microseconds fits 32 bits.
\<close>

lemma k_us_ticks_round_trip:
  assumes rate: "0 < unat (configTICK_RATE_HZ P)" "unat (configTICK_RATE_HZ P) dvd 1000000"
    and fits: "unat t * (1000000 div unat (configTICK_RATE_HZ P)) < 2 ^ 32"
  shows "k_us_to_ticks_ceil32 P (k_ticks_to_us_ceil32 P t) = t"
proof -
  let ?r = "unat (configTICK_RATE_HZ P)"
  from rate have r: "?r \<le> 1000000" by (simp add: dvd_imp_le)
  then have r32: "?r < 2 ^ 32" by simp
  have q: "unat t * 1000000 div ?r = unat t * (1000000 div ?r)"
    using rate(2) by (simp add: div_mult_swap)
  have us: "unat (k_ticks_to_us_ceil32 P t) = unat t * (1000000 div ?r)"
    using fits by (simp add: unat_k_ticks_to_us_ceil32 q)
  have "unat t * (1000000 div ?r) * ?r = unat t * (1000000 div ?r * ?r)"
    by (rule mult.assoc)
  then have prod: "unat t * (1000000 div ?r) * ?r = unat t * 1000000"
    using rate(2) by (simp only: dvd_div_mult_self)
  have "unat (k_us_to_ticks_ceil32 P (k_ticks_to_us_ceil32 P t)) = unat t mod 2 ^ 32"
    by (simp add: unat_k_us_to_ticks_ceil32 [OF r32] us prod)
  then show ?thesis
    using unat_lt_u32 [of t] by (simp add: word_unat_eq_iff)
qed

lemma unat_k_ms_to_ticks_ceil64:
  assumes "unat ms * unat (configTICK_RATE_HZ P) < 2 ^ 64"
  shows "unat (k_ms_to_ticks_ceil64 P ms) = unat ms * unat (configTICK_RATE_HZ P) div 1000"
  using assms
  by (simp add: k_ms_to_ticks_ceil64_def unat_div unat_mult_u64 USEC_PER_MSEC_def)

end
