(* ===== verification/Zperf_Cstring.thy ===== *)
theory Zperf_Cstring
  imports Zperf_Prelude
begin

text \<open>
  The string functions of the C library the program uses, on strings without their terminating
  null character: \<open>strtoul\<close> and \<open>strtol\<close> (32-bit \<open>long\<close>), with the rest of the input in place of
  the end pointer, and the printing of an unsigned number.
\<close>

section \<open>Digits\<close>

definition isspace :: "char \<Rightarrow> bool" where
  "isspace c \<longleftrightarrow> c \<in> {CHR '' '', CHR 0x09, CHR 0x0A, CHR 0x0B, CHR 0x0C, CHR 0x0D}"

definition digit_value :: "char \<Rightarrow> nat" where
  "digit_value c = (let n = of_char c :: nat in
     if 48 \<le> n \<and> n \<le> 57 then n - 48
     else if 97 \<le> n \<and> n \<le> 122 then n - 87
     else if 65 \<le> n \<and> n \<le> 90 then n - 55
     else 36)"

definition is_digit :: "nat \<Rightarrow> char \<Rightarrow> bool" where
  "is_digit base c \<longleftrightarrow> digit_value c < base"

fun digits_value :: "nat \<Rightarrow> nat \<Rightarrow> string \<Rightarrow> nat" where
  "digits_value base acc [] = acc"
| "digits_value base acc (c # cs) = digits_value base (acc * base + digit_value c) cs"

section \<open>strtoul and strtol\<close>

text \<open>
  \<open>scan_number\<close> is what both share: skip white space, take an optional sign, skip a \<open>0x\<close> prefix in
  base 16, read the longest run of digits. The result is \<open>None\<close> when there are no digits.
\<close>

definition scan_sign :: "string \<Rightarrow> bool \<times> string" where
  "scan_sign s = (case s of [] \<Rightarrow> (False, [])
     | c # cs \<Rightarrow> if c = CHR ''-'' then (True, cs) else if c = CHR ''+'' then (False, cs) else (False, s))"

definition scan_prefix :: "nat \<Rightarrow> string \<Rightarrow> string" where
  "scan_prefix base s = (case s of
       z # x # d # ds \<Rightarrow>
         if base = 16 \<and> z = CHR ''0'' \<and> (x = CHR ''x'' \<or> x = CHR ''X'') \<and> is_digit 16 d
         then d # ds else s
     | _ \<Rightarrow> s)"

definition scan_number :: "nat \<Rightarrow> string \<Rightarrow> (bool \<times> nat \<times> string) option" where
  "scan_number base s =
     (let (neg, s1) = scan_sign (dropWhile isspace s);
          s2 = scan_prefix base s1
      in if takeWhile (is_digit base) s2 = [] then None
         else Some (neg, digits_value base 0 (takeWhile (is_digit base) s2),
                    dropWhile (is_digit base) s2))"

definition strtoul :: "nat \<Rightarrow> string \<Rightarrow> u32 \<times> string" where
  "strtoul base s = (case scan_number base s of None \<Rightarrow> (0, s)
     | Some (neg, n, rest) \<Rightarrow>
         (if 2 ^ 32 \<le> n then 0xFFFFFFFF else if neg then - of_nat n else of_nat n, rest))"

text \<open>\<open>strtol\<close>: the value, the rest of the input, and whether \<open>errno\<close> was set to \<open>ERANGE\<close>.\<close>

definition strtol :: "nat \<Rightarrow> string \<Rightarrow> int \<times> string \<times> bool" where
  "strtol base s = (case scan_number base s of None \<Rightarrow> (0, s, False)
     | Some (neg, n, rest) \<Rightarrow>
         let v = (if neg then - int n else int n)
         in if v < - (2 ^ 31) then (- (2 ^ 31), rest, True)
            else if 2 ^ 31 \<le> v then (2 ^ 31 - 1, rest, True)
            else (v, rest, False))"

section \<open>Decimal output\<close>

fun show_nat :: "nat \<Rightarrow> string" where
  "show_nat n = (if n < 10 then [char_of (48 + n)] else show_nat (n div 10) @ [char_of (48 + n mod 10)])"

declare show_nat.simps [simp del]

section \<open>Printing and reading back\<close>

lemma digit_value_char: "(d :: nat) < 10 \<Longrightarrow> digit_value (char_of (48 + d)) = d"
  by (simp add: digit_value_def Let_def of_char_of take_bit_eq_mod mod_less)

lemma is_digit_char [simp]: "(d :: nat) < 10 \<Longrightarrow> is_digit 10 (char_of (48 + d))"
  by (simp add: is_digit_def digit_value_char)

lemma digits_value_append:
  "digits_value b acc (xs @ [c]) = digits_value b acc xs * b + digit_value c"
  by (induction xs arbitrary: acc) auto

lemma show_nat_digits: "\<forall>c \<in> set (show_nat n). is_digit 10 c"
proof (induction n rule: show_nat.induct)
  case (1 n)
  then show ?case
    by (cases "n < 10") (simp_all add: show_nat.simps [of n])
qed

lemma digits_value_show_nat: "digits_value 10 0 (show_nat n) = n"
proof (induction n rule: show_nat.induct)
  case (1 n)
  then show ?case
    by (cases "n < 10") (simp_all add: show_nat.simps [of n] digit_value_char digits_value_append)
qed

lemma show_nat_not_Nil [simp]: "show_nat n \<noteq> []"
  by (simp add: show_nat.simps)

lemma digit10_char:
  assumes "is_digit 10 c"
  shows "\<not> isspace c" and "c \<noteq> CHR ''-''" and "c \<noteq> CHR ''+''"
  using assms by (auto simp: is_digit_def digit_value_def isspace_def Let_def)

lemma takeWhile_digits: "\<forall>c \<in> set s. P c \<Longrightarrow> takeWhile P (s @ r) = s @ takeWhile P r"
  by (induction s) auto

lemma dropWhile_digits: "\<forall>c \<in> set s. P c \<Longrightarrow> dropWhile P (s @ r) = dropWhile P r"
  by (induction s) auto

text \<open>A printed number followed by a character that is no digit is read back exactly.\<close>

lemma scan_number_show_nat:
  assumes "r = [] \<or> \<not> is_digit 10 (hd r)"
  shows "scan_number 10 (show_nat n @ r) = Some (False, n, r)"
proof -
  obtain c cs where s: "show_nat n = c # cs" by (cases "show_nat n") auto
  then have c: "is_digit 10 c" using show_nat_digits [of n] by simp
  have sign: "scan_sign (dropWhile isspace (show_nat n @ r)) = (False, show_nat n @ r)"
    using digit10_char [OF c] by (simp add: s scan_sign_def)
  have pre: "scan_prefix 10 s = s" for s
    by (simp add: scan_prefix_def split: list.splits)
  have "takeWhile (is_digit 10) r = []" and "dropWhile (is_digit 10) r = r"
    using assms by (cases r; simp)+
  then show ?thesis
    using show_nat_digits [of n]
    by (simp add: scan_number_def sign pre takeWhile_digits dropWhile_digits digits_value_show_nat)
qed

lemma strtoul_show_nat:
  "n < 2 ^ 32 \<Longrightarrow> r = [] \<or> \<not> is_digit 10 (hd r) \<Longrightarrow> strtoul 10 (show_nat n @ r) = (of_nat n, r)"
  by (simp add: strtoul_def scan_number_show_nat)

end
