(* ===== verification/Zperf_Common.thy ===== *)
theory Zperf_Common
  imports Zperf_Session Zephyr_Kernel Zperf_Cstring
begin

text \<open>
  \<^verbatim>\<open>zperf_common.c\<close>: the local addresses the receivers bind to, the preparation of an upload socket
  and the duration of a packet at a given rate. The static variables of \<^verbatim>\<open>zperf_common.c\<close> and
  \<^verbatim>\<open>zperf_session.c\<close> that several components share extend the state of a run.
\<close>

section \<open>Shared variables\<close>

record 'w shared = "'w io_state" +
  my4_port :: u16
  my4_addr :: in_addr
  my6_port :: u16
  my6_addr :: in6_addr
  sessions :: sessions

section \<open>Local addresses\<close>

text \<open>
  \<open>zperf_get_ipv6_addr\<close> and \<open>zperf_get_ipv4_addr\<close> parse a host string into \<open>*addr\<close> and register it
  with the interface. They return \<open>0\<close> or \<open>-EINVAL\<close>, the new contents of \<open>*addr\<close> and the state.
\<close>

definition zperf_get_ipv6_addr ::
  "'w platform \<Rightarrow> string option \<Rightarrow> string \<Rightarrow> in6_addr \<Rightarrow> ('w, 'z) io_state_scheme \<Rightarrow>
   int \<times> in6_addr \<times> ('w, 'z) io_state_scheme" where
  "zperf_get_ipv6_addr P host prefix_str addr st =
     (case host of None \<Rightarrow> (- EINVAL, addr, st)
      | Some h \<Rightarrow>
          let (ret, addr') = net_addr_pton6 P h addr in
          if ret < 0 then (- EINVAL, addr', st)
          else let prefix_len = fst (strtoul 10 prefix_str);
                   (ifaddr, st') = net_if_ipv6_addr_add P addr' st in
               if \<not> ifaddr then (- EINVAL, addr', st')
               else if \<not> net_if_ipv6_prefix_add addr' (ucast prefix_len) then (- EINVAL, addr', st')
               else (0, addr', st'))"

definition zperf_get_ipv4_addr ::
  "'w platform \<Rightarrow> string option \<Rightarrow> in_addr \<Rightarrow> ('w, 'z) io_state_scheme \<Rightarrow>
   int \<times> in_addr \<times> ('w, 'z) io_state_scheme" where
  "zperf_get_ipv4_addr P host addr st =
     (case host of None \<Rightarrow> (- EINVAL, addr, st)
      | Some h \<Rightarrow>
          let (ret, addr') = net_addr_pton4 P h addr in
          if ret < 0 then (- EINVAL, addr', st)
          else let (ifaddr, st') = net_if_ipv4_addr_add P addr' st in
               if \<not> ifaddr then (- EINVAL, addr', st') else (0, addr', st'))"

text \<open>
  The choice of the address to bind to, which both receivers make: the address given with the
  download command unless it is unspecified, else the configured address, else any address.
  \<open>strlen(MY_IP4ADDR ? MY_IP4ADDR : "")\<close> is the length of the configured string.
\<close>

definition select_ipv4 ::
  "'w platform \<Rightarrow> sockaddr \<Rightarrow> ('w, 'z) shared_scheme \<Rightarrow> ('w, 'z) shared_scheme" where
  "select_ipv4 P server_addr st =
     (let in4 = net_sin_addr P server_addr in
      if \<not> net_ipv4_is_addr_unspecified in4 then st\<lparr>my4_addr := in4\<rparr>
      else if length MY_IP4ADDR \<noteq> 0 then
        let (ret, addr, st') = zperf_get_ipv4_addr P (Some MY_IP4ADDR) (my4_addr st) st in
        if ret < 0 then st'\<lparr>my4_addr := INADDR_ANY\<rparr> else st'\<lparr>my4_addr := addr\<rparr>
      else st\<lparr>my4_addr := INADDR_ANY\<rparr>)"

definition select_ipv6 ::
  "'w platform \<Rightarrow> sockaddr \<Rightarrow> ('w, 'z) shared_scheme \<Rightarrow> ('w, 'z) shared_scheme" where
  "select_ipv6 P server_addr st =
     (let in6 = net_sin6_addr P server_addr in
      if \<not> net_ipv6_is_addr_unspecified in6 then st\<lparr>my6_addr := in6\<rparr>
      else if length MY_IP6ADDR \<noteq> 0 then
        let (ret, addr, st') = zperf_get_ipv6_addr P (Some MY_IP6ADDR) ''64'' (my6_addr st) st in
        if ret < 0 then st'\<lparr>my6_addr := net_ipv6_unspecified_address\<rparr>
        else st'\<lparr>my6_addr := addr\<rparr>
      else st\<lparr>my6_addr := net_ipv6_unspecified_address\<rparr>)"

section \<open>The upload socket\<close>

definition NET_MAX_PRIORITIES :: u8 where
  "NET_MAX_PRIORITIES = 8"

text \<open>
  The three parts of \<open>zperf_prepare_upload_sock\<close>: the family switch, which creates the socket and
  may set \<open>IP_TOS\<close> (\<open>Inl\<close> is an early return of an error code), the priority option, and the
  connection.
\<close>

definition upload_sock_create ::
  "'w platform \<Rightarrow> sockaddr \<Rightarrow> int \<Rightarrow> ip_protocol \<Rightarrow> ('w, 'z) io_state_scheme \<Rightarrow>
   (int + int) \<times> ('w, 'z) io_state_scheme" where
  "upload_sock_create P peer tos proto st =
     (let type = (if proto = IPPROTO_UDP then SOCK_DGRAM else SOCK_STREAM) in
      case peer of
        Sockaddr_in p a \<Rightarrow>
          if \<not> CONFIG_NET_IPV4 then (Inl (- EINVAL), st)
          else let (sock, st1) = zsock_socket P AF_INET type proto st in
               if sock < 0 then (Inl (- errno_now P st1), st1)
               else if tos > 0 then (Inr sock, snd (zsock_setsockopt P sock (IP_TOS tos) st1))
               else (Inr sock, st1)
      | Sockaddr_in6 p a \<Rightarrow>
          if \<not> CONFIG_NET_IPV6 then (Inl (- EINVAL), st)
          else let (sock, st1) = zsock_socket P AF_INET6 type proto st in
               if sock < 0 then (Inl (- errno_now P st1), st1) else (Inr sock, st1)
      | Sockaddr_other f \<Rightarrow> (Inl (- EINVAL), st))"

definition upload_sock_priority ::
  "'w platform \<Rightarrow> int \<Rightarrow> int \<Rightarrow> ('w, 'z) io_state_scheme \<Rightarrow>
   (int + unit) \<times> ('w, 'z) io_state_scheme" where
  "upload_sock_priority P sock priority st =
     (if CONFIG_NET_CONTEXT_PRIORITY \<and> priority \<ge> 0 then
        let prio = word_of_int priority :: u8 in
        if \<not> CONFIG_NET_ALLOW_ANY_PRIORITY \<and> NET_MAX_PRIORITIES \<le> prio then (Inl (- EINVAL), st)
        else let (r, st1) = zsock_setsockopt P sock (SO_PRIORITY prio) st in
             if r \<noteq> 0 then (Inl (- EINVAL), st1) else (Inr (), st1)
      else (Inr (), st))"

definition zperf_prepare_upload_sock ::
  "'w platform \<Rightarrow> sockaddr \<Rightarrow> int \<Rightarrow> int \<Rightarrow> ip_protocol \<Rightarrow> ('w, 'z) io_state_scheme \<Rightarrow>
   int \<times> ('w, 'z) io_state_scheme" where
  "zperf_prepare_upload_sock P peer tos priority proto st =
     (case upload_sock_create P peer tos proto st of
        (Inl e, st1) \<Rightarrow> (e, st1)
      | (Inr sock, st1) \<Rightarrow>
          (case upload_sock_priority P sock priority st1 of
             (Inl e, st2) \<Rightarrow> (e, st2)
           | (Inr _, st2) \<Rightarrow>
               let (ret, st3) = zsock_connect P sock peer st2 in
               if ret < 0 then (- errno_now P st3, zsock_close P sock st3) else (sock, st3)))"

section \<open>Packet duration\<close>

text \<open>
  \<open>rate_in_kbps * 1024U\<close> is a 32-bit product and the divisor of a 64-bit division.
\<close>

definition zperf_packet_duration :: "u32 \<Rightarrow> u32 \<Rightarrow> u32 faulty" where
  "zperf_packet_duration psize rate_in_kbps =
     (if rate_in_kbps * 1024 = 0 then Inl Division_by_zero
      else Inr (ucast ((ucast psize * 8 * ucast USEC_PER_SEC :: u64) div ucast (rate_in_kbps * 1024))))"

section \<open>Lemmas\<close>

lemma packet_duration_fault_iff:
  "zperf_packet_duration n r = Inl Division_by_zero \<longleftrightarrow> unat r mod 2 ^ 22 = 0"
proof -
  have "r * 1024 = 0 \<longleftrightarrow> unat r * 1024 mod 2 ^ 32 = 0"
    by (simp add: word_unat_eq_iff unat_word_ariths)
  also have "\<dots> \<longleftrightarrow> unat r mod 2 ^ 22 * 1024 = 0"
    using mult_mod_left [of "unat r" "2 ^ 22" 1024] by simp
  also have "\<dots> \<longleftrightarrow> unat r mod 2 ^ 22 = 0" by simp
  finally show ?thesis by (simp add: zperf_packet_duration_def)
qed

lemma packet_duration_value:
  assumes "0 < unat r" and "unat r < 2 ^ 22"
  shows "\<exists>d. zperf_packet_duration n r = Inr d \<and>
    unat d = (unat n * 8000000 div (unat r * 1024)) mod 2 ^ 32"
proof -
  have r: "unat (r * 1024) = unat r * 1024"
    using assms by (simp add: unat_word_ariths)
  then have nz: "r * 1024 \<noteq> 0" using assms by (metis mult_is_0 unat_0 zero_neq_numeral nat_neq_iff)
  have n8: "unat (ucast n * 8 :: u64) = unat n * 8"
    using unat_lt_u32 [of n] by (subst unat_mult_u64) simp_all
  have "unat (ucast n * 8 * 1000000 :: u64) = unat (ucast n * 8 :: u64) * 1000000"
    using unat_lt_u32 [of n] by (subst unat_mult_u64) (simp_all add: n8)
  then have "unat (ucast n * 8 * 1000000 :: u64) = unat n * 8000000"
    by (simp add: n8)
  then show ?thesis
    using nz by (simp add: zperf_packet_duration_def unat_ucast_u64_u32 unat_div r)
qed

text \<open>
  The documented behaviour of lwIP's error reporting that callers rely on: a call that fails leaves
  a positive error number.
\<close>

definition errno_positive :: "'w platform \<Rightarrow> bool" where
  "errno_positive P \<longleftrightarrow>
     (\<forall>f t p w. fst (lwip_socket P f t p w) < 0 \<longrightarrow> 0 < errno_of P (snd (lwip_socket P f t p w))) \<and>
     (\<forall>s a w. fst (lwip_connect P s a w) < 0 \<longrightarrow> 0 < errno_of P (snd (lwip_connect P s a w))) \<and>
     (\<forall>s d w. fst (lwip_send P s d w) < 0 \<longrightarrow> 0 < errno_of P (snd (lwip_send P s d w)))"

lemma errno_positiveD:
  assumes "errno_positive P"
  shows "lwip_socket P f t p w = (r, w') \<Longrightarrow> r < 0 \<Longrightarrow> 0 < errno_of P w'"
    and "lwip_connect P s a w = (r, w') \<Longrightarrow> r < 0 \<Longrightarrow> 0 < errno_of P w'"
    and "lwip_send P s d w = (r, w') \<Longrightarrow> r < 0 \<Longrightarrow> 0 < errno_of P w'"
  using assms unfolding errno_positive_def by (metis fst_conv snd_conv)+

lemma upload_sock_create_cases:
  assumes "errno_positive P" and "upload_sock_create P peer tos proto st = (r, st')"
  shows "case r of Inl e \<Rightarrow> e < 0 \<and> balance (trace st') fd = balance (trace st) fd
    | Inr s \<Rightarrow> 0 \<le> s \<and> balance (trace st') fd = balance (trace st) fd + (if fd = s then 1 else 0)"
  using assms
  by (cases peer)
    (auto simp: upload_sock_create_def io_defs config_defs errno_now_def EINVAL_def Let_def
        dest: errno_positiveD split: prod.splits if_splits)

lemma upload_sock_priority_eq [simp]: "upload_sock_priority P sock prio st = (Inr (), st)"
  by (simp add: upload_sock_priority_def config_defs)

lemma prepare_upload_sock_balance:
  assumes ok: "errno_positive P"
    and call: "zperf_prepare_upload_sock P peer tos prio proto st = (r, st')"
  shows "balance (trace st') fd = balance (trace st) fd + (if 0 \<le> r \<and> fd = r then 1 else 0)"
proof (cases "upload_sock_create P peer tos proto st")
  case (Pair x st1)
  note created = upload_sock_create_cases [OF ok Pair, of fd]
  show ?thesis
  proof (cases x)
    case (Inl e)
    with Pair call created show ?thesis by (auto simp: zperf_prepare_upload_sock_def)
  next
    case (Inr s)
    obtain c w where conn: "lwip_connect P s peer (world st1) = (c, w)" by fastforce
    with ok have "c < 0 \<Longrightarrow> 0 < errno_of P w"
      by (rule errno_positiveD)
    with Pair Inr conn call created show ?thesis
      by (auto simp: zperf_prepare_upload_sock_def io_defs errno_now_def Let_def split: if_splits)
  qed
qed

text \<open>The choice of the local address only sets that address and may register it with lwIP.\<close>

lemma select_ipv4_effect:
  obtains a w where "select_ipv4 P sa st = st\<lparr>world := w, my4_addr := a\<rparr>"
proof -
  have id: "st\<lparr>my4_addr := a\<rparr> = st\<lparr>world := world st, my4_addr := a\<rparr>" for a by simp
  have "\<exists>a w. select_ipv4 P sa st = st\<lparr>world := w, my4_addr := a\<rparr>"
    unfolding select_ipv4_def zperf_get_ipv4_addr_def net_if_ipv4_addr_add_def Let_def
    by (auto split: prod.split intro: id)
  with that show thesis by blast
qed

lemma select_ipv6_effect:
  obtains a w where "select_ipv6 P sa st = st\<lparr>world := w, my6_addr := a\<rparr>"
proof -
  have id: "st\<lparr>my6_addr := a\<rparr> = st\<lparr>world := world st, my6_addr := a\<rparr>" for a by simp
  have "\<exists>a w. select_ipv6 P sa st = st\<lparr>world := w, my6_addr := a\<rparr>"
    unfolding select_ipv6_def zperf_get_ipv6_addr_def net_if_ipv6_addr_add_def
      net_if_ipv6_prefix_add_def Let_def
    by (auto split: prod.split intro: id)
  with that show thesis by blast
qed

end
