(* ===== verification/Zephyr_Thread.thy ===== *)
theory Zephyr_Thread
  imports Zperf_Prelude
begin

text \<open>
  The semaphores and threads of \<^verbatim>\<open>zephyr/thread.c\<close> and \<^verbatim>\<open>zephyr/thread.h\<close>, a thin layer over FreeRTOS. The
  FreeRTOS functions are the parameter \<open>rtos\<close>; \<open>sem_laws\<close> is what their documentation promises of
  a counting semaphore. A semaphore defined by \<open>K_SEM_DEFINE\<close> has no handle until \<open>k_sem_init\<close> has
  run, and FreeRTOS does not accept a null handle. The creation of a thread is the parameter
  \<open>rtos_tasks\<close>; the code asserts that it succeeds.
\<close>

record 's rtos =
  xSemaphoreCreateCounting :: "nat \<Rightarrow> nat \<Rightarrow> 's option"
  xSemaphoreTake :: "'s \<Rightarrow> 's option"
  xSemaphoreGive :: "'s \<Rightarrow> 's"

record 's k_sem =
  semaphore_handle :: "'s option"
  initial_count :: nat
  max_count :: nat

definition K_SEM_DEFINE :: "nat \<Rightarrow> nat \<Rightarrow> 's k_sem" where
  "K_SEM_DEFINE i m = \<lparr>semaphore_handle = None, initial_count = i, max_count = m\<rparr>"

definition k_sem_init :: "'s rtos \<Rightarrow> 's k_sem \<Rightarrow> nat \<Rightarrow> nat \<Rightarrow> 's k_sem faulty" where
  "k_sem_init R sem i m =
     (case xSemaphoreCreateCounting R m i of None \<Rightarrow> Inl Assertion_failed
      | Some h \<Rightarrow> Inr (sem\<lparr>semaphore_handle := Some h\<rparr>))"

text \<open>
  With \<open>K_FOREVER\<close> the caller waits until a unit is available: \<open>Inr None\<close> means it is still waiting.
\<close>

definition k_sem_take :: "'s rtos \<Rightarrow> 's k_sem \<Rightarrow> 's k_sem option faulty" where
  "k_sem_take R sem =
     (case semaphore_handle sem of None \<Rightarrow> Inl Null_pointer
      | Some h \<Rightarrow> Inr (map_option (\<lambda>h'. sem\<lparr>semaphore_handle := Some h'\<rparr>) (xSemaphoreTake R h)))"

definition k_sem_give :: "'s rtos \<Rightarrow> 's k_sem \<Rightarrow> 's k_sem faulty" where
  "k_sem_give R sem =
     (case semaphore_handle sem of None \<Rightarrow> Inl Null_pointer
      | Some h \<Rightarrow> Inr (sem\<lparr>semaphore_handle := Some (xSemaphoreGive R h)\<rparr>))"

section \<open>Threads\<close>

text \<open>
  FreeRTOS tasks: \<open>'f\<close> are the functions a task can run, \<open>'h\<close> the handles and \<open>'k\<close> the state of the
  scheduler. Stack sizes and priorities are left out.
\<close>

record ('f, 'h, 'k) rtos_tasks =
  xTaskCreate :: "'f \<Rightarrow> string option \<Rightarrow> 'k \<Rightarrow> 'h option \<times> 'k"

record 'h k_thread =
  th_name :: "string option"
  task_hanble :: "'h option"

definition k_thread_create ::
  "('f, 'h, 'k) rtos_tasks \<Rightarrow> 'h k_thread \<Rightarrow> 'f \<Rightarrow> 'k \<Rightarrow> ('h k_thread \<times> 'k) faulty" where
  "k_thread_create K thread_struct thread_function k =
     (case xTaskCreate K thread_function (th_name thread_struct) k of
        (None, k') \<Rightarrow> Inl Assertion_failed
      | (Some h, k') \<Rightarrow> Inr (thread_struct\<lparr>task_hanble := Some h\<rparr>, k'))"

definition k_thread_name_set :: "'h k_thread \<Rightarrow> string \<Rightarrow> 'h k_thread" where
  "k_thread_name_set thread_struct thread_name = thread_struct\<lparr>th_name := Some thread_name\<rparr>"

section \<open>Counting semaphores\<close>

definition sem_laws :: "'s rtos \<Rightarrow> ('s \<Rightarrow> nat) \<Rightarrow> ('s \<Rightarrow> nat) \<Rightarrow> bool" where
  "sem_laws R cnt cap \<longleftrightarrow>
     (\<forall>m i h. xSemaphoreCreateCounting R m i = Some h \<longrightarrow> cnt h = i \<and> cap h = m) \<and>
     (\<forall>h. xSemaphoreTake R h = None \<longleftrightarrow> cnt h = 0) \<and>
     (\<forall>h h'. xSemaphoreTake R h = Some h' \<longrightarrow> Suc (cnt h') = cnt h \<and> cap h' = cap h) \<and>
     (\<forall>h. cnt (xSemaphoreGive R h) = min (cap h) (Suc (cnt h)) \<and> cap (xSemaphoreGive R h) = cap h)"

text \<open>The count of a semaphore that may not have been created yet.\<close>

definition sem_count :: "('s \<Rightarrow> nat) \<Rightarrow> 's k_sem \<Rightarrow> nat" where
  "sem_count cnt sem = (case semaphore_handle sem of None \<Rightarrow> 0 | Some h \<Rightarrow> cnt h)"

definition sem_is_binary :: "('s \<Rightarrow> nat) \<Rightarrow> 's k_sem \<Rightarrow> bool" where
  "sem_is_binary cap sem \<longleftrightarrow> (case semaphore_handle sem of None \<Rightarrow> False | Some h \<Rightarrow> cap h = 1)"

lemma Suc_eq_of_bool [simp]: "Suc n = of_bool b \<longleftrightarrow> b \<and> n = 0"
  by (cases b) simp_all

lemma k_sem_init_count:
  "sem_laws R cnt cap \<Longrightarrow> k_sem_init R sem 0 1 = Inr sem' \<Longrightarrow>
   sem_count cnt sem' = 0 \<and> sem_is_binary cap sem'"
  by (auto simp: k_sem_init_def sem_laws_def sem_count_def sem_is_binary_def split: option.splits)

lemma k_sem_give_count:
  "sem_laws R cnt cap \<Longrightarrow> sem_is_binary cap sem \<Longrightarrow> k_sem_give R sem = Inr sem' \<Longrightarrow>
   sem_count cnt sem' = 1 \<and> sem_is_binary cap sem'"
  by (auto simp: k_sem_give_def sem_laws_def sem_count_def sem_is_binary_def split: option.splits)

lemma k_sem_take_count:
  "sem_laws R cnt cap \<Longrightarrow> sem_is_binary cap sem \<Longrightarrow> k_sem_take R sem = Inr (Some sem') \<Longrightarrow>
   Suc (sem_count cnt sem') = sem_count cnt sem \<and> sem_is_binary cap sem'"
  by (auto simp: k_sem_take_def sem_laws_def sem_count_def sem_is_binary_def split: option.splits)

lemma k_sem_take_blocked_iff:
  "sem_laws R cnt cap \<Longrightarrow> sem_is_binary cap sem \<Longrightarrow>
   k_sem_take R sem = Inr None \<longleftrightarrow> sem_count cnt sem = 0"
  by (auto simp: k_sem_take_def sem_laws_def sem_count_def sem_is_binary_def split: option.splits)

end
