(* ===== verification/Zperf_Server_Control.thy ===== *)
theory Zperf_Server_Control
  imports Zperf_Platform Zephyr_Thread
begin

text \<open>
  What the UDP and the TCP server have in common: how their session function ends, where their
  thread waits, the entries of the poll array, and the contract of the two control functions
  \<open>zperf_*_download\<close> and \<open>zperf_*_download_stop\<close> that other tasks call.

  The contract is the locale \<open>server_control\<close>. Its clients are the lifecycle invariants of the two
  threads: while the thread waits for the semaphore, the semaphore has a unit exactly when the
  server is marked running; while it serves, it has none, so a session is never started twice.
\<close>

section \<open>Thread and poll array\<close>

text \<open>How a turn of the loop, or the set-up, ends.\<close>

datatype server_ctl = Server_continue | Server_error | Server_cleanup

text \<open>
  Where a server thread is: before \<open>k_sem_init\<close>, at \<open>k_sem_take\<close>, in the poll loop with the local
  variables of the session function, and back from that function, before \<open>running\<close> is cleared.
\<close>

datatype 'v server_pc = Server_created | Server_waiting | Server_polling 'v | Server_returned

text \<open>How many entries of the poll array hold the descriptor.\<close>

definition fds_open :: "pollfd list \<Rightarrow> int \<Rightarrow> int" where
  "fds_open fds fd = (\<Sum>x \<leftarrow> map pfd_fd fds. if x = fd \<and> 0 \<le> x then 1 else 0)"

fun close_fds :: "'w platform \<Rightarrow> pollfd list \<Rightarrow> ('w, 'z) io_state_scheme \<Rightarrow> ('w, 'z) io_state_scheme" where
  "close_fds P [] st = st"
| "close_fds P (p # ps) st =
     close_fds P ps (if pfd_fd p \<ge> 0 then zsock_close P (pfd_fd p) st else st)"

section \<open>The contract of the control functions\<close>

locale server_control =
  fixes download :: "zperf_download_params option \<Rightarrow> zperf_callback option \<Rightarrow> user_data \<Rightarrow> 'st \<Rightarrow>
      (int \<times> 'st) faulty"
    and stop :: "'st \<Rightarrow> int \<times> 'st"
    and running :: "'st \<Rightarrow> bool"
    and stopping :: "'st \<Rightarrow> bool"
    and callback :: "'st \<Rightarrow> zperf_callback option"
    and units :: "'st \<Rightarrow> nat"
    and ready :: "'st \<Rightarrow> bool"
  assumes download_null: "prm = None \<or> cb = None \<Longrightarrow> download prm cb ud st = Inr (- EINVAL, st)"
    and download_busy: "running st \<Longrightarrow> download (Some p) (Some f) ud st = Inr (- EALREADY, st)"
    and download_ok: "\<not> running st \<Longrightarrow> ready st \<Longrightarrow>
      \<exists>st'. download (Some p) (Some f) ud st = Inr (0, st') \<and> running st' \<and> \<not> stopping st' \<and>
        callback st' = Some f \<and> units st' = 1 \<and> ready st'"
    and stop_idle: "\<not> running st \<Longrightarrow> stop st = (- EALREADY, st)"
    and stop_ok: "running st \<Longrightarrow>
      \<exists>st'. stop st = (0, st') \<and> running st' \<and> stopping st' \<and> callback st' = None \<and>
        units st' = units st \<and> ready st' = ready st"
begin

text \<open>Once the semaphore exists the call always returns.\<close>

lemma download_returns:
  assumes "ready st"
  shows "\<exists>r st'. download prm cb ud st = Inr (r, st')"
  using assms download_null [of prm cb ud st] download_busy [of st] download_ok [of st]
  by (cases prm; cases cb; cases "running st") (auto, blast)

text \<open>The effect of a call: refused and nothing changed, or accepted by an idle server.\<close>

lemma download_cases:
  assumes "ready st" and "download prm cb ud st = Inr (r, st')"
  obtains (refused) "r = - EINVAL \<or> r = - EALREADY" "st' = st"
    | (accepted) p f where "prm = Some p" "cb = Some f" "r = 0" "\<not> running st" "running st'"
        "\<not> stopping st'" "callback st' = Some f" "units st' = 1" "ready st'"
proof (cases "prm = None \<or> cb = None")
  case True
  with assms download_null [of prm cb ud st] show thesis by (intro refused) simp_all
next
  case False
  then obtain p f where pf: "prm = Some p" "cb = Some f" by auto
  show thesis
  proof (cases "running st")
    case True
    with assms pf download_busy [of st p f ud] show thesis by (intro refused) simp_all
  next
    case idle: False
    with assms pf download_ok [of st p f ud] show thesis by (intro accepted [of p f]) auto
  qed
qed

text \<open>The semaphore has a unit exactly when the waiting server has been asked to run.\<close>

lemma waiting_download:
  assumes "ready st" and "units st = of_bool (running st)" and "download prm cb ud st = Inr (r, st')"
  shows "ready st' \<and> units st' = of_bool (running st')"
  using assms(1,3) by (cases rule: download_cases) (use assms in simp_all)

lemma waiting_stop:
  assumes "ready st" and "units st = of_bool (running st)" and "stop st = (r, st')"
  shows "ready st' \<and> units st' = of_bool (running st')"
  using assms stop_idle [of st] stop_ok [of st] by (cases "running st") auto

text \<open>While the server runs, no call puts a unit into the semaphore or clears \<open>running\<close>.\<close>

lemma serving_download:
  assumes "ready st" and "running st" and "download prm cb ud st = Inr (r, st')"
  shows "st' = st"
  using assms(1,3) by (cases rule: download_cases) (use assms in simp_all)

lemma serving_stop:
  assumes "running st" and "stop st = (r, st')"
  shows "r = 0 \<and> running st' \<and> stopping st' \<and> callback st' = None \<and> units st' = units st \<and>
    ready st' = ready st"
  using assms stop_ok [of st] by auto

text \<open>A server that was started and stopped refuses the next download until its thread is back.\<close>

lemma download_after_stop:
  assumes "ready st" and "\<not> running st"
  obtains st1 st2 where "download (Some p) (Some f) ud st = Inr (0, st1)" "stop st1 = (0, st2)"
    "stopping st2" "callback st2 = None" "download (Some q) (Some g) ud' st2 = Inr (- EALREADY, st2)"
proof -
  from download_ok [OF assms(2,1), of p f ud]
  obtain st1 where "download (Some p) (Some f) ud st = Inr (0, st1)" and run: "running st1" by blast
  moreover from stop_ok [OF run] obtain st2 where "stop st1 = (0, st2)" and "running st2"
    and "stopping st2" and "callback st2 = None" by blast
  ultimately show thesis using download_busy [of st2] by (intro that) simp_all
qed

end

section \<open>Closing the sockets\<close>

lemma fds_open_simps [simp]:
  "fds_open [] fd = 0"
  "fds_open (p # ps) fd = (if pfd_fd p = fd \<and> 0 \<le> pfd_fd p then 1 else 0) + fds_open ps fd"
  by (simp_all add: fds_open_def)

lemma fds_open_cong: "map pfd_fd fds' = map pfd_fd fds \<Longrightarrow> fds_open fds' = fds_open fds"
  by (simp add: fds_open_def fun_eq_iff)

lemma fds_open_update:
  assumes "i < length fds"
  shows "fds_open (fds[i := p]) fd = fds_open fds fd - fds_open [fds ! i] fd + fds_open [p] fd"
  using assms
proof (induction fds arbitrary: i)
  case Nil
  then show ?case by simp
next
  case (Cons q fds)
  then show ?case by (cases i) auto
qed

lemma close_fds_effect:
  "\<exists>w evs. close_fds P fds st = st\<lparr>world := w, trace := trace st @ evs\<rparr> \<and>
     (\<forall>fd. balance evs fd = - fds_open fds fd)"
proof (induction fds arbitrary: st)
  case Nil
  then show ?case by (intro exI [of _ "world st"] exI [of _ "[]"]) simp
next
  case (Cons p ps)
  show ?case
  proof (cases "0 \<le> pfd_fd p")
    case True
    obtain w evs where "close_fds P ps (zsock_close P (pfd_fd p) st) =
        st\<lparr>world := w, trace := trace st @ Ev_close (pfd_fd p) # evs\<rparr>"
      and "\<forall>fd. balance evs fd = - fds_open ps fd"
      using Cons.IH [of "zsock_close P (pfd_fd p) st"] by (auto simp: zsock_close_def)
    with True show ?thesis
      by (intro exI [of _ w] exI [of _ "Ev_close (pfd_fd p) # evs"]) simp
  next
    case False
    with Cons.IH [of st] show ?thesis by auto
  qed
qed

lemma close_fds_trace:
  "trace (close_fds P fds st) = trace st @ map Ev_close (filter (\<lambda>fd. 0 \<le> fd) (map pfd_fd fds))"
  by (induction fds arbitrary: st) (simp_all add: zsock_close_def)

lemma recvfrom_quiet:
  "zsock_recvfrom P s n st = (r, bs, a, st') \<Longrightarrow> quiet_ext st st'"
  by (auto simp: zsock_recvfrom_def split: prod.splits intro: quiet_intros)

lemma poll_quiet: "zsock_poll P fds t st = (r, fds', st') \<Longrightarrow> quiet_ext st st'"
  by (auto simp: zsock_poll_def split: prod.splits intro: quiet_intros)

lemma poll_fds: "zsock_poll P fds t st = (r, fds', st') \<Longrightarrow> map pfd_fd fds' = map pfd_fd fds"
  by (auto simp: zsock_poll_def enumerate_eq_zip comp_def split: prod.splits)
    (rule nth_equalityI, auto)

end
