(* ===== verification/Zperf_Demo_Platform.thy ===== *)
theory Zperf_Demo_Platform
  imports Zperf_Common Zperf_Server_Control
begin

text \<open>
  A concrete platform and a concrete FreeRTOS semaphore on which the witnesses evaluate. The world
  is a clock that advances by one tick at each reading and by at most 100 ticks in a delay, the next free descriptor, the datagrams that
  wait to be received and the error number of the last call. The hypotheses the properties make
  about a platform hold of it.
\<close>

record demo_world =
  demo_clock :: nat
  demo_next_fd :: nat
  demo_inbox :: "(u8 list \<times> sockaddr) list"
  demo_errno :: int

definition demo_start :: demo_world where
  "demo_start = \<lparr>demo_clock = 100, demo_next_fd = 3, demo_inbox = [], demo_errno = 11\<rparr>"

definition demo_platform :: "demo_world platform" where
  "demo_platform =
     \<lparr>configTICK_RATE_HZ = 1000,
      xTaskGetTickCount = (\<lambda>w. (of_nat (demo_clock w), w\<lparr>demo_clock := demo_clock w + 1\<rparr>)),
      vTaskDelay = (\<lambda>d w. w\<lparr>demo_clock := demo_clock w + min (unat d) 100\<rparr>),
      taskYIELD = (\<lambda>w. w),
      pdMS_TO_TICKS = (\<lambda>ms. ms),
      errno_of = demo_errno,
      lwip_socket = (\<lambda>f t p w. (int (demo_next_fd w), w\<lparr>demo_next_fd := demo_next_fd w + 1\<rparr>)),
      lwip_setsockopt = (\<lambda>s opt w. (0, w)),
      lwip_connect = (\<lambda>s a w. (0, w)),
      lwip_bind = (\<lambda>s a w. (0, w)),
      lwip_listen = (\<lambda>s n w. (0, w)),
      lwip_accept = (\<lambda>s w. (int (demo_next_fd w), Sockaddr_in 9 7, w\<lparr>demo_next_fd := demo_next_fd w + 1\<rparr>)),
      lwip_close = (\<lambda>s w. w),
      lwip_poll = (\<lambda>fds t w.
         (if demo_inbox w = [] then 0 else 1,
          \<lambda>i. no_revents\<lparr>pollin := i = 0 \<and> demo_inbox w \<noteq> []\<rparr>, w)),
      lwip_recv = (\<lambda>s n dw w.
         (case demo_inbox w of [] \<Rightarrow> (-1, [], w\<lparr>demo_errno := EAGAIN\<rparr>)
          | (d, a) # rest \<Rightarrow> (int (length (take n d)), take n d, w\<lparr>demo_inbox := rest\<rparr>))),
      lwip_recvfrom = (\<lambda>s n w.
         (case demo_inbox w of [] \<Rightarrow> (-1, [], Sockaddr_other 0, w)
          | (d, a) # rest \<Rightarrow> (int (length (take n d)), take n d, a, w\<lparr>demo_inbox := rest\<rparr>))),
      lwip_send = (\<lambda>s d w. (int (length d), w)),
      lwip_sendto = (\<lambda>s d a w. (int (length d), w)),
      inet_pton4 = (\<lambda>s a. (1, 0x0200A8C0)),
      inet_pton6 = (\<lambda>s a. (1, IPV6_ANY_ADDR)),
      ip4addr_ntoa = (\<lambda>a. ''192.168.0.2''),
      ip6addr_ntoa = (\<lambda>a. ''::''),
      netif_add_ip6_address = (\<lambda>a w. (True, w)),
      netif_set_addr = (\<lambda>a w. w),
      sin_addr_of_in6 = (\<lambda>p a. 0),
      sin6_addr_of_in = (\<lambda>p a. IPV6_ANY_ADDR),
      memcpy_sockaddr = (\<lambda>old new. new)\<rparr>"

lemma demo_errno_positive: "errno_positive demo_platform"
  by (auto simp: errno_positive_def demo_platform_def)

definition demo_rtos :: "(nat \<times> nat) rtos" where
  "demo_rtos =
     \<lparr>xSemaphoreCreateCounting = (\<lambda>m i. Some (i, m)),
      xSemaphoreTake = (\<lambda>(n, m). case n of 0 \<Rightarrow> None | Suc k \<Rightarrow> Some (k, m)),
      xSemaphoreGive = (\<lambda>(n, m). (min m (Suc n), m))\<rparr>"

lemma demo_sem_laws: "sem_laws demo_rtos fst snd"
  by (auto simp: sem_laws_def demo_rtos_def split: nat.splits)

end
