(* ===== verification/Zperf_Udp_Receiver.thy ===== *)
theory Zperf_Udp_Receiver
  imports Zperf_Wire Zperf_Demo_Platform
begin

text \<open>
  The UDP server of \<^verbatim>\<open>zperf_udp_receiver.c\<close>: the per-packet handler with its session state machine
  and statistics, the set-up of the sockets, one turn of the poll loop, the control functions
  \<open>zperf_udp_download\<close> and \<open>zperf_udp_download_stop\<close>, and the server thread.

  The thread and the control functions run in different tasks. Their interleaving is the step
  relation \<open>udp_step\<close>: a step is a call of a control function, or the thread moving from one of its
  waiting points (the semaphore, the poll, its return) to the next.
\<close>

section \<open>State\<close>

record ('w, 's) udp_server = "'w shared" +
  udp_session_cb :: "zperf_callback option"
  udp_user_data :: user_data
  udp_server_running :: bool
  udp_server_stop :: bool
  udp_server_port :: u16
  udp_server_addr :: sockaddr
  udp_server_run :: "'s k_sem"
  udp_buf :: "u8 list"

section \<open>The report\<close>

definition BUF_SIZE :: nat where
  "BUF_SIZE = sizeof_udp_datagram + sizeof_server_hdr"

text \<open>\<open>reply\<close> is uninitialised; \<open>build_reply\<close> writes all of its bytes.\<close>

definition zperf_receiver_send_stat ::
  "'w platform \<Rightarrow> int \<Rightarrow> sockaddr \<Rightarrow> u8 list \<Rightarrow> zperf_server_hdr \<Rightarrow> ('w, 'z) io_state_scheme \<Rightarrow>
   int \<times> ('w, 'z) io_state_scheme" where
  "zperf_receiver_send_stat P sock addr hdr stat st =
     zsock_sendto P sock (build_reply hdr stat (replicate BUF_SIZE 0)) addr st"

section \<open>Statistics of a session\<close>

text \<open>Lines 163 to 173: the report, from the session and the duration in microseconds.\<close>

definition udp_fill_stat :: "session \<Rightarrow> u32 \<Rightarrow> zperf_server_hdr" where
  "udp_fill_stat s duration =
     \<lparr>sh_flags = 0x80000000,
      sh_total_len1 = ucast (drop_bit 32 (ses_length s)),
      sh_total_len2 = ucast (ses_length s mod 0xFFFFFFFF),
      sh_stop_sec = duration div USEC_PER_SEC,
      sh_stop_usec = duration mod USEC_PER_SEC,
      sh_error_cnt = ses_error s,
      sh_outorder_cnt = ses_outorder s,
      sh_datagrams = ses_counter s,
      sh_jitter1 = 0,
      sh_jitter2 = ses_jitter s\<rparr>"

text \<open>Lines 180 to 186: the results for the callback; \<open>packet_size\<close> divides by the counter.\<close>

definition udp_session_results :: "session \<Rightarrow> u32 \<Rightarrow> zperf_results faulty" where
  "udp_session_results s duration =
     (if ses_counter s = 0 then Inl Division_by_zero
      else Inr (results_zero\<lparr>nb_packets_rcvd := ses_counter s, nb_packets_lost := ses_error s,
        nb_packets_outorder := ses_outorder s, total_len := ucast (ses_length s),
        time_in_us := duration, jitter_in_us := ses_jitter s,
        packet_size := ucast (ses_length s div ucast (ses_counter s))\<rparr>))"

text \<open>Lines 198 to 214: transit time, smoothed jitter.\<close>

definition udp_update_jitter :: "u32 \<Rightarrow> session \<Rightarrow> session" where
  "udp_update_jitter transit_time s =
     (let s1 = (if ses_last_transit_time s \<noteq> 0 then
                  let delta_transit = s_abs (transit_time - ses_last_transit_time s) in
                  s\<lparr>ses_jitter := ses_jitter s +
                      word_of_int (sint (delta_transit - ses_jitter s) sdiv 16)\<rparr>
                else s)
      in s1\<lparr>ses_last_transit_time := transit_time\<rparr>)"

text \<open>Lines 216 to 226: the sequence number. The comparison with \<open>next_id\<close> is unsigned.\<close>

definition udp_update_id :: "u32 \<Rightarrow> session \<Rightarrow> session" where
  "udp_update_id pkt_id s =
     (if pkt_id \<noteq> ses_next_id s then
        if pkt_id < ses_next_id s then s\<lparr>ses_outorder := ses_outorder s + 1\<rparr>
        else s\<lparr>ses_error := ses_error s + (pkt_id - ses_next_id s), ses_next_id := pkt_id + 1\<rparr>
      else s\<lparr>ses_next_id := ses_next_id s + 1\<rparr>)"

text \<open>Lines 193 to 226: a packet of an ongoing session.\<close>

definition udp_session_packet ::
  "'w platform \<Rightarrow> u64 \<Rightarrow> zperf_udp_datagram \<Rightarrow> nat \<Rightarrow> session \<Rightarrow> session" where
  "udp_session_packet P time hdr datalen s =
     (let s1 = s\<lparr>ses_counter := ses_counter s + 1, ses_length := ses_length s + of_nat datalen\<rparr>;
          transit_time = time_delta (k_ticks_to_us_ceil32 P (ucast time))
            (dg_tv_sec hdr * USEC_PER_SEC + dg_tv_usec hdr)
      in udp_update_id (dg_id hdr) (udp_update_jitter transit_time s1))"

section \<open>The packet handler\<close>

text \<open>Write through the session pointer \<open>&sessions[SESSION_UDP][i]\<close>.\<close>

definition udp_put ::
  "nat \<Rightarrow> session \<Rightarrow> ('w, 's) udp_server \<Rightarrow> ('w, 's) udp_server" where
  "udp_put i s st = st\<lparr>sessions := put_session SESSION_UDP i s (sessions st)\<rparr>"

definition udp_received ::
  "'w platform \<Rightarrow> int \<Rightarrow> sockaddr \<Rightarrow> u8 list \<Rightarrow> nat \<Rightarrow> ('w, 's) udp_server \<Rightarrow>
   ('w, 's) udp_server faulty" where
  "udp_received P sock addr data datalen st =
     (if datalen < sizeof_udp_datagram then Inr st
      else
        let hdr = get_datagram data;
            (ticks, st1) = k_uptime_ticks P st;
            time = ucast ticks :: u64;
            (ptr, ss) = get_session addr SESSION_UDP (sessions st1);
            st2 = st1\<lparr>sessions := ss\<rparr>
        in case ptr of None \<Rightarrow> Inr st2
        | Some i \<Rightarrow>
            let session = ss ! proto_index SESSION_UDP ! i; pkt_id = dg_id hdr in
            (case ses_state session of
               STATE_ONGOING \<Rightarrow>
                 if sint pkt_id < 0 then
                   let duration = k_ticks_to_us_ceil32 P (ucast (time - ses_start_time session));
                       session' = session\<lparr>ses_state := STATE_COMPLETED,
                                          ses_stat := udp_fill_stat session duration\<rparr>;
                       (_, st3) = zperf_receiver_send_stat P sock addr data (ses_stat session')
                                    (udp_put i session' st2)
                   in (case udp_session_results session' duration of
                         Inl e \<Rightarrow> Inl e
                       | Inr results \<Rightarrow>
                           Inr (call_session_cb (udp_session_cb st3) ZPERF_SESSION_FINISHED
                                  (Some results) (udp_user_data st3) st3))
                 else Inr (udp_put i (udp_session_packet P time hdr datalen session) st2)
             | STATE_LAST_PACKET_RECEIVED \<Rightarrow> Inr st2
             | _ \<Rightarrow>
                 if sint pkt_id < 0 then
                   Inr (snd (zperf_receiver_send_stat P sock addr data (ses_stat session) st2))
                 else
                   let session' = (zperf_reset_session_stats session)
                         \<lparr>ses_state := STATE_ONGOING, ses_start_time := time\<rparr>;
                       st3 = udp_put i session' st2
                   in Inr (call_session_cb (udp_session_cb st3) ZPERF_SESSION_STARTED None
                             (udp_user_data st3) st3)))"

section \<open>The server session\<close>

definition UDP_RECEIVER_BUF_SIZE :: nat where
  "UDP_RECEIVER_BUF_SIZE = 1500"

definition POLL_TIMEOUT_MS :: int where
  "POLL_TIMEOUT_MS = 100"

definition udp_fds_init :: "pollfd list" where
  "udp_fds_init = replicate 2 \<lparr>pfd_fd = -1, pfd_events = False, pfd_revents = no_revents\<rparr>"

definition udp_setup_ipv4 ::
  "'w platform \<Rightarrow> pollfd list \<Rightarrow> ('w, 's) udp_server \<Rightarrow>
   server_ctl \<times> pollfd list \<times> ('w, 's) udp_server" where
  "udp_setup_ipv4 P fds st =
     (if \<not> CONFIG_NET_IPV4 then (Server_continue, fds, st)
      else
        let (fd, st1) = zsock_socket P AF_INET SOCK_DGRAM IPPROTO_UDP st;
            fds1 = fds[0 := (fds ! 0)\<lparr>pfd_fd := fd\<rparr>]
        in if fd < 0 then (Server_error, fds1, st1)
           else
             let st2 = select_ipv4 P (udp_server_addr st1) st1;
                 st3 = st2\<lparr>my4_port := htons (udp_server_port st2)\<rparr>;
                 (ret, st4) = zsock_bind P fd (Sockaddr_in (my4_port st3) (my4_addr st3)) st3
             in if ret < 0 then (Server_error, fds1, st4)
                else (Server_continue, fds1[0 := (fds1 ! 0)\<lparr>pfd_events := True\<rparr>], st4))"

definition udp_setup_ipv6 ::
  "'w platform \<Rightarrow> pollfd list \<Rightarrow> ('w, 's) udp_server \<Rightarrow>
   server_ctl \<times> pollfd list \<times> ('w, 's) udp_server" where
  "udp_setup_ipv6 P fds st =
     (if \<not> CONFIG_NET_IPV6 then (Server_continue, fds, st)
      else
        let (fd, st1) = zsock_socket P AF_INET6 SOCK_DGRAM IPPROTO_UDP st;
            fds1 = fds[1 := (fds ! 1)\<lparr>pfd_fd := fd\<rparr>]
        in if fd < 0 then (Server_error, fds1, st1)
           else
             let st2 = select_ipv6 P (udp_server_addr st1) st1;
                 st3 = st2\<lparr>my6_port := htons (udp_server_port st2)\<rparr>;
                 (ret, st4) = zsock_bind P fd (Sockaddr_in6 (my6_port st3) (my6_addr st3)) st3
             in if ret < 0 then (Server_error, fds1, st4)
                else (Server_continue, fds1[1 := (fds1 ! 1)\<lparr>pfd_events := True\<rparr>], st4))"

definition udp_server_setup ::
  "'w platform \<Rightarrow> ('w, 's) udp_server \<Rightarrow> server_ctl \<times> pollfd list \<times> ('w, 's) udp_server" where
  "udp_server_setup P st =
     (case udp_setup_ipv4 P udp_fds_init st of
        (Server_continue, fds, st1) \<Rightarrow> udp_setup_ipv6 P fds st1
      | r \<Rightarrow> r)"

text \<open>Lines 362 to 386: the descriptors of one poll, in order.\<close>

fun udp_serve_fds ::
  "'w platform \<Rightarrow> pollfd list \<Rightarrow> ('w, 's) udp_server \<Rightarrow>
   (server_ctl \<times> ('w, 's) udp_server) faulty" where
  "udp_serve_fds P [] st = Inr (Server_continue, st)"
| "udp_serve_fds P (p # ps) st =
     (if pollerr (pfd_revents p) \<or> pollnval (pfd_revents p) then Inr (Server_error, st)
      else if \<not> pollin (pfd_revents p) then udp_serve_fds P ps st
      else
        let (ret, bytes, addr, st1) = zsock_recvfrom P (pfd_fd p) UDP_RECEIVER_BUF_SIZE st
        in if ret < 0 then Inr (Server_error, st1)
           else
             let buf = bytes @ drop (length bytes) (udp_buf st1)
             in (case udp_received P (pfd_fd p) addr buf (nat ret) (st1\<lparr>udp_buf := buf\<rparr>) of
                   Inl e \<Rightarrow> Inl e
                 | Inr st2 \<Rightarrow> udp_serve_fds P ps st2))"

text \<open>Lines 347 to 386: one turn of the loop.\<close>

definition udp_server_turn ::
  "'w platform \<Rightarrow> pollfd list \<Rightarrow> ('w, 's) udp_server \<Rightarrow>
   (server_ctl \<times> pollfd list \<times> ('w, 's) udp_server) faulty" where
  "udp_server_turn P fds st =
     (let (ret, fds', st1) = zsock_poll P fds POLL_TIMEOUT_MS st
      in if ret < 0 then Inr (Server_error, fds', st1)
         else if udp_server_stop st1 then Inr (Server_cleanup, fds', st1)
         else if ret = 0 then Inr (Server_continue, fds', st1)
         else (case udp_serve_fds P fds' st1 of
                 Inl e \<Rightarrow> Inl e
               | Inr (ctl, st2) \<Rightarrow> Inr (ctl, fds', st2)))"

text \<open>Lines 389 to 399: the error callback and the clean-up, which closes every descriptor of the array.\<close>

definition udp_server_leave ::
  "'w platform \<Rightarrow> server_ctl \<Rightarrow> pollfd list \<Rightarrow> ('w, 's) udp_server \<Rightarrow> ('w, 's) udp_server" where
  "udp_server_leave P ctl fds st =
     close_fds P fds
       (if ctl = Server_error
        then call_session_cb (udp_session_cb st) ZPERF_SESSION_ERROR None (udp_user_data st) st
        else st)"

section \<open>Control functions\<close>

definition zperf_udp_download ::
  "'w platform \<Rightarrow> 's rtos \<Rightarrow> zperf_download_params option \<Rightarrow> zperf_callback option \<Rightarrow> user_data \<Rightarrow>
   ('w, 's) udp_server \<Rightarrow> (int \<times> ('w, 's) udp_server) faulty" where
  "zperf_udp_download P R param callback ud st =
     (case param of
        None \<Rightarrow> Inr (- EINVAL, st)
      | Some prm \<Rightarrow>
          if callback = None then Inr (- EINVAL, st)
          else if udp_server_running st then Inr (- EALREADY, st)
          else
            let st1 = st\<lparr>udp_session_cb := callback, udp_user_data := ud,
                  udp_server_port := dp_port prm, udp_server_running := True,
                  udp_server_stop := False,
                  udp_server_addr := memcpy_sockaddr P (udp_server_addr st) (dp_addr prm)\<rparr>
            in (case k_sem_give R (udp_server_run st1) of
                  Inl e \<Rightarrow> Inl e
                | Inr sem \<Rightarrow> Inr (0, st1\<lparr>udp_server_run := sem\<rparr>)))"

definition zperf_udp_download_stop ::
  "('w, 's) udp_server \<Rightarrow> int \<times> ('w, 's) udp_server" where
  "zperf_udp_download_stop st =
     (if \<not> udp_server_running st then (- EALREADY, st)
      else (0, st\<lparr>udp_server_stop := True, udp_session_cb := None\<rparr>))"

section \<open>The server thread\<close>

inductive udp_step ::
  "'w platform \<Rightarrow> 's rtos \<Rightarrow> pollfd list server_pc \<times> ('w, 's) udp_server \<Rightarrow> pollfd list server_pc \<times> ('w, 's) udp_server \<Rightarrow> bool"
  for P :: "'w platform" and R :: "'s rtos" where
  init: "k_sem_init R (udp_server_run st) (initial_count (udp_server_run st))
           (max_count (udp_server_run st)) = Inr sem \<Longrightarrow>
     udp_step P R (Server_created, st) (Server_waiting, st\<lparr>udp_server_run := sem\<rparr>)"
| start: "k_sem_take R (udp_server_run st) = Inr (Some sem) \<Longrightarrow>
     udp_server_setup P (st\<lparr>udp_server_run := sem\<rparr>) = (Server_continue, fds, st') \<Longrightarrow>
     udp_step P R (Server_waiting, st) (Server_polling fds, st')"
| start_failed: "k_sem_take R (udp_server_run st) = Inr (Some sem) \<Longrightarrow>
     udp_server_setup P (st\<lparr>udp_server_run := sem\<rparr>) = (ctl, fds, st') \<Longrightarrow> ctl \<noteq> Server_continue \<Longrightarrow>
     udp_step P R (Server_waiting, st) (Server_returned, udp_server_leave P ctl fds st')"
| turn: "udp_server_turn P fds st = Inr (Server_continue, fds', st') \<Longrightarrow>
     udp_step P R (Server_polling fds, st) (Server_polling fds', st')"
| leave: "udp_server_turn P fds st = Inr (ctl, fds', st') \<Longrightarrow> ctl \<noteq> Server_continue \<Longrightarrow>
     udp_step P R (Server_polling fds, st) (Server_returned, udp_server_leave P ctl fds' st')"
| idle: "udp_step P R (Server_returned, st) (Server_waiting, st\<lparr>udp_server_running := False\<rparr>)"
| download: "zperf_udp_download P R param cb ud st = Inr (r, st') \<Longrightarrow>
     udp_step P R (pc, st) (pc, st')"
| stop: "zperf_udp_download_stop st = (r, st') \<Longrightarrow> udp_step P R (pc, st) (pc, st')"

text \<open>The variables as the program starts, after \<open>zperf_session_init\<close>.\<close>

definition udp_server_initial :: "'w \<Rightarrow> ('w, 's) udp_server" where
  "udp_server_initial w =
     \<lparr>world = w, trace = [], my4_port = htons (of_nat MY_SRC_PORT), my4_addr = 0,
      my6_port = htons (of_nat MY_SRC_PORT), my6_addr = IPV6_ANY_ADDR,
      sessions = zperf_session_init sessions_zero,
      udp_session_cb = None, udp_user_data = 0, udp_server_running = False,
      udp_server_stop = False, udp_server_port = 0, udp_server_addr = Sockaddr_other 0,
      udp_server_run = K_SEM_DEFINE 0 1, udp_buf = replicate UDP_RECEIVER_BUF_SIZE 0\<rparr>"

inductive udp_reachable ::
  "'w platform \<Rightarrow> 's rtos \<Rightarrow> pollfd list server_pc \<times> ('w, 's) udp_server \<Rightarrow> bool"
  for P :: "'w platform" and R :: "'s rtos" where
  start_state: "udp_reachable P R (Server_created, udp_server_initial w)"
| next_state: "udp_reachable P R c \<Longrightarrow> udp_step P R c c' \<Longrightarrow> udp_reachable P R c'"

section \<open>Field lemmas\<close>

lemma udp_update_jitter_fields [session_simps]:
  "ses_port (udp_update_jitter t s) = ses_port s"
  "ses_ip (udp_update_jitter t s) = ses_ip s"
  "ses_state (udp_update_jitter t s) = ses_state s"
  "ses_counter (udp_update_jitter t s) = ses_counter s"
  "ses_next_id (udp_update_jitter t s) = ses_next_id s"
  "ses_outorder (udp_update_jitter t s) = ses_outorder s"
  "ses_error (udp_update_jitter t s) = ses_error s"
  "ses_length (udp_update_jitter t s) = ses_length s"
  "ses_stat (udp_update_jitter t s) = ses_stat s"
  by (simp_all add: udp_update_jitter_def Let_def)

lemma udp_update_id_fields [session_simps]:
  "ses_port (udp_update_id i s) = ses_port s"
  "ses_ip (udp_update_id i s) = ses_ip s"
  "ses_state (udp_update_id i s) = ses_state s"
  "ses_counter (udp_update_id i s) = ses_counter s"
  "ses_length (udp_update_id i s) = ses_length s"
  "ses_jitter (udp_update_id i s) = ses_jitter s"
  "ses_stat (udp_update_id i s) = ses_stat s"
  by (simp_all add: udp_update_id_def)

lemma udp_session_packet_fields [session_simps]:
  "ses_port (udp_session_packet P t h n s) = ses_port s"
  "ses_ip (udp_session_packet P t h n s) = ses_ip s"
  "ses_state (udp_session_packet P t h n s) = ses_state s"
  "ses_counter (udp_session_packet P t h n s) = ses_counter s + 1"
  "ses_length (udp_session_packet P t h n s) = ses_length s + of_nat n"
  "ses_stat (udp_session_packet P t h n s) = ses_stat s"
  by (simp_all add: udp_session_packet_def Let_def session_simps)

section \<open>Sequence accounting\<close>

text \<open>
  Every packet of a session that is not late moves \<open>next_id\<close> forward by one plus the packets it
  skipped. So \<open>next_id\<close>, the lost, the received and the late packets are always in balance.
\<close>

definition loss_balanced :: "session \<Rightarrow> bool" where
  "loss_balanced s \<longleftrightarrow> ses_next_id s = 1 + ses_error s + (ses_counter s - ses_outorder s)"

lemma loss_balanced_reset: "loss_balanced (zperf_reset_session_stats s)"
  by (simp add: loss_balanced_def zperf_reset_session_stats_def)

lemma loss_balanced_packet:
  assumes "loss_balanced s"
  shows "loss_balanced (udp_session_packet P t h n s)"
  using assms
  by (simp add: loss_balanced_def udp_session_packet_def udp_update_id_def session_simps
      Let_def algebra_simps)

text \<open>The sequence numbers alone: \<open>next_id\<close> is one more than the largest number seen.\<close>

lemma udp_update_id_next:
  assumes "unat i < 2 ^ 31"
  shows "unat (ses_next_id (udp_update_id i s)) = max (unat (ses_next_id s)) (Suc (unat i))"
proof -
  have inc: "unat (i + 1) = Suc (unat i)"
    using assms by (simp add: unat_word_ariths)
  consider "ses_next_id s = i" | "i < ses_next_id s" | "ses_next_id s < i"
    by (metis linorder_cases)
  then show ?thesis
    by cases (auto simp: udp_update_id_def inc word_less_nat_alt)
qed

text \<open>The packets of one session, in the order they arrive: time, header and size of each.\<close>

definition udp_session_run ::
  "'w platform \<Rightarrow> (u64 \<times> zperf_udp_datagram \<times> nat) list \<Rightarrow> session \<Rightarrow> session" where
  "udp_session_run P = fold (\<lambda>(t, h, n). udp_session_packet P t h n)"

lemma udp_session_run_Cons [simp]:
  "udp_session_run P ((t, h, n) # ps) s = udp_session_run P ps (udp_session_packet P t h n s)"
  by (simp add: udp_session_run_def)

lemma udp_session_run_Nil [simp]: "udp_session_run P [] s = s"
  by (simp add: udp_session_run_def)

lemma udp_session_run_counts:
  "ses_counter (udp_session_run P ps s) = ses_counter s + of_nat (length ps) \<and>
   ses_length (udp_session_run P ps s) = ses_length s + of_nat (\<Sum>(t, h, n) \<leftarrow> ps. n) \<and>
   ses_state (udp_session_run P ps s) = ses_state s"
proof (induction ps arbitrary: s)
  case Nil
  then show ?case by simp
next
  case (Cons p ps)
  then show ?case by (cases p) (simp add: session_simps algebra_simps)
qed

lemma udp_session_run_loss:
  "loss_balanced s \<Longrightarrow> loss_balanced (udp_session_run P ps s)"
proof (induction ps arbitrary: s)
  case Nil
  then show ?case by simp
next
  case (Cons p ps)
  then show ?case by (cases p) (simp add: loss_balanced_packet)
qed

lemma udp_session_run_next:
  assumes "\<forall>(t, h, n) \<in> set ps. unat (dg_id h) < 2 ^ 31"
  shows "unat (ses_next_id (udp_session_run P ps s)) =
    fold max (map (\<lambda>(t, h, n). Suc (unat (dg_id h))) ps) (unat (ses_next_id s))"
  using assms
proof (induction ps arbitrary: s)
  case Nil
  then show ?case by simp
next
  case (Cons p ps)
  then show ?case
    by (cases p)
      (auto simp: udp_session_packet_def Let_def udp_update_id_next session_simps max.commute)
qed

section \<open>Jitter\<close>

lemma sdiv16_bounds:
  fixes d j :: int
  shows "min j d \<le> j + (d - j) sdiv 16 \<and> j + (d - j) sdiv 16 \<le> max j d"
proof (cases "j \<le> d")
  case True
  then have "(d - j) sdiv 16 = (d - j) div 16"
    by (simp add: signed_divide_int_def sgn_if)
  moreover have "0 \<le> (d - j) div 16" and "(d - j) div 16 \<le> d - j"
    using True by auto
  ultimately show ?thesis using True by auto
next
  case False
  then have "(d - j) sdiv 16 = - ((j - d) div 16)"
    by (simp add: signed_divide_int_def sgn_if)
  moreover have "0 \<le> (j - d) div 16" and "(j - d) div 16 \<le> j - d"
    using False by auto
  ultimately show ?thesis using False by auto
qed

lemma jitter_step_bounds:
  assumes "0 \<le> sint j" and "0 \<le> sint (d :: u32)"
  shows "sint (j + word_of_int (sint (d - j) sdiv 16)) = sint j + (sint d - sint j) sdiv 16"
proof -
  have w: "j + word_of_int (sint (d - j) sdiv 16) =
      (word_of_int (sint j + (sint d - sint j) sdiv 16) :: u32)"
    using sint_diff_nonneg [OF assms(2,1)] by simp
  show ?thesis
    unfolding w
    using sdiv16_bounds [of "sint j" "sint d"] assms sint_range32 [of j] sint_range32 [of d]
    by (intro sint_of_int32) linarith+
qed

section \<open>What the packet handler does\<close>

text \<open>
  A handled packet leaves everything but the world, the trace and one slot of the table alone. The
  slot the packet belongs to is \<open>s\<close> before and \<open>s'\<close> after the call.
\<close>

inductive udp_slot_change ::
  "'w platform \<Rightarrow> zperf_udp_datagram \<Rightarrow> nat \<Rightarrow> session \<Rightarrow> session \<Rightarrow> bool" for P h n where
  same: "udp_slot_change P h n s s"
| started: "session_free s \<Longrightarrow> 0 \<le> sint (dg_id h) \<Longrightarrow>
    udp_slot_change P h n s ((zperf_reset_session_stats s)\<lparr>ses_state := STATE_ONGOING, ses_start_time := t\<rparr>)"
| packet: "ses_state s = STATE_ONGOING \<Longrightarrow> 0 \<le> sint (dg_id h) \<Longrightarrow>
    udp_slot_change P h n s (udp_session_packet P t h n s)"
| finished: "ses_state s = STATE_ONGOING \<Longrightarrow> sint (dg_id h) < 0 \<Longrightarrow> ses_counter s \<noteq> 0 \<Longrightarrow>
    udp_slot_change P h n s (s\<lparr>ses_state := STATE_COMPLETED, ses_stat := udp_fill_stat s d\<rparr>)"

lemma udp_slot_change_peer: "udp_slot_change P h n s s' \<Longrightarrow> peer_of s' = peer_of s"
  by (erule udp_slot_change.cases)
    (auto intro!: peer_of_cong simp: zperf_reset_session_stats_def session_simps)

lemma udp_slot_change_loss: "udp_slot_change P h n s s' \<Longrightarrow> loss_balanced s \<Longrightarrow> loss_balanced s'"
  by (erule udp_slot_change.cases)
    (auto simp: loss_balanced_packet, auto simp: loss_balanced_def zperf_reset_session_stats_def)

lemma send_stat_quiet [quiet_intros]:
  "quiet_ext st st' \<Longrightarrow> quiet_ext st (snd (zperf_receiver_send_stat P sock addr hdr stat st'))"
  by (simp add: zperf_receiver_send_stat_def quiet_intros)

lemma put_session_same [simp]: "put_session p i (ss ! proto_index p ! i) ss = ss"
  by (simp add: put_session_def)

lemma put_session_put [simp]:
  "proto_index p < length ss \<Longrightarrow> put_session p i s' (put_session p i s ss) = put_session p i s' ss"
  by (simp add: put_session_def)

text \<open>The handler once the lookup has given a slot.\<close>

definition udp_slot_result ::
  "'w platform \<Rightarrow> int \<Rightarrow> sockaddr \<Rightarrow> u8 list \<Rightarrow> nat \<Rightarrow> u64 \<Rightarrow> nat \<Rightarrow> ('w, 's) udp_server \<Rightarrow>
   ('w, 's) udp_server faulty" where
  "udp_slot_result P sock addr data n time i st =
     (let s = sessions st ! 0 ! i; hdr = get_datagram data;
          duration = k_ticks_to_us_ceil32 P (ucast (time - ses_start_time s))
      in if ses_state s = STATE_LAST_PACKET_RECEIVED then Inr st
         else if sint (dg_id hdr) < 0 then
           if ses_state s = STATE_ONGOING then
             case udp_session_results s duration of Inl e \<Rightarrow> Inl e
             | Inr res \<Rightarrow>
                 let s' = s\<lparr>ses_state := STATE_COMPLETED, ses_stat := udp_fill_stat s duration\<rparr>
                 in Inr (call_session_cb (udp_session_cb st) ZPERF_SESSION_FINISHED (Some res)
                      (udp_user_data st)
                      (snd (zperf_receiver_send_stat P sock addr data (ses_stat s') (udp_put i s' st))))
           else Inr (snd (zperf_receiver_send_stat P sock addr data (ses_stat s) st))
         else if ses_state s = STATE_ONGOING then
           Inr (udp_put i (udp_session_packet P time hdr n s) st)
         else Inr (call_session_cb (udp_session_cb st) ZPERF_SESSION_STARTED None (udp_user_data st)
             (udp_put i ((zperf_reset_session_stats s)
                \<lparr>ses_state := STATE_ONGOING, ses_start_time := time\<rparr>) st)))"

lemma udp_received_slot:
  assumes "sizeof_udp_datagram \<le> n" and "xTaskGetTickCount P (world st) = (t, w)"
    and "get_session addr SESSION_UDP (sessions st) = (Some i, ss)"
  shows "udp_received P sock addr data n st =
    udp_slot_result P sock addr data n (ucast t) i (st\<lparr>world := w, sessions := ss\<rparr>)"
  using assms
  by (simp add: udp_received_def udp_slot_result_def k_uptime_ticks_def udp_session_results_def
      udp_put_def zperf_receiver_send_stat_def zsock_sendto_def Let_def
      split: session_state.split prod.split)

lemma udp_received_no_slot:
  assumes "sizeof_udp_datagram \<le> n" and "xTaskGetTickCount P (world st) = (t, w)"
    and "get_session addr SESSION_UDP (sessions st) = (None, ss)"
  shows "udp_received P sock addr data n st = Inr (st\<lparr>world := w\<rparr>)"
proof -
  have "ss = sessions st"
    using udp_tab.get_None_unchanged [of addr "sessions st"] assms(3) by simp
  with assms show ?thesis by (simp add: udp_received_def k_uptime_ticks_def)
qed

lemma udp_put_same [simp]: "udp_put i (sessions st ! 0 ! i) st = st"
  using put_session_same [of SESSION_UDP i "sessions st"] by (simp add: udp_put_def)

lemma udp_put_world:
  "quiet_ext (st\<lparr>sessions := put_session SESSION_UDP i s ss\<rparr>) (udp_put i s (st\<lparr>world := w, sessions := ss\<rparr>))"
proof -
  have "udp_put i s (st\<lparr>world := w, sessions := ss\<rparr>) =
      st\<lparr>sessions := put_session SESSION_UDP i s ss\<rparr>\<lparr>world := w\<rparr>"
    by (cases st) (simp add: udp_put_def)
  then show ?thesis by (simp only: quiet_ext_world quiet_ext_refl)
qed

lemma udp_slot_result_effect:
  assumes "udp_slot_result P sock addr data n time i st = Inr st'"
  obtains s' where "udp_slot_change P (get_datagram data) n (sessions st ! 0 ! i) s'"
    "quiet_ext (udp_put i s' st) st'"
proof -
  let ?s = "sessions st ! 0 ! i" and ?h = "get_datagram data"
  consider (last) "ses_state ?s = STATE_LAST_PACKET_RECEIVED"
    | (again) "session_free ?s" "sint (dg_id ?h) < 0"
    | (finish) "ses_state ?s = STATE_ONGOING" "sint (dg_id ?h) < 0"
    | (packet) "ses_state ?s = STATE_ONGOING" "0 \<le> sint (dg_id ?h)"
    | (fresh) "session_free ?s" "0 \<le> sint (dg_id ?h)"
    by (cases "ses_state ?s") (auto simp: session_free_def not_less [symmetric])
  then show thesis
  proof cases
    case last
    with assms show thesis
      by (intro that [of ?s]) (auto simp: udp_slot_result_def intro: udp_slot_change.same quiet_intros)
  next
    case again
    with assms show thesis
      by (intro that [of ?s])
        (auto simp: udp_slot_result_def session_free_def Let_def send_stat_quiet quiet_ext_refl
           intro: udp_slot_change.same)
  next
    case finish
    then obtain d where "st' = call_session_cb (udp_session_cb st) ZPERF_SESSION_FINISHED
        (Some (projr (udp_session_results ?s d))) (udp_user_data st)
        (snd (zperf_receiver_send_stat P sock addr data (udp_fill_stat ?s d)
           (udp_put i (?s\<lparr>ses_state := STATE_COMPLETED, ses_stat := udp_fill_stat ?s d\<rparr>) st)))"
      and "ses_counter ?s \<noteq> 0"
      using assms
      by (auto simp: udp_slot_result_def udp_session_results_def Let_def split: if_splits)
    with finish show thesis
      by (intro that [OF udp_slot_change.finished [of _ _ _ _ d]]) (simp_all add: quiet_intros)
  next
    case packet
    with assms show thesis
      by (intro that [OF udp_slot_change.packet [of _ _ _ _ time]])
        (simp_all add: udp_slot_result_def Let_def not_less [symmetric] quiet_ext_refl)
  next
    case fresh
    with assms show thesis
      by (intro that [OF udp_slot_change.started [of _ _ _ _ time]])
        (auto simp: udp_slot_result_def session_free_def Let_def not_less [symmetric] quiet_intros)
  qed
qed

text \<open>
  The effect of the handler as one statement: either the table has no slot for the packet (or the
  packet is too short) and the table is unchanged, or the lookup gave a slot and that slot changed.
\<close>

lemma udp_received_effect:
  assumes "udp_received P sock addr data n st = Inr st'"
  obtains (none) "quiet_ext st st'"
    | (slot) i ss s' where "get_session addr SESSION_UDP (sessions st) = (Some i, ss)"
      "udp_slot_change P (get_datagram data) n (ss ! 0 ! i) s'"
      "quiet_ext (st\<lparr>sessions := put_session SESSION_UDP i s' ss\<rparr>) st'"
proof (cases "n < sizeof_udp_datagram")
  case True
  with assms show thesis by (intro none) (simp add: udp_received_def quiet_ext_refl)
next
  case False
  then have n: "sizeof_udp_datagram \<le> n" by simp
  obtain t w where tick: "xTaskGetTickCount P (world st) = (t, w)" by fastforce
  obtain ptr ss where get: "get_session addr SESSION_UDP (sessions st) = (ptr, ss)" by fastforce
  show thesis
  proof (cases ptr)
    case None
    with assms udp_received_no_slot [OF n tick, of addr ss sock data] get show thesis
      by (intro none) (auto intro: quiet_intros)
  next
    case (Some i)
    with assms udp_received_slot [OF n tick, of addr i ss sock data] get
    have "udp_slot_result P sock addr data n (ucast t) i (st\<lparr>world := w, sessions := ss\<rparr>) = Inr st'"
      by simp
    then obtain s' where change: "udp_slot_change P (get_datagram data) n (ss ! 0 ! i) s'"
      and q: "quiet_ext (udp_put i s' (st\<lparr>world := w, sessions := ss\<rparr>)) st'"
      by (rule udp_slot_result_effect) simp
    from quiet_ext_trans [OF udp_put_world q] get Some change show thesis by (intro slot) simp_all
  qed
qed

section \<open>Invariants of the table\<close>

text \<open>
  \<open>udp_table_ok\<close> is what every handled packet keeps of the table. \<open>udp_work\<close> relates the states
  before and after a piece of the server's work: the control variables and the open sockets are the
  same, the table stays in order and the row of the TCP server is not touched.
\<close>

definition udp_table_ok :: "('w, 's) udp_server \<Rightarrow> bool" where
  "udp_table_ok st \<longleftrightarrow> sessions_wf (sessions st) \<and> (\<forall>s \<in> set (sessions st ! 0). loss_balanced s)"

definition udp_control :: "('w, 's) udp_server \<Rightarrow>
   zperf_callback option \<times> user_data \<times> bool \<times> bool \<times> u16 \<times> sockaddr \<times> 's k_sem" where
  "udp_control st = (udp_session_cb st, udp_user_data st, udp_server_running st,
     udp_server_stop st, udp_server_port st, udp_server_addr st, udp_server_run st)"

definition udp_work :: "('w, 's) udp_server \<Rightarrow> ('w, 's) udp_server \<Rightarrow> bool" where
  "udp_work st st' \<longleftrightarrow> udp_control st' = udp_control st \<and> (udp_table_ok st \<longrightarrow> udp_table_ok st') \<and>
     sessions st' ! 1 = sessions st ! 1 \<and> (\<forall>fd. balance (trace st') fd = balance (trace st) fd)"

lemma udp_work_refl: "udp_work st st"
  by (simp add: udp_work_def)

lemma udp_work_trans: "udp_work a b \<Longrightarrow> udp_work b c \<Longrightarrow> udp_work a c"
  by (simp add: udp_work_def)

lemma udp_work_quiet: "quiet_ext st st' \<Longrightarrow> udp_work st st'"
  by (elim quiet_extE) (simp add: udp_work_def udp_control_def udp_table_ok_def quiet_def)

lemma udp_work_buf: "udp_work st (st\<lparr>udp_buf := b\<rparr>)"
  by (simp add: udp_work_def udp_control_def udp_table_ok_def)

lemma loss_balanced_claim: "loss_balanced (session_claim a s) = loss_balanced s"
  by (simp add: loss_balanced_def session_claim_def split: sockaddr.split)

lemma udp_table_ok_get:
  assumes "udp_table_ok st" and "get_session addr SESSION_UDP (sessions st) = (Some i, ss)"
  shows "sessions_wf ss \<and> (\<forall>s \<in> set (ss ! 0). loss_balanced s) \<and> i < length (ss ! 0)"
proof -
  from assms(1) have wf: "sessions_wf (sessions st)" by (simp add: udp_table_ok_def)
  have wf': "sessions_wf ss" using udp_tab.inv_get [OF wf, of addr] assms(2) by simp
  have i: "i < length (ss ! 0)"
    using udp_tab.get_index [OF assms(2) wf] sessions_wf_row [OF wf', of SESSION_UDP] by simp
  have "loss_balanced (ss ! 0 ! j)" if "j < length (ss ! 0)" for j
  proof -
    have "j < length (sessions st ! 0)"
      using that sessions_wf_row [OF wf, of SESSION_UDP] sessions_wf_row [OF wf', of SESSION_UDP]
      by simp
    then have old: "loss_balanced (sessions st ! 0 ! j)"
      using assms(1) by (simp add: udp_table_ok_def)
    show ?thesis
      using udp_tab.get_row_other [OF wf assms(2), of j] udp_tab.get_slot_kept [OF wf assms(2)] old
      by (cases "j = i") (auto simp: loss_balanced_claim)
  qed
  with wf' i show ?thesis by (auto simp: all_set_conv_all_nth)
qed

lemma udp_table_ok_put:
  assumes "sessions_wf ss" and "\<forall>s \<in> set (ss ! 0). loss_balanced s" and "i < length (ss ! 0)"
    and "udp_slot_change P h n (ss ! 0 ! i) s'"
  shows "udp_table_ok (st\<lparr>sessions := put_session SESSION_UDP i s' ss\<rparr>)"
proof -
  have len: "length (ss ! 0) = SESSION_MAX" and two: "length ss = 2"
    using sessions_wf_row [OF assms(1), of SESSION_UDP] assms(1) by (simp_all add: sessions_wf_def)
  have "sessions_wf (put_session SESSION_UDP i s' ss)"
    using assms(1,3) len udp_slot_change_peer [OF assms(4)]
    by (intro udp_tab.inv_put_same_peer) simp_all
  moreover have "loss_balanced s'"
    using udp_slot_change_loss [OF assms(4)] assms(2,3) by simp
  ultimately show ?thesis
    using assms(2) two row_put_session [of SESSION_UDP ss i s']
    by (auto simp: udp_table_ok_def dest: set_update_subset_insert [THEN subsetD])
qed

lemma udp_get_row: "get_session addr SESSION_UDP ss = (r, ss') \<Longrightarrow> ss' ! 1 = ss ! 1"
  using get_session_spec [of SESSION_UDP addr ss] by (auto simp: put_session_def Let_def split: option.splits)

lemma udp_received_work:
  assumes "udp_received P sock addr data n st = Inr st'"
  shows "udp_work st st'"
  using assms
proof (cases rule: udp_received_effect)
  case none
  then show ?thesis by (rule udp_work_quiet)
next
  case (slot i ss s')
  have "udp_work st (st\<lparr>sessions := put_session SESSION_UDP i s' ss\<rparr>)"
    using udp_table_ok_get [OF _ slot(1)] udp_table_ok_put [OF _ _ _ slot(2)] udp_get_row [OF slot(1)]
    by (simp add: udp_work_def udp_control_def put_session_def) blast
  then show ?thesis using udp_work_quiet [OF slot(3)] by (rule udp_work_trans)
qed

lemma udp_serve_fds_work:
  "udp_serve_fds P ps st = Inr (ctl, st') \<Longrightarrow> udp_work st st'"
proof (induction ps arbitrary: st)
  case Nil
  then show ?case by (simp add: udp_work_refl)
next
  case (Cons p ps)
  obtain r bs a st1 where recv: "zsock_recvfrom P (pfd_fd p) UDP_RECEIVER_BUF_SIZE st = (r, bs, a, st1)"
    by (metis prod_cases4)
  let ?buf = "bs @ drop (length bs) (udp_buf st1)"
  have st1: "udp_work st st1" "udp_work st (st1\<lparr>udp_buf := ?buf\<rparr>)"
    using udp_work_quiet [OF recvfrom_quiet [OF recv]] udp_work_buf udp_work_trans by blast+
  show ?case
    using Cons.prems recv Cons.IH st1
    by (auto simp: Let_def udp_work_refl split: if_splits sum.splits
        intro: udp_work_trans dest!: udp_received_work)
qed

lemma udp_server_turn_work:
  assumes "udp_server_turn P fds st = Inr (ctl, fds', st')"
  shows "udp_work st st' \<and> map pfd_fd fds' = map pfd_fd fds"
proof -
  obtain r fds1 st1 where poll: "zsock_poll P fds POLL_TIMEOUT_MS st = (r, fds1, st1)"
    by (metis prod_cases3)
  have "udp_work st st1" and "map pfd_fd fds1 = map pfd_fd fds"
    using udp_work_quiet [OF poll_quiet [OF poll]] poll_fds [OF poll] by simp_all
  then show ?thesis
    using assms poll
    by (auto simp: udp_server_turn_def split: if_splits sum.splits
        intro: udp_work_trans dest: udp_serve_fds_work)
qed

section \<open>Sockets of the server\<close>

lemma udp_server_leave_effect:
  "udp_control (udp_server_leave P ctl fds st) = udp_control st \<and>
   sessions (udp_server_leave P ctl fds st) = sessions st \<and>
   balance (trace (udp_server_leave P ctl fds st)) fd = balance (trace st) fd - fds_open fds fd"
proof -
  define st1 where "st1 = (if ctl = Server_error
    then call_session_cb (udp_session_cb st) ZPERF_SESSION_ERROR None (udp_user_data st) st else st)"
  have "quiet_ext st st1" unfolding st1_def by (auto intro: quiet_intros)
  then have "udp_work st st1" and "sessions st1 = sessions st" by (auto intro: udp_work_quiet elim: quiet_extE)
  moreover obtain w evs where "close_fds P fds st1 = st1\<lparr>world := w, trace := trace st1 @ evs\<rparr>"
    "\<forall>fd. balance evs fd = - fds_open fds fd"
    using close_fds_effect [of P fds st1] by blast
  ultimately show ?thesis
    by (simp add: udp_server_leave_def st1_def [symmetric] udp_work_def udp_control_def udp_table_ok_def)
qed

text \<open>
  The two halves of the set-up: each records in its entry of the array what \<open>socket\<close> returned,
  whether or not the rest of the half succeeded.
\<close>

lemma udp_setup_ipv4_effect:
  assumes "udp_setup_ipv4 P udp_fds_init st = (ctl, fds, st')"
  shows "udp_control st' = udp_control st \<and> sessions st' = sessions st \<and>
    balance (trace st') fd = balance (trace st) fd + fds_open fds fd \<and>
    (\<exists>p. fds = [p, udp_fds_init ! 1])"
proof -
  obtain x w where sock: "lwip_socket P AF_INET SOCK_DGRAM IPPROTO_UDP (world st) = (x, w)" by fastforce
  obtain a w1 where sel: "select_ipv4 P (udp_server_addr st)
      (st\<lparr>world := w, trace := trace st @ [Ev_socket AF_INET SOCK_DGRAM IPPROTO_UDP x]\<rparr>) =
      st\<lparr>trace := trace st @ [Ev_socket AF_INET SOCK_DGRAM IPPROTO_UDP x], world := w1, my4_addr := a\<rparr>"
    by (rule select_ipv4_effect
        [of P "udp_server_addr st" "st\<lparr>world := w, trace := trace st @ [Ev_socket AF_INET SOCK_DGRAM IPPROTO_UDP x]\<rparr>"])
      simp
  show ?thesis
    using assms
    by (auto simp: udp_setup_ipv4_def config_defs io_defs sock sel udp_fds_init_def numeral_2_eq_2
        udp_control_def udp_table_ok_def Let_def split: prod.splits if_splits)
qed

lemma udp_setup_ipv6_effect:
  assumes "udp_setup_ipv6 P [p, udp_fds_init ! 1] st = (ctl, fds, st')"
  shows "udp_control st' = udp_control st \<and> sessions st' = sessions st \<and>
    balance (trace st') fd = balance (trace st) fd + fds_open fds fd - fds_open [p] fd"
proof -
  obtain x w where sock: "lwip_socket P AF_INET6 SOCK_DGRAM IPPROTO_UDP (world st) = (x, w)" by fastforce
  obtain a w1 where sel: "select_ipv6 P (udp_server_addr st)
      (st\<lparr>world := w, trace := trace st @ [Ev_socket AF_INET6 SOCK_DGRAM IPPROTO_UDP x]\<rparr>) =
      st\<lparr>trace := trace st @ [Ev_socket AF_INET6 SOCK_DGRAM IPPROTO_UDP x], world := w1, my6_addr := a\<rparr>"
    by (rule select_ipv6_effect
        [of P "udp_server_addr st" "st\<lparr>world := w, trace := trace st @ [Ev_socket AF_INET6 SOCK_DGRAM IPPROTO_UDP x]\<rparr>"])
      simp
  show ?thesis
    using assms
    by (auto simp: udp_setup_ipv6_def config_defs io_defs sock sel udp_fds_init_def numeral_2_eq_2
        udp_control_def udp_table_ok_def Let_def split: prod.splits if_splits)
qed

lemma udp_server_setup_effect:
  assumes "udp_server_setup P st = (ctl, fds, st')"
  shows "udp_control st' = udp_control st \<and> sessions st' = sessions st \<and>
    balance (trace st') fd = balance (trace st) fd + fds_open fds fd"
proof -
  obtain ctl1 fds1 st1 where four: "udp_setup_ipv4 P udp_fds_init st = (ctl1, fds1, st1)"
    by (metis prod_cases3)
  note v4 = udp_setup_ipv4_effect [OF four, of fd]
  then obtain p where p: "fds1 = [p, udp_fds_init ! 1]" by blast
  have "fds_open fds1 fd = fds_open [p] fd"
    by (simp add: p udp_fds_init_def)
  with assms four v4 p udp_setup_ipv6_effect [of P p st1 ctl fds st' fd] show ?thesis
    by (cases ctl1) (auto simp: udp_server_setup_def)
qed

section \<open>The lifecycle of the server\<close>

interpretation udp_ctl: server_control "zperf_udp_download P R" zperf_udp_download_stop
  udp_server_running udp_server_stop udp_session_cb "\<lambda>st. sem_count cnt (udp_server_run st)"
  "\<lambda>st. sem_laws R cnt cap \<and> sem_is_binary cap (udp_server_run st)" for P R cnt cap
proof (unfold_locales, goal_cases)
  case (1 prm cb ud st)
  then show ?case by (cases prm) (auto simp: zperf_udp_download_def)
next
  case (2 st p f ud)
  then show ?case by (simp add: zperf_udp_download_def)
next
  case (3 st p f ud)
  then obtain sem where "k_sem_give R (udp_server_run st) = Inr sem"
    by (auto simp: k_sem_give_def sem_is_binary_def split: option.splits)
  with 3 k_sem_give_count [of R cnt cap "udp_server_run st" sem] show ?case
    by (auto simp: zperf_udp_download_def Let_def)
qed (auto simp: zperf_udp_download_stop_def)

text \<open>
  The invariant of the server and its clients: the table is in order, the open descriptors are those
  of the poll array, and the semaphore counts the accepted and not yet started downloads.
\<close>

fun udp_phase_ok :: "('s \<Rightarrow> nat) \<Rightarrow> ('s \<Rightarrow> nat) \<Rightarrow> pollfd list server_pc \<times> ('w, 's) udp_server \<Rightarrow> bool" where
  "udp_phase_ok cnt cap (Server_created, st) \<longleftrightarrow>
     \<not> udp_server_running st \<and> udp_server_run st = K_SEM_DEFINE 0 1"
| "udp_phase_ok cnt cap (Server_waiting, st) \<longleftrightarrow>
     sem_is_binary cap (udp_server_run st) \<and>
     sem_count cnt (udp_server_run st) = of_bool (udp_server_running st)"
| "udp_phase_ok cnt cap (pc, st) \<longleftrightarrow>
     sem_is_binary cap (udp_server_run st) \<and> udp_server_running st \<and>
     sem_count cnt (udp_server_run st) = 0"

fun pc_open :: "pollfd list server_pc \<Rightarrow> int \<Rightarrow> int" where
  "pc_open (Server_polling fds) fd = fds_open fds fd"
| "pc_open _ fd = 0"

definition udp_inv :: "('s \<Rightarrow> nat) \<Rightarrow> ('s \<Rightarrow> nat) \<Rightarrow> pollfd list server_pc \<times> ('w, 's) udp_server \<Rightarrow> bool" where
  "udp_inv cnt cap c \<longleftrightarrow> udp_table_ok (snd c) \<and>
     (\<forall>fd. balance (trace (snd c)) fd = pc_open (fst c) fd) \<and> udp_phase_ok cnt cap c"

lemma udp_download_before_init:
  assumes "\<not> udp_server_running st" and "udp_server_run st = K_SEM_DEFINE 0 1"
  shows "zperf_udp_download P R (Some p) (Some f) ud st = Inl Null_pointer"
  using assms by (simp add: zperf_udp_download_def k_sem_give_def K_SEM_DEFINE_def Let_def)

lemma udp_download_frame:
  assumes "zperf_udp_download P R prm cb ud st = Inr (r, st')"
  shows "trace st' = trace st \<and> (udp_table_ok st' \<longleftrightarrow> udp_table_ok st)"
  using assms
  by (auto simp: zperf_udp_download_def Let_def udp_table_ok_def split: option.splits if_splits sum.splits)

lemma udp_stop_frame:
  assumes "zperf_udp_download_stop st = (r, st')"
  shows "trace st' = trace st \<and> (udp_table_ok st' \<longleftrightarrow> udp_table_ok st)"
  using assms by (auto simp: zperf_udp_download_stop_def udp_table_ok_def split: if_splits)

lemma udp_download_phase:
  assumes laws: "sem_laws R cnt cap" and ok: "udp_phase_ok cnt cap (pc, st)"
    and call: "zperf_udp_download P R prm cb ud st = Inr (r, st')"
  shows "udp_phase_ok cnt cap (pc, st')"
proof (cases pc)
  case Server_created
  with ok call udp_download_before_init [of st P R] show ?thesis
    by (cases prm; cases cb) (auto simp: zperf_udp_download_def)
next
  case Server_waiting
  with laws ok udp_ctl.waiting_download [OF _ _ call, of cnt cap] show ?thesis by simp
next
  case (Server_polling fds)
  with laws ok udp_ctl.serving_download [OF _ _ call, of cnt cap] show ?thesis by simp
next
  case Server_returned
  with laws ok udp_ctl.serving_download [OF _ _ call, of cnt cap] show ?thesis by simp
qed

lemma udp_stop_phase:
  assumes "udp_phase_ok cnt cap (pc, st)" and "zperf_udp_download_stop st = (r, st')"
  shows "udp_phase_ok cnt cap (pc, st')"
  using assms by (cases pc) (auto simp: zperf_udp_download_stop_def split: if_splits)

lemma udp_inv_initial: "udp_inv cnt cap (Server_created, udp_server_initial w)"
  using sessions_wf_init [OF sessions_wf_zero]
  by (auto simp: udp_inv_def udp_table_ok_def udp_server_initial_def zperf_session_init_def
      sessions_zero_def loss_balanced_reset)

lemma udp_inv_step:
  assumes "sem_laws R cnt cap" and "udp_step P R c c'" and "udp_inv cnt cap c"
  shows "udp_inv cnt cap c'"
  using assms(2)
proof (cases rule: udp_step.cases)
  case (init st sem)
  with assms show ?thesis
    by (auto simp: udp_inv_def udp_table_ok_def K_SEM_DEFINE_def dest: k_sem_init_count)
next
  case (start st sem fds st')
  with assms udp_server_setup_effect [OF start(4)] k_sem_take_count [OF assms(1) _ start(3)]
  show ?thesis
    by (auto simp: udp_inv_def udp_control_def udp_table_ok_def split: if_splits)
next
  case (start_failed st sem ctl fds st')
  with assms udp_server_setup_effect [OF start_failed(4)] k_sem_take_count [OF assms(1) _ start_failed(3)]
    udp_server_leave_effect [of P ctl fds st']
  show ?thesis
    by (auto simp: udp_inv_def udp_control_def udp_table_ok_def split: if_splits)
next
  case (turn fds st fds' st')
  with assms udp_server_turn_work [OF turn(3)] fds_open_cong [of fds' fds] show ?thesis
    by (auto simp: udp_inv_def udp_work_def udp_control_def)
next
  case (leave fds st ctl fds' st')
  with assms udp_server_turn_work [OF leave(3)] fds_open_cong [of fds' fds]
    udp_server_leave_effect [of P ctl fds' st']
  show ?thesis
    by (auto simp: udp_inv_def udp_work_def udp_control_def udp_table_ok_def)
next
  case (idle st)
  with assms show ?thesis by (auto simp: udp_inv_def udp_table_ok_def)
next
  case (download prm cb ud st r st' pc)
  with assms udp_download_frame [OF download(3)] udp_download_phase [OF assms(1) _ download(3)]
  show ?thesis by (simp add: udp_inv_def)
next
  case (stop st r st' pc)
  with assms udp_stop_frame [OF stop(3)] udp_stop_phase [OF _ stop(3)] show ?thesis
    by (simp add: udp_inv_def)
qed

lemma udp_reachable_inv:
  assumes "sem_laws R cnt cap" and "udp_reachable P R c"
  shows "udp_inv cnt cap c"
  using assms(2)
  by (induction rule: udp_reachable.induct)
    (blast intro: udp_inv_initial udp_inv_step [OF assms(1)])+

end
