(* ===== verification/Zperf_Udp_Properties.thy ===== *)
theory Zperf_Udp_Properties
  imports Zperf_Udp_Receiver
begin

text \<open>
  What the UDP server guarantees: in every reachable state of the server and its clients, for every
  packet the handler gets, and for the sequence of packets of a session.
\<close>

section \<open>A sequence of packets of one peer\<close>

fun udp_receive_all ::
  "'w platform \<Rightarrow> int \<Rightarrow> sockaddr \<Rightarrow> u8 list list \<Rightarrow> ('w, 's) udp_server \<Rightarrow> ('w, 's) udp_server faulty" where
  "udp_receive_all P sock addr [] st = Inr st"
| "udp_receive_all P sock addr (d # ds) st =
     (case udp_received P sock addr d (length d) st of Inl e \<Rightarrow> Inl e
      | Inr st' \<Rightarrow> udp_receive_all P sock addr ds st')"

definition data_packet :: "u8 list \<Rightarrow> bool" where
  "data_packet d \<longleftrightarrow> sizeof_udp_datagram \<le> length d \<and> 0 \<le> sint (dg_id (get_datagram d))"

definition udp_slot :: "('w, 's) udp_server \<Rightarrow> nat \<Rightarrow> session" where
  "udp_slot st i = sessions st ! proto_index SESSION_UDP ! i"

text \<open>The table is in order and slot \<open>i\<close> belongs to the peer.\<close>

definition udp_owns :: "('w, 's) udp_server \<Rightarrow> sockaddr \<Rightarrow> nat \<Rightarrow> bool" where
  "udp_owns st addr i \<longleftrightarrow> sessions_wf (sessions st) \<and> i < SESSION_MAX \<and> peer_of (udp_slot st i) = Some addr"

lemma udp_owns_get:
  "udp_owns st addr i \<Longrightarrow> get_session addr SESSION_UDP (sessions st) = (Some i, sessions st)"
  using sessions_wf_row [of "sessions st" SESSION_UDP]
  by (intro udp_tab.get_known) (auto simp: udp_owns_def udp_slot_def)

lemma udp_owned_packet:
  assumes "udp_owns st addr i" and "sizeof_udp_datagram \<le> n"
    and "xTaskGetTickCount P (world st) = (t, w)"
  shows "udp_received P sock addr data n st =
    udp_slot_result P sock addr data n (ucast t) i (st\<lparr>world := w\<rparr>)"
  using udp_received_slot [OF assms(2,3) udp_owns_get [OF assms(1)]] by simp

lemma udp_owns_put:
  assumes "udp_owns st addr i" and "peer_of s = Some addr"
  shows "udp_owns (udp_put i s st) addr i" and "udp_slot (udp_put i s st) i = s"
proof -
  have len: "proto_index SESSION_UDP < length (sessions st)" "i < length (sessions st ! 0)"
    using assms(1) sessions_wf_row [of "sessions st" SESSION_UDP]
    by (auto simp: udp_owns_def sessions_wf_def)
  then show slot: "udp_slot (udp_put i s st) i = s"
    using row_put_session [OF len(1), of i s] by (simp add: udp_slot_def udp_put_def)
  have "sessions_wf (sessions (udp_put i s st))"
    using assms by (simp add: udp_put_def udp_owns_def udp_slot_def udp_tab.inv_put_same_peer)
  with slot assms show "udp_owns (udp_put i s st) addr i" by (simp add: udp_owns_def)
qed

lemma udp_slot_put:
  assumes "udp_owns st addr i"
  shows "udp_slot (udp_put i s (st\<lparr>world := w\<rparr>)) i = s \<and>
    (\<forall>j. j \<noteq> i \<longrightarrow> udp_slot (udp_put i s (st\<lparr>world := w\<rparr>)) j = udp_slot st j)"
proof -
  have len: "proto_index SESSION_UDP < length (sessions st)" "i < length (sessions st ! 0)"
    using assms(1) sessions_wf_row [of "sessions st" SESSION_UDP]
    by (auto simp: udp_owns_def sessions_wf_def)
  then show ?thesis
    using row_put_session [OF len(1), of i s] by (simp add: udp_slot_def udp_put_def)
qed

lemma map_zip_packets:
  "length ts = length ds \<Longrightarrow>
   map (\<lambda>(t, h, n). f h n) (zip ts (map (\<lambda>d. (g d, k d)) ds)) = map (\<lambda>d. f (g d) (k d)) ds"
  by (induction ts ds rule: list_induct2) simp_all

lemma udp_data_packet_step:
  assumes "udp_owns st addr i" and "ses_state (udp_slot st i) = STATE_ONGOING" and "data_packet d"
  obtains t w where "udp_received P sock addr d (length d) st =
    Inr (udp_put i (udp_session_packet P t (get_datagram d) (length d) (udp_slot st i)) (st\<lparr>world := w\<rparr>))"
proof -
  obtain t w where tick: "xTaskGetTickCount P (world st) = (t, w)" by fastforce
  from assms show thesis
    using udp_owned_packet [OF assms(1) _ tick, of "length d" sock d]
    by (intro that [of "ucast t" w])
      (simp add: udp_slot_result_def udp_slot_def data_packet_def not_less [symmetric])
qed

text \<open>
  Data packets of a session that is under way: the slot runs through the packets, everything else
  but the clock stays.
\<close>

lemma udp_receive_all_run:
  assumes "udp_owns st addr i" and "ses_state (udp_slot st i) = STATE_ONGOING"
    and "\<forall>d \<in> set ds. data_packet d"
  shows "\<exists>ts w. length ts = length ds \<and> udp_receive_all P sock addr ds st =
    Inr (udp_put i (udp_session_run P (zip ts (map (\<lambda>d. (get_datagram d, length d)) ds)) (udp_slot st i))
      (st\<lparr>world := w\<rparr>))"
  using assms
proof (induction ds arbitrary: st)
  case Nil
  then show ?case
    by (intro exI [of _ "[]"] exI [of _ "world st"]) (simp add: udp_slot_def)
next
  case (Cons d ds)
  obtain t w where step: "udp_received P sock addr d (length d) st =
      Inr (udp_put i (udp_session_packet P t (get_datagram d) (length d) (udp_slot st i)) (st\<lparr>world := w\<rparr>))"
    by (rule udp_data_packet_step [of st addr i d]) (use Cons.prems in auto)
  let ?s1 = "udp_session_packet P t (get_datagram d) (length d) (udp_slot st i)"
  let ?st1 = "udp_put i ?s1 (st\<lparr>world := w\<rparr>)"
  have peer: "peer_of ?s1 = Some addr"
    using Cons.prems(1) peer_of_cong [of ?s1 "udp_slot st i"]
    by (simp add: udp_owns_def session_simps)
  have own: "udp_owns (st\<lparr>world := w\<rparr>) addr i"
    using Cons.prems(1) by (simp add: udp_owns_def udp_slot_def)
  from Cons.IH [of ?st1] Cons.prems udp_owns_put [OF own peer]
  obtain ts w' where "length ts = length ds" and "udp_receive_all P sock addr ds ?st1 =
      Inr (udp_put i (udp_session_run P (zip ts (map (\<lambda>d. (get_datagram d, length d)) ds)) ?s1)
        (?st1\<lparr>world := w'\<rparr>))"
    by (auto simp: session_simps)
  with step own show ?case
    by (intro exI [of _ "t # ts"] exI [of _ w'])
      (simp add: udp_put_def udp_owns_def sessions_wf_def)
qed

section \<open>The handler on every packet\<close>

lemma udp_slot_result_fault_iff:
  "udp_slot_result P sock addr data n time i st = Inl e \<longleftrightarrow> e = Division_by_zero \<and>
     ses_state (sessions st ! 0 ! i) = STATE_ONGOING \<and> sint (dg_id (get_datagram data)) < 0 \<and>
     ses_counter (sessions st ! 0 ! i) = 0"
  by (auto simp: udp_slot_result_def udp_session_results_def Let_def)

lemma udp_received_faults:
  "udp_received P sock addr data n st = Inl e \<longleftrightarrow> e = Division_by_zero \<and> sizeof_udp_datagram \<le> n \<and>
     (\<exists>i ss. get_session addr SESSION_UDP (sessions st) = (Some i, ss) \<and>
        ses_state (ss ! 0 ! i) = STATE_ONGOING \<and> sint (dg_id (get_datagram data)) < 0 \<and>
        ses_counter (ss ! 0 ! i) = 0)"
proof (cases "n < sizeof_udp_datagram")
  case True
  then show ?thesis by (simp add: udp_received_def)
next
  case False
  then have n: "sizeof_udp_datagram \<le> n" by simp
  obtain t w where tick: "xTaskGetTickCount P (world st) = (t, w)" by fastforce
  obtain ptr ss where get: "get_session addr SESSION_UDP (sessions st) = (ptr, ss)" by fastforce
  show ?thesis
  proof (cases ptr)
    case None
    with get udp_received_no_slot [OF n tick] show ?thesis by simp
  next
    case (Some i)
    with get n udp_received_slot [OF n tick] show ?thesis by (simp add: udp_slot_result_fault_iff)
  qed
qed

lemma send_stat_put:
  "snd (zperf_receiver_send_stat P sock addr data x (udp_put i s st)) =
     udp_put i s (snd (zperf_receiver_send_stat P sock addr data x st))"
  by (cases st) (simp add: zperf_receiver_send_stat_def zsock_sendto_def udp_put_def split: prod.split)

lemma udp_finish_packet:
  assumes "udp_owns st addr i" and "ses_state (udp_slot st i) = STATE_ONGOING"
    and "ses_counter (udp_slot st i) \<noteq> 0" and "sizeof_udp_datagram \<le> n"
    and "sint (dg_id (get_datagram data)) < 0" and "xTaskGetTickCount P (world st) = (t, w)"
  defines "duration \<equiv> k_ticks_to_us_ceil32 P (ucast (ucast t - ses_start_time (udp_slot st i)))"
  shows "\<exists>res r w'. udp_session_results (udp_slot st i) duration = Inr res \<and>
    udp_received P sock addr data n st =
      Inr (call_session_cb (udp_session_cb st) ZPERF_SESSION_FINISHED (Some res) (udp_user_data st)
        (udp_put i ((udp_slot st i)\<lparr>ses_state := STATE_COMPLETED,
                                   ses_stat := udp_fill_stat (udp_slot st i) duration\<rparr>)
          (st\<lparr>world := w', trace := trace st @ [Ev_sendto sock
             (build_reply data (udp_fill_stat (udp_slot st i) duration) (replicate BUF_SIZE 0)) addr r]\<rparr>)))"
proof -
  let ?s = "udp_slot st i" and ?reply = "build_reply data (udp_fill_stat (udp_slot st i) duration) (replicate BUF_SIZE 0)"
  obtain r w' where send: "lwip_sendto P sock ?reply addr w = (r, w')" by fastforce
  obtain res where "udp_session_results ?s duration = Inr res"
    using assms(3) by (simp add: udp_session_results_def)
  moreover have "snd (zperf_receiver_send_stat P sock addr data (udp_fill_stat ?s duration) (st\<lparr>world := w\<rparr>)) =
      st\<lparr>world := w', trace := trace st @ [Ev_sendto sock ?reply addr r]\<rparr>"
    using send by (simp add: zperf_receiver_send_stat_def zsock_sendto_def)
  moreover have "sessions st ! 0 ! i = ?s" by (simp add: udp_slot_def)
  ultimately show ?thesis
    using udp_owned_packet [OF assms(1,4,6), of sock data] assms(2,5)
    by (intro exI [of _ res] exI [of _ r] exI [of _ w'])
      (simp add: udp_slot_result_def Let_def duration_def [symmetric] send_stat_put)
qed

lemma udp_free_slot_packet:
  assumes "session_free (udp_slot st i)" and "sint (dg_id (get_datagram data)) < 0"
  shows "\<exists>r w. udp_slot_result P sock addr data n time i st =
    Inr (st\<lparr>world := w, trace := trace st @
      [Ev_sendto sock (build_reply data (ses_stat (udp_slot st i)) (replicate BUF_SIZE 0)) addr r]\<rparr>)"
proof -
  have "ses_state (sessions st ! 0 ! i) \<noteq> STATE_ONGOING"
    and "ses_state (sessions st ! 0 ! i) \<noteq> STATE_LAST_PACKET_RECEIVED"
    using assms(1) by (auto simp: session_free_def udp_slot_def)
  with assms(2) show ?thesis
    by (auto simp: udp_slot_result_def zperf_receiver_send_stat_def zsock_sendto_def udp_slot_def Let_def
        split: prod.split)
qed

text \<open>Packets whose numbers ascend are never late, and the last one decides the next expected number.\<close>

lemma udp_session_run_ascending:
  assumes "sorted_wrt (<) (map (\<lambda>(t, h, n). unat (dg_id h)) ps)"
    and "\<forall>(t, h, n) \<in> set ps. unat (ses_next_id s) \<le> unat (dg_id h) \<and> unat (dg_id h) < 2 ^ 31"
  shows "ses_outorder (udp_session_run P ps s) = ses_outorder s \<and> ses_next_id (udp_session_run P ps s) =
    (if ps = [] then ses_next_id s else dg_id (fst (snd (last ps))) + 1)"
  using assms
proof (induction ps arbitrary: s)
  case Nil
  then show ?case by simp
next
  case (Cons p ps)
  obtain t h n where p: "p = (t, h, n)" by (metis prod_cases3)
  let ?s = "udp_session_packet P t h n s"
  have "ses_next_id s \<le> dg_id h" using Cons.prems(2) by (simp add: p word_le_nat_alt)
  then have s: "ses_next_id ?s = dg_id h + 1 \<and> ses_outorder ?s = ses_outorder s"
    by (auto simp: udp_session_packet_def udp_update_id_def session_simps Let_def)
  have "unat (dg_id h + 1) = Suc (unat (dg_id h))" using Cons.prems(2) by (simp add: p unat_word_ariths)
  then have "\<forall>(t, h, n) \<in> set ps. unat (ses_next_id ?s) \<le> unat (dg_id h) \<and> unat (dg_id h) < 2 ^ 31"
    using Cons.prems s by (fastforce simp: p)
  with Cons.IH [of ?s] Cons.prems(1) s show ?case by (simp add: p)
qed

section \<open>A concrete session\<close>

text \<open>A server with one ongoing session of one peer, and packets of 20 bytes, for the witnesses.\<close>

definition demo_peer :: sockaddr where
  "demo_peer = Sockaddr_in 9 7"

definition demo_session :: session where
  "demo_session = (zperf_reset_session_stats session_zero)
     \<lparr>ses_port := 9, ses_ip := Net_in 7, ses_state := STATE_ONGOING\<rparr>"

definition demo_udp_server :: "session \<Rightarrow> (demo_world, nat \<times> nat) udp_server" where
  "demo_udp_server s = udp_put 0 s (udp_server_initial demo_start)"

definition demo_packet :: "u32 \<Rightarrow> u8 list" where
  "demo_packet i = put_datagram \<lparr>dg_id = i, dg_tv_sec = 0, dg_tv_usec = 0\<rparr> (replicate 20 0)"

lemma demo_slot: "udp_slot (demo_udp_server s) 0 = s"
  by (simp add: udp_slot_def demo_udp_server_def udp_put_def put_session_def udp_server_initial_def
      zperf_session_init_def sessions_zero_def)

lemma demo_owns_any:
  assumes "peer_of s = Some a"
  shows "udp_owns (demo_udp_server s) a 0"
proof -
  let ?ss = "zperf_session_init sessions_zero"
  have wf: "sessions_wf ?ss" by (rule sessions_wf_init [OF sessions_wf_zero])
  have "peer_of (?ss ! 0 ! j) = None" if "j < SESSION_MAX" for j
    using that by (simp add: zperf_session_init_def sessions_zero_def session_zero_def peer_of_def
        zperf_reset_session_stats_def)
  then have "peers_unique ((?ss ! 0)[0 := s])"
    using sessions_wf_row [OF wf, of SESSION_UDP] assms by (intro peers_unique_update) simp_all
  then have "sessions_wf (put_session SESSION_UDP 0 s ?ss)"
    using wf by (intro sessions_wf_put) simp_all
  with assms demo_slot [of s] show ?thesis
    by (simp add: udp_owns_def demo_udp_server_def udp_put_def udp_server_initial_def)
qed

lemma demo_owns: "udp_owns (demo_udp_server demo_session) demo_peer 0"
  by (rule demo_owns_any) (simp add: demo_session_def demo_peer_def peer_of_def)

lemma demo_packet_id: "get_datagram (demo_packet i) = \<lparr>dg_id = i, dg_tv_sec = 0, dg_tv_usec = 0\<rparr>"
  by (simp add: demo_packet_def dgram.read_write)

lemma demo_packet_length: "length (demo_packet i) = 20"
  by (simp add: demo_packet_def dgram.length_write)

section \<open>Properties\<close>

text \<open>
  C1. In every state the server, its clients and the network can reach, the session table is well
  formed (two rows of four slots, no two slots of a row with the same peer) and the statistics of
  every UDP slot balance: the next expected number is one plus the lost packets plus the received
  packets that were not late.
\<close>

theorem udp_server_invariant:
  assumes "sem_laws R cnt cap" and "udp_reachable P R (pc, st)"
  shows "sessions_wf (sessions st) \<and> (\<forall>s \<in> set (sessions st ! proto_index SESSION_UDP).
    ses_next_id s = 1 + ses_error s + (ses_counter s - ses_outorder s))"
  using udp_reachable_inv [OF assms] by (simp add: udp_inv_def udp_table_ok_def loss_balanced_def)

theorem udp_server_invariant_witness:
  "sessions_wf (sessions (udp_server_initial demo_start :: (demo_world, nat \<times> nat) udp_server))"
  using udp_server_invariant
    [OF demo_sem_laws udp_reachable.start_state [of demo_platform demo_rtos demo_start]]
  by (rule conjunct1)

text \<open>
  The descriptors that are open in a reachable state are exactly the ones in the poll array of a
  running session; before, between and after sessions, whether a session ended by a stop, an error
  or a failed set-up, every socket the server opened is closed.
\<close>

lemma udp_sockets_closed:
  assumes "sem_laws R cnt cap" and "udp_reachable P R (pc, st)"
  shows "balance (trace st) fd = (case pc of Server_polling fds \<Rightarrow> fds_open fds fd | _ \<Rightarrow> 0)"
  using udp_reachable_inv [OF assms] by (cases pc) (simp_all add: udp_inv_def)

text \<open>
  The life cycle of the server: while its thread waits, the semaphore has a unit exactly when a
  download has been accepted; while it serves, it is marked running and the semaphore is empty, so
  no second session is queued.
\<close>

lemma udp_server_lifecycle:
  assumes "sem_laws R cnt cap" and "udp_reachable P R (pc, st)"
  shows "case pc of Server_created \<Rightarrow> \<not> udp_server_running st
    | Server_waiting \<Rightarrow> sem_count cnt (udp_server_run st) = of_bool (udp_server_running st)
    | _ \<Rightarrow> udp_server_running st \<and> sem_count cnt (udp_server_run st) = 0"
  using udp_reachable_inv [OF assms] by (cases pc) (simp_all add: udp_inv_def)

text \<open>
  C38. In a reachable state a call of \<open>zperf_udp_download\<close> with proper arguments fails to return, by
  giving a semaphore that has no handle yet, exactly as long as the server thread has not run
  \<open>k_sem_init\<close>.
\<close>

theorem udp_download_fault_iff:
  assumes "sem_laws R cnt cap" and "udp_reachable P R (pc, st)"
  shows "zperf_udp_download P R (Some p) (Some f) ud st = Inl Null_pointer \<longleftrightarrow> pc = Server_created"
proof (cases "pc = Server_created")
  case True
  with udp_reachable_inv [OF assms] show ?thesis
    by (simp add: udp_inv_def udp_download_before_init)
next
  case False
  with udp_reachable_inv [OF assms] have "sem_is_binary cap (udp_server_run st)"
    by (cases pc) (simp_all add: udp_inv_def)
  with assms(1) udp_ctl.download_returns [of R cnt cap st P "Some p" "Some f" ud] False show ?thesis
    by auto
qed

theorem udp_download_fault_iff_witness:
  "zperf_udp_download demo_platform demo_rtos (Some \<lparr>dp_port = 5001, dp_addr = Sockaddr_other 0\<rparr>) (Some 1) 0
     (udp_server_initial demo_start) = Inl Null_pointer"
  using udp_download_fault_iff
    [OF demo_sem_laws udp_reachable.start_state [of demo_platform demo_rtos demo_start]]
  by blast


text \<open>
  C2. Data packets of an ongoing session are all counted: the handler returns, the packet and byte
  counters grow by the number of packets and by their sizes, the next expected number is one more
  than the largest number seen, the lost and the late packets balance, and no other slot changes.
\<close>

theorem udp_data_packets_counted:
  assumes "udp_owns st addr i" and "ses_state (udp_slot st i) = STATE_ONGOING"
    and "loss_balanced (udp_slot st i)" and "\<forall>d \<in> set ds. data_packet d"
  shows "\<exists>st'. udp_receive_all P sock addr ds st = Inr st' \<and>
    ses_state (udp_slot st' i) = STATE_ONGOING \<and>
    ses_counter (udp_slot st' i) = ses_counter (udp_slot st i) + of_nat (length ds) \<and>
    ses_length (udp_slot st' i) = ses_length (udp_slot st i) + of_nat (sum_list (map length ds)) \<and>
    unat (ses_next_id (udp_slot st' i)) =
      fold max (map (\<lambda>d. Suc (unat (dg_id (get_datagram d)))) ds) (unat (ses_next_id (udp_slot st i))) \<and>
    ses_next_id (udp_slot st' i) = 1 + ses_error (udp_slot st' i) +
      (ses_counter (udp_slot st' i) - ses_outorder (udp_slot st' i)) \<and>
    (\<forall>j. j \<noteq> i \<longrightarrow> udp_slot st' j = udp_slot st j)"
proof -
  let ?run = "\<lambda>ts. udp_session_run P (zip ts (map (\<lambda>d. (get_datagram d, length d)) ds)) (udp_slot st i)"
  from udp_receive_all_run [OF assms(1,2,4)] obtain ts w where len: "length ts = length ds"
    and run: "udp_receive_all P sock addr ds st = Inr (udp_put i (?run ts) (st\<lparr>world := w\<rparr>))" by blast
  have ids: "\<forall>(t, h, n) \<in> set (zip ts (map (\<lambda>d. (get_datagram d, length d)) ds)). unat (dg_id h) < 2 ^ 31"
    using assms(4) by (auto simp: data_packet_def sint_nonneg_iff dest!: set_zip_rightD)
  show ?thesis
    using run udp_slot_put [OF assms(1), of "?run ts" w] assms(2)
      udp_session_run_counts [of P "zip ts (map (\<lambda>d. (get_datagram d, length d)) ds)" "udp_slot st i"]
      udp_session_run_next [OF ids, of P "udp_slot st i"]
      udp_session_run_loss [OF assms(3), of P "zip ts (map (\<lambda>d. (get_datagram d, length d)) ds)"]
    by (simp add: map_zip_packets [OF len] len loss_balanced_def)
qed

theorem udp_data_packets_counted_witness:
  "\<exists>st'. udp_receive_all demo_platform 3 demo_peer [demo_packet 1, demo_packet 3]
      (demo_udp_server demo_session) = Inr st' \<and>
    ses_counter (udp_slot st' 0) = 2 \<and> ses_length (udp_slot st' 0) = 40 \<and> unat (ses_next_id (udp_slot st' 0)) = 4"
proof -
  have "loss_balanced demo_session" and "ses_state demo_session = STATE_ONGOING"
    by (simp_all add: demo_session_def loss_balanced_def zperf_reset_session_stats_def)
  moreover have "\<forall>d \<in> set [demo_packet 1, demo_packet 3]. data_packet d"
    by (simp add: data_packet_def demo_packet_id demo_packet_length sizeof_defs)
  ultimately show ?thesis
    using udp_data_packets_counted [OF demo_owns, of "[demo_packet 1, demo_packet 3]" demo_platform 3]
    by (auto simp: demo_slot demo_packet_id demo_packet_length demo_session_def
        zperf_reset_session_stats_def session_zero_def)
qed

text \<open>
  C3. The end packet of a session with at least one counted packet completes it: the report with the
  session's statistics is sent to the peer, the slot is marked completed and keeps the report, and
  the application gets the results.
\<close>

theorem udp_session_finished:
  assumes "udp_owns st addr i" and "ses_state (udp_slot st i) = STATE_ONGOING"
    and "ses_counter (udp_slot st i) \<noteq> 0" and "sizeof_udp_datagram \<le> n"
    and "sint (dg_id (get_datagram data)) < 0" and "xTaskGetTickCount P (world st) = (t, w)"
  shows "\<exists>duration res r w'.
    duration = k_ticks_to_us_ceil32 P (ucast ((ucast t :: u64) - ses_start_time (udp_slot st i))) \<and>
    udp_session_results (udp_slot st i) duration = Inr res \<and>
    udp_received P sock addr data n st =
      Inr (call_session_cb (udp_session_cb st) ZPERF_SESSION_FINISHED (Some res) (udp_user_data st)
        (udp_put i ((udp_slot st i)\<lparr>ses_state := STATE_COMPLETED,
                                   ses_stat := udp_fill_stat (udp_slot st i) duration\<rparr>)
          (st\<lparr>world := w', trace := trace st @ [Ev_sendto sock
             (build_reply data (udp_fill_stat (udp_slot st i) duration) (replicate BUF_SIZE 0)) addr r]\<rparr>)))"
  using udp_finish_packet [OF assms, of sock] by blast

theorem udp_session_finished_witness:
  "\<exists>st'. udp_received demo_platform 3 demo_peer (demo_packet (- 2)) 20
     (demo_udp_server (demo_session\<lparr>ses_counter := 1\<rparr>)) = Inr st'"
proof -
  let ?s = "demo_session\<lparr>ses_counter := 1\<rparr>"
  have "udp_owns (demo_udp_server ?s) demo_peer 0"
    by (rule demo_owns_any) (simp add: demo_session_def demo_peer_def peer_of_def)
  moreover have "ses_state ?s = STATE_ONGOING" by (simp add: demo_session_def)
  ultimately show ?thesis
    using udp_session_finished [of "demo_udp_server ?s" demo_peer 0 20 "demo_packet (- 2)" demo_platform
        "fst (xTaskGetTickCount demo_platform (world (demo_udp_server ?s)))"
        "snd (xTaskGetTickCount demo_platform (world (demo_udp_server ?s)))" 3]
    by (auto simp: demo_slot demo_packet_id sizeof_defs)
qed

text \<open>
  C4. The report survives the wire: what the client decodes from the reply is what the server gave to
  its application, for sessions of less than \<open>2\<^sup>3\<^sup>2 - 1\<close> bytes (the reply does not carry the packet
  size).
\<close>

theorem udp_report_round_trip:
  assumes "udp_session_results s duration = Inr res" and "ses_length s < 0xFFFFFFFF"
    and "sizeof_udp_datagram \<le> length data"
  shows "zperf_upload_decode_stat (build_reply data (udp_fill_stat s duration) (replicate BUF_SIZE 0))
    BUF_SIZE results_zero = res\<lparr>packet_size := 0\<rparr>"
proof -
  have "ses_length s mod 0xFFFFFFFF = ses_length s"
    using assms(2) by (simp add: mod_word_less)
  moreover have "duration mod 1000000 + duration div 1000000 * 1000000 = duration"
    by (rule mod_div_mult_eq)
  moreover have "get_server_hdr (build_reply data (udp_fill_stat s duration) (replicate BUF_SIZE 0)) =
      udp_fill_stat s duration"
    using assms(3) by (intro get_server_hdr_build_reply) (simp_all add: sizeof_defs BUF_SIZE_def)
  ultimately show ?thesis
    using assms(1)
    by (auto simp: zperf_upload_decode_stat_def udp_fill_stat_def udp_session_results_def
        results_zero_def split: if_splits)
qed

theorem udp_report_round_trip_witness:
  "nb_packets_rcvd (zperf_upload_decode_stat (build_reply (demo_packet 5)
     (udp_fill_stat (demo_session\<lparr>ses_counter := 1\<rparr>) 7) (replicate BUF_SIZE 0)) BUF_SIZE results_zero) = 1"
proof -
  obtain res where res: "udp_session_results (demo_session\<lparr>ses_counter := 1\<rparr>) 7 = Inr res"
    and "nb_packets_rcvd res = 1"
    by (simp add: udp_session_results_def)
  then show ?thesis
    using udp_report_round_trip [OF res, of "demo_packet 5"]
    by (simp add: demo_session_def zperf_reset_session_stats_def session_zero_def demo_packet_length
        sizeof_defs)
qed

text \<open>
  A client that did not get the report can ask again: an end packet of the peer of a completed
  session is answered with the stored report, and neither the table nor the application sees it.
\<close>

theorem udp_report_resent:
  assumes "udp_owns st addr i" and "ses_state (udp_slot st i) = STATE_COMPLETED"
    and "sizeof_udp_datagram \<le> n" and "sint (dg_id (get_datagram data)) < 0"
  shows "\<exists>r w. udp_received P sock addr data n st =
    Inr (st\<lparr>world := w, trace := trace st @
      [Ev_sendto sock (build_reply data (ses_stat (udp_slot st i)) (replicate BUF_SIZE 0)) addr r]\<rparr>)"
proof -
  obtain t w where tick: "xTaskGetTickCount P (world st) = (t, w)" by fastforce
  have "session_free (udp_slot (st\<lparr>world := w\<rparr>) i)"
    using assms(2) by (simp add: session_free_def udp_slot_def)
  from udp_free_slot_packet [OF this assms(4)] udp_owned_packet [OF assms(1,3) tick]
  show ?thesis by (simp add: udp_slot_def)
qed

theorem udp_report_resent_witness:
  "\<exists>st'. udp_received demo_platform 3 demo_peer (demo_packet (- 2)) 20
     (demo_udp_server (demo_session\<lparr>ses_state := STATE_COMPLETED\<rparr>)) = Inr st' \<and> length (trace st') = 1"
proof -
  let ?s = "demo_session\<lparr>ses_state := STATE_COMPLETED\<rparr>"
  have "udp_owns (demo_udp_server ?s) demo_peer 0"
    by (rule demo_owns_any) (simp add: demo_session_def demo_peer_def peer_of_def)
  moreover have "trace (demo_udp_server ?s) = []"
    by (simp add: demo_udp_server_def udp_put_def udp_server_initial_def)
  ultimately show ?thesis
    using udp_report_resent [of "demo_udp_server ?s" demo_peer 0 20 "demo_packet (- 2)" demo_platform 3]
    by (auto simp: demo_slot demo_packet_id sizeof_defs)
qed

text \<open>
  C37. A peer the table does not know whose first packet is an end packet takes over the first free
  slot and is answered with the report stored there, which belongs to the previous peer of the slot.
\<close>

theorem udp_stale_report:
  assumes "sessions_wf (sessions st)"
    and "\<forall>s \<in> set (sessions st ! 0). peer_of s \<noteq> Some addr"
    and "find_index session_free (sessions st ! 0) = Some i"
    and "sizeof_udp_datagram \<le> n" and "sint (dg_id (get_datagram data)) < 0"
  shows "\<exists>r w. udp_received P sock addr data n st =
    Inr (st\<lparr>world := w, trace := trace st @
        [Ev_sendto sock (build_reply data (ses_stat (udp_slot st i)) (replicate BUF_SIZE 0)) addr r],
      sessions := put_session SESSION_UDP i (session_claim addr (udp_slot st i)) (sessions st)\<rparr>)"
proof -
  obtain t w where tick: "xTaskGetTickCount P (world st) = (t, w)" by fastforce
  let ?s = "session_claim addr (udp_slot st i)"
  let ?ss = "put_session SESSION_UDP i ?s (sessions st)"
  have get: "get_session addr SESSION_UDP (sessions st) = (Some i, ?ss)"
    using assms(2,3) find_index_None_iff [of "\<lambda>s. peer_of s = Some addr" "sessions st ! 0"]
    by (simp add: get_session_spec Let_def udp_slot_def)
  let ?st = "st\<lparr>world := w, sessions := ?ss\<rparr>"
  have i: "i < length (sessions st ! 0)" "session_free (udp_slot st i)"
    using find_index_SomeD [OF assms(3)] by (simp_all add: udp_slot_def)
  then have slot: "udp_slot ?st i = ?s"
    using assms(1) row_put_session [of SESSION_UDP "sessions st" i ?s]
    by (simp add: udp_slot_def sessions_wf_def)
  have claim: "session_free ?s = session_free (udp_slot st i)" "ses_stat ?s = ses_stat (udp_slot st i)"
    by (simp_all add: session_claim_def session_free_def split: sockaddr.split)
  have "session_free (udp_slot ?st i)" using slot claim(1) i by simp
  from udp_free_slot_packet [OF this assms(5), of P sock addr n "ucast t"] obtain r w' where
    "udp_received P sock addr data n st = Inr (?st\<lparr>world := w', trace := trace ?st @
      [Ev_sendto sock (build_reply data (ses_stat (udp_slot ?st i)) (replicate BUF_SIZE 0)) addr r]\<rparr>)"
    using udp_received_slot [OF assms(4) tick get] by auto
  then show ?thesis
    unfolding slot claim(2) by (intro exI [of _ r] exI [of _ w']) (cases st, simp)
qed

theorem udp_stale_report_witness:
  "\<exists>st'. udp_received demo_platform 3 (Sockaddr_in 9 8) (demo_packet (- 2)) 20
     (demo_udp_server (demo_session\<lparr>ses_state := STATE_COMPLETED\<rparr>)) = Inr st' \<and> length (trace st') = 1"
proof -
  let ?s = "demo_session\<lparr>ses_state := STATE_COMPLETED\<rparr>"
  have own: "udp_owns (demo_udp_server ?s) demo_peer 0"
    by (rule demo_owns_any) (simp add: demo_session_def demo_peer_def peer_of_def)
  have row: "sessions (demo_udp_server ?s) ! 0 = ?s # replicate 3 (zperf_reset_session_stats session_zero)"
    by (simp add: demo_udp_server_def udp_put_def put_session_def udp_server_initial_def
        zperf_session_init_def sessions_zero_def session_zero_def numeral_eq_Suc)
  have "\<forall>s \<in> set (sessions (demo_udp_server ?s) ! 0). peer_of s \<noteq> Some (Sockaddr_in 9 8)"
    unfolding row by (simp add: demo_session_def session_zero_def peer_of_def zperf_reset_session_stats_def)
  moreover have "find_index session_free (sessions (demo_udp_server ?s) ! 0) = Some 0"
    unfolding row by (simp add: session_free_def)
  moreover have "trace (demo_udp_server ?s) = []"
    by (simp add: demo_udp_server_def udp_put_def udp_server_initial_def)
  ultimately show ?thesis
    using udp_stale_report [of "demo_udp_server ?s" "Sockaddr_in 9 8" 0 20 "demo_packet (- 2)" demo_platform 3]
      own
    by (auto simp: udp_owns_def demo_packet_id sizeof_defs)
qed



text \<open>
  C33. Stopping a running server ends its session at the next turn of the loop: if the poll does not
  fail, the turn leaves without serving a packet, and what the session still does is to close its
  sockets; the callback, which the stop removed, is not called.
\<close>

theorem udp_stop_ends_session:
  assumes "udp_server_running st" and "lwip_poll P fds POLL_TIMEOUT_MS (world st) = (n, rv, w)" and "0 \<le> n"
  shows "\<exists>st1 fds' st2. zperf_udp_download_stop st = (0, st1) \<and>
    udp_server_turn P fds st1 = Inr (Server_cleanup, fds', st2) \<and>
    trace (udp_server_leave P Server_cleanup fds' st2) =
      trace st @ Ev_poll n # map Ev_close (filter (\<lambda>fd. 0 \<le> fd) (map pfd_fd fds))"
proof -
  obtain r fds' st2 where poll: "zsock_poll P fds POLL_TIMEOUT_MS
      (st\<lparr>udp_server_stop := True, udp_session_cb := None\<rparr>) = (r, fds', st2)"
    by (metis prod_cases3)
  from poll_fds [OF poll] poll assms show ?thesis
    by (auto simp: zperf_udp_download_stop_def udp_server_turn_def udp_server_leave_def close_fds_trace
        zsock_poll_def)
qed

theorem udp_stop_ends_session_witness:
  "\<exists>st1. zperf_udp_download_stop ((demo_udp_server demo_session)\<lparr>udp_server_running := True\<rparr>) = (0, st1)"
  using udp_stop_ends_session [of "(demo_udp_server demo_session)\<lparr>udp_server_running := True\<rparr>"
      demo_platform udp_fds_init 0 "\<lambda>i. no_revents" demo_start]
  by (auto simp: demo_platform_def demo_udp_server_def udp_put_def udp_server_initial_def demo_start_def
      no_revents_def)

end
