(* ===== verification/Zperf_Udp_Uploader.thy ===== *)
theory Zperf_Udp_Uploader
  imports Zperf_Demo_Platform Zperf_Wire
begin

text \<open>
  The UDP uploader of \<^verbatim>\<open>zperf_udp_uploader.c\<close>: the paced sending loop, the end packet with its
  statistics exchange, and \<open>zperf_udp_upload\<close>.

  Two loops of the code end only if the platform lets them: the sending loop runs until the clock
  reaches the end time, the drain loop until nothing is left to receive. Each is a
  \<open>partial_function\<close> into \<open>option\<close> that is \<open>None\<close> if it runs forever; under the laws \<open>clock_laws\<close>
  and \<open>drain_laws\<close> of the platform they are shown to return.
\<close>

section \<open>State\<close>

record 'w udp_uploader = "'w io_state" +
  sample_packet :: "u8 list"

definition sizeof_sample_packet :: nat where
  "sizeof_sample_packet = sizeof_udp_datagram + sizeof_client_hdr_v1 + PACKET_SIZE_MAX"

lemma sizeof_sample_packet_eq [simp]: "sizeof_sample_packet = 1060"
  by (simp add: sizeof_sample_packet_def sizeof_defs PACKET_SIZE_MAX_def)

section \<open>The end of an upload\<close>

text \<open>Lines 72 to 91: the end packet; its number is the negated number of packets.\<close>

definition fill_fin_packet :: "u32 \<Rightarrow> u32 \<Rightarrow> u32 \<Rightarrow> u32 \<Rightarrow> u8 list \<Rightarrow> u8 list" where
  "fill_fin_packet nb_packets secs usecs psize buf =
     put_client_hdr \<lparr>ch_flags = 0, ch_num_of_threads = htonl 1, ch_port = 0,
         ch_buffer_len = of_nat (sizeof_sample_packet - sizeof_udp_datagram - sizeof_client_hdr_v1),
         ch_bandwidth = 0, ch_num_of_bytes = htonl psize\<rparr>
       (put_datagram \<lparr>dg_id = - nb_packets, dg_tv_sec = secs, dg_tv_usec = usecs\<rparr> buf)"

text \<open>Lines 94 to 113: one attempt to send the end packet and to receive the report.\<close>

definition upload_fin_attempt ::
  "'w platform \<Rightarrow> int \<Rightarrow> u32 \<Rightarrow> u32 \<Rightarrow> u32 \<Rightarrow> u32 \<Rightarrow> u8 list \<Rightarrow> ('w, 'z) udp_uploader_scheme \<Rightarrow>
   int \<times> u8 list \<times> ('w, 'z) udp_uploader_scheme" where
  "upload_fin_attempt P sock nb_packets secs usecs psize stats st =
     (let st1 = st\<lparr>sample_packet := fill_fin_packet nb_packets secs usecs psize (sample_packet st)\<rparr>;
          (ret, st2) = zsock_send P sock (take (unat psize) (sample_packet st1)) st1
      in if ret < 0 then (ret, stats, st2)
         else let (ret, st3) = zsock_setsockopt P sock (SO_RCVTIMEO 2 0) st2
              in if ret < 0 then (ret, stats, st3)
                 else let (ret, bytes, st4) = zsock_recv P sock (length stats) False st3
                      in (ret, bytes @ drop (length bytes) stats, st4))"

text \<open>Line 69: \<open>while (ret <= 0 && loop-- > 0)\<close>, with \<open>loop\<close> at the head of the arguments.\<close>

fun upload_fin_loop ::
  "nat \<Rightarrow> 'w platform \<Rightarrow> int \<Rightarrow> u32 \<Rightarrow> u32 \<Rightarrow> u32 \<Rightarrow> u32 \<Rightarrow> int \<Rightarrow> u8 list \<Rightarrow> ('w, 'z) udp_uploader_scheme \<Rightarrow>
   int \<times> u8 list \<times> ('w, 'z) udp_uploader_scheme" where
  "upload_fin_loop 0 P sock nb secs usecs psize ret stats st = (ret, stats, st)"
| "upload_fin_loop (Suc loop) P sock nb secs usecs psize ret stats st =
     (if ret > 0 then (ret, stats, st)
      else let (ret', stats', st') = upload_fin_attempt P sock nb secs usecs psize stats st
           in upload_fin_loop loop P sock nb secs usecs psize ret' stats' st')"

text \<open>Lines 124 to 131: receive and drop what is left.\<close>

partial_function (option) upload_drain ::
  "'w platform \<Rightarrow> int \<Rightarrow> nat \<Rightarrow> ('w, 'z) udp_uploader_scheme \<Rightarrow> ('w, 'z) udp_uploader_scheme option" where
  "upload_drain P sock n st =
     (let (ret, bytes, st') = zsock_recv P sock n True st
      in if ret < 0 then Some st' else upload_drain P sock n st')"

definition zperf_upload_fin ::
  "'w platform \<Rightarrow> int \<Rightarrow> u32 \<Rightarrow> u64 \<Rightarrow> u32 \<Rightarrow> zperf_results \<Rightarrow> ('w, 'z) udp_uploader_scheme \<Rightarrow>
   (int \<times> zperf_results \<times> ('w, 'z) udp_uploader_scheme) option" where
  "zperf_upload_fin P sock nb_packets end_time psize results st =
     (let stats = replicate (sizeof_udp_datagram + sizeof_server_hdr) 0;
          secs = k_ticks_to_ms_ceil32 P (ucast end_time) div 1000;
          usecs = k_ticks_to_us_ceil32 P (ucast end_time) - secs * USEC_PER_SEC;
          (ret, stats', st1) = upload_fin_loop 2 P sock nb_packets secs usecs psize 0 stats st
      in if ret > 0 then
           map_option (\<lambda>st2. (0, zperf_upload_decode_stat stats' (nat ret) results, st2))
             (upload_drain P sock (length stats') st1)
         else Some (ret, results, st1))"

section \<open>The sending loop\<close>

text \<open>
  The variables of \<open>udp_upload\<close> that the loop changes. Times are 64-bit words; \<open>adjust\<close> is a 32-bit
  word read as signed.
\<close>

record udp_loop =
  lp_delay :: u32
  lp_last :: u64
  lp_nb :: u32

text \<open>Lines 184 to 197: keep the rate; the second comparison is unsigned.\<close>

definition adjust_delay :: "u32 \<Rightarrow> u64 \<Rightarrow> u64 \<Rightarrow> u32 \<Rightarrow> u32" where
  "adjust_delay packet_duration last_loop_time loop_time delay =
     (let adjust = (if last_loop_time \<noteq> loop_time
                    then packet_duration - ucast (loop_time - last_loop_time) else 0)
      in if 0 \<le> sint adjust \<or> - adjust < delay then delay + adjust else 0)"

text \<open>Lines 201 to 220: the data packet.\<close>

definition fill_data_packet ::
  "'w platform \<Rightarrow> u64 \<Rightarrow> u32 \<Rightarrow> u32 \<Rightarrow> u32 \<Rightarrow> u32 \<Rightarrow> u8 list \<Rightarrow> u8 list" where
  "fill_data_packet P loop_time nb_packets port rate_in_kbps psize buf =
     (let usecs64 = k_ticks_to_us_floor64 P loop_time;
          secs = ucast (usecs64 div ucast USEC_PER_SEC) :: u32;
          usecs = ucast (usecs64 - ucast secs * ucast USEC_PER_SEC) :: u32
      in put_client_hdr \<lparr>ch_flags = 0, ch_num_of_threads = htonl 1, ch_port = htonl port,
             ch_buffer_len = of_nat (sizeof_sample_packet - sizeof_udp_datagram - sizeof_client_hdr_v1),
             ch_bandwidth = htonl rate_in_kbps, ch_num_of_bytes = htonl psize\<rparr>
           (put_datagram \<lparr>dg_id = nb_packets, dg_tv_sec = secs, dg_tv_usec = usecs\<rparr> buf))"

text \<open>Lines 180 to 248: one iteration; \<open>Inl\<close> is the return of an error code.\<close>

definition udp_upload_iter ::
  "'w platform \<Rightarrow> int \<Rightarrow> u32 \<Rightarrow> u32 \<Rightarrow> u32 \<Rightarrow> u32 \<Rightarrow> udp_loop \<Rightarrow> ('w, 'z) udp_uploader_scheme \<Rightarrow>
   (int + udp_loop) \<times> ('w, 'z) udp_uploader_scheme" where
  "udp_upload_iter P sock port psize rate_in_kbps packet_duration lp st =
     (let (ticks, st1) = k_uptime_ticks P st;
          loop_time = ucast ticks;
          delay = adjust_delay packet_duration (lp_last lp) loop_time (lp_delay lp);
          st2 = st1\<lparr>sample_packet :=
            fill_data_packet P loop_time (lp_nb lp) port rate_in_kbps psize (sample_packet st1)\<rparr>;
          (ret, st3) = zsock_send P sock (take (unat psize) (sample_packet st2)) st2
      in if ret < 0 then (Inl (- errno_now P st3), st3)
         else (Inr \<lparr>lp_delay = delay, lp_last = loop_time, lp_nb = lp_nb lp + 1\<rparr>,
               if delay \<noteq> 0 then k_sleep P (pdMS_TO_TICKS P delay) st3 else st3))"

partial_function (option) udp_upload_loop ::
  "'w platform \<Rightarrow> int \<Rightarrow> u32 \<Rightarrow> u32 \<Rightarrow> u32 \<Rightarrow> u32 \<Rightarrow> u64 \<Rightarrow> udp_loop \<Rightarrow> ('w, 'z) udp_uploader_scheme \<Rightarrow>
   ((int + udp_loop) \<times> ('w, 'z) udp_uploader_scheme) option" where
  "udp_upload_loop P sock port psize rate_in_kbps packet_duration end_time lp st =
     (case udp_upload_iter P sock port psize rate_in_kbps packet_duration lp st of
        (Inl e, st') \<Rightarrow> Some (Inl e, st')
      | (Inr lp', st') \<Rightarrow>
          if sint (lp_last lp') < sint end_time
          then udp_upload_loop P sock port psize rate_in_kbps packet_duration end_time lp' st'
          else Some (Inr lp', st'))"

text \<open>Lines 151 to 159.\<close>

definition udp_packet_size :: "u32 \<Rightarrow> u32" where
  "udp_packet_size psize =
     (if of_nat PACKET_SIZE_MAX < psize then of_nat PACKET_SIZE_MAX
      else if psize < of_nat sizeof_udp_datagram then of_nat sizeof_udp_datagram else psize)"

definition udp_upload ::
  "'w platform \<Rightarrow> int \<Rightarrow> u32 \<Rightarrow> u32 \<Rightarrow> u32 \<Rightarrow> u32 \<Rightarrow> zperf_results \<Rightarrow> ('w, 'z) udp_uploader_scheme \<Rightarrow>
   (int \<times> zperf_results \<times> ('w, 'z) udp_uploader_scheme) faulty option" where
  "udp_upload P sock port duration_in_ms packet_size0 rate_in_kbps results st =
     (case zperf_packet_duration packet_size0 rate_in_kbps of
        Inl e \<Rightarrow> Some (Inl e)
      | Inr packet_duration_us \<Rightarrow>
          let packet_duration = k_us_to_ticks_ceil32 P packet_duration_us;
              psize = udp_packet_size packet_size0;
              (ticks, st1) = k_uptime_ticks P st;
              start_time = ucast ticks :: u64;
              end_time = start_time + k_ms_to_ticks_ceil64 P (ucast duration_in_ms);
              st2 = st1\<lparr>sample_packet := replicate sizeof_sample_packet (of_char CHR ''z'')\<rparr>
          in (case udp_upload_loop P sock port psize rate_in_kbps packet_duration end_time
                     \<lparr>lp_delay = packet_duration, lp_last = start_time, lp_nb = 0\<rparr> st2 of
                None \<Rightarrow> None
              | Some (Inl e, st3) \<Rightarrow> Some (Inr (e, results, st3))
              | Some (Inr lp, st3) \<Rightarrow>
                  let (ticks', st4) = k_uptime_ticks P st3; end_time' = ucast ticks' :: u64
                  in (case zperf_upload_fin P sock (lp_nb lp) end_time' psize results st4 of
                        None \<Rightarrow> None
                      | Some (ret, results', st5) \<Rightarrow>
                          if ret < 0 then Some (Inr (ret, results', st5))
                          else Some (Inr (0, results'\<lparr>nb_packets_sent := lp_nb lp,
                            client_time_in_us := k_ticks_to_us_ceil32 P (ucast (end_time' - start_time)),
                            packet_size := psize\<rparr>, st5)))))"

section \<open>\<open>zperf_udp_upload\<close>\<close>

definition zperf_udp_upload ::
  "'w platform \<Rightarrow> zperf_upload_params option \<Rightarrow> zperf_results option \<Rightarrow> ('w, 'z) udp_uploader_scheme \<Rightarrow>
   (int \<times> zperf_results option \<times> ('w, 'z) udp_uploader_scheme) faulty option" where
  "zperf_udp_upload P param result st =
     (case (param, result) of
        (Some prm, Some res) \<Rightarrow>
          (case (case up_peer_addr prm of Sockaddr_in p a \<Rightarrow> Some (ntohs p)
                 | Sockaddr_in6 p a \<Rightarrow> Some (ntohs p) | Sockaddr_other f \<Rightarrow> None) of
             None \<Rightarrow> Some (Inr (- EINVAL, result, st))
           | Some port \<Rightarrow>
               let (sock, st1) = zperf_prepare_upload_sock P (up_peer_addr prm) (uint (up_tos prm))
                     (up_priority prm) IPPROTO_UDP st
               in if sock < 0 then Some (Inr (sock, result, st1))
                  else (case udp_upload P sock (ucast port) (up_duration_ms prm) (ucast (up_packet_size prm))
                               (up_rate_kbps prm) res st1 of
                          None \<Rightarrow> None
                        | Some (Inl e) \<Rightarrow> Some (Inl e)
                        | Some (Inr (ret, res', st2)) \<Rightarrow>
                            Some (Inr (ret, Some res', zsock_close P sock st2))))
      | _ \<Rightarrow> Some (Inr (- EINVAL, result, st)))"

section \<open>The packets\<close>

lemma length_fill_packet [simp]:
  "length buf = sizeof_sample_packet \<Longrightarrow> length (fill_data_packet P t nb port rate n buf) = sizeof_sample_packet"
  "length buf = sizeof_sample_packet \<Longrightarrow> length (fill_fin_packet nb secs usecs n buf) = sizeof_sample_packet"
  by (simp_all add: fill_data_packet_def fill_fin_packet_def Let_def dgram.length_write clihdr.length_write)

text \<open>A receiver that gets at least the header reads the number the sender wrote.\<close>

lemma get_data_packet:
  assumes "length buf = sizeof_sample_packet" and "12 \<le> n"
  shows "dg_id (get_datagram (take n (fill_data_packet P t nb port rate psize buf))) = nb"
  using assms upload_packet.read_a_prefix [of buf n]
  by (simp add: fill_data_packet_def Let_def)

lemma get_fin_packet:
  assumes "length buf = sizeof_sample_packet" and "12 \<le> n"
  shows "dg_id (get_datagram (take n (fill_fin_packet nb secs usecs psize buf))) = - nb"
  using assms upload_packet.read_a_prefix [of buf n]
  by (simp add: fill_fin_packet_def)

definition packet_ids :: "(int \<times> u8 list) list \<Rightarrow> u32 list" where
  "packet_ids ps = map (\<lambda>(s, d). dg_id (get_datagram d)) ps"

lemma packet_ids_simps [simp]:
  "packet_ids [] = []" "packet_ids (p # ps) = dg_id (get_datagram (snd p)) # packet_ids ps"
  "packet_ids (xs @ ys) = packet_ids xs @ packet_ids ys"
  by (simp_all add: packet_ids_def split: prod.split)

text \<open>
  \<open>sends st st' ps\<close>: between the two states the packets \<open>ps\<close> were sent, all of the given size on the
  given socket, no descriptor was opened or closed, and the packet buffer kept its size.
\<close>

definition sends :: "int \<Rightarrow> nat \<Rightarrow> (int \<times> u8 list) list \<Rightarrow> ('w, 'z) udp_uploader_scheme \<Rightarrow> ('w, 'z) udp_uploader_scheme \<Rightarrow> bool" where
  "sends sock n ps st st' \<longleftrightarrow> (\<exists>evs. trace st' = trace st @ evs \<and> quiet evs \<and> sent evs = ps) \<and>
     (\<forall>(s, d) \<in> set ps. s = sock \<and> length d = n) \<and>
     length (sample_packet st') = length (sample_packet st)"

lemma sends_refl: "sends sock n [] st st"
  by (simp add: sends_def quiet_def)

lemma sends_trans:
  assumes "sends sock n ps a b" and "sends sock n qs b c"
  shows "sends sock n (ps @ qs) a c"
proof -
  obtain ea where "trace b = trace a @ ea" "quiet ea" "sent ea = ps"
    using assms(1) by (auto simp: sends_def)
  moreover obtain eb where "trace c = trace b @ eb" "quiet eb" "sent eb = qs"
    using assms(2) by (auto simp: sends_def)
  ultimately have "\<exists>evs. trace c = trace a @ evs \<and> quiet evs \<and> sent evs = ps @ qs"
    by (intro exI [of _ "ea @ eb"]) (simp add: quiet_append)
  with assms show ?thesis by (auto simp: sends_def)
qed

lemma udp_upload_iter_sends:
  assumes "length (sample_packet st) = sizeof_sample_packet" and "12 \<le> unat psize" and "unat psize \<le> sizeof_sample_packet"
    and "udp_upload_iter P sock port psize rate pd lp st = (r, st')"
  shows "\<exists>d. sends sock (unat psize) [(sock, d)] st st' \<and> dg_id (get_datagram d) = lp_nb lp \<and>
    (\<forall>lp'. r = Inr lp' \<longrightarrow> lp_nb lp' = lp_nb lp + 1)"
proof -
  obtain t w where tick: "xTaskGetTickCount P (world st) = (t, w)" by fastforce
  define buf where "buf = fill_data_packet P (ucast t) (lp_nb lp) port rate psize (sample_packet st)"
  define d where "d = take (unat psize) buf"
  obtain x w' where send: "lwip_send P sock d w = (x, w')" by fastforce
  have len: "length buf = sizeof_sample_packet" using assms(1) by (simp add: buf_def)
  have id: "dg_id (get_datagram d) = lp_nb lp"
    unfolding d_def buf_def using assms(1,2) by (rule get_data_packet)
  have ld: "length d = unat psize" using len assms(3) by (simp add: d_def)
  let ?ev = "Ev_send sock d x"
  let ?delay = "adjust_delay pd (lp_last lp) (ucast t) (lp_delay lp)"
  have "trace st' = trace st @ (if x < 0 \<or> ?delay = 0 then [?ev] else [?ev, Ev_delay (pdMS_TO_TICKS P ?delay)])"
    and "sample_packet st' = buf" and "\<forall>lp'. r = Inr lp' \<longrightarrow> lp_nb lp' = lp_nb lp + 1"
    using assms(4) send
    by (auto simp: udp_upload_iter_def k_uptime_ticks_def tick zsock_send_def k_sleep_def buf_def d_def Let_def
        split: if_splits)
  moreover have "quiet (if x < 0 \<or> ?delay = 0 then [?ev] else [?ev, Ev_delay (pdMS_TO_TICKS P ?delay)])"
    and "sent (if x < 0 \<or> ?delay = 0 then [?ev] else [?ev, Ev_delay (pdMS_TO_TICKS P ?delay)]) = [(sock, d)]"
    by (simp_all add: quiet_def)
  ultimately show ?thesis
    using id ld len assms(1) unfolding sends_def by (intro exI [of _ d]) auto
qed

text \<open>Induction over the iterations of a loop that returns.\<close>

lemma udp_upload_loop_induct [consumes 1, case_names err more fin]:
  assumes "udp_upload_loop P sock port psize rate pd end lp st = Some (r, st')"
    and err: "\<And>lp st e st'. udp_upload_iter P sock port psize rate pd lp st = (Inl e, st') \<Longrightarrow> Q lp st (Inl e) st'"
    and more: "\<And>lp st lp1 st1 r st'. udp_upload_iter P sock port psize rate pd lp st = (Inr lp1, st1) \<Longrightarrow>
      sint (lp_last lp1) < sint end \<Longrightarrow> Q lp1 st1 r st' \<Longrightarrow> Q lp st r st'"
    and fin: "\<And>lp st lp1 st1. udp_upload_iter P sock port psize rate pd lp st = (Inr lp1, st1) \<Longrightarrow>
      \<not> sint (lp_last lp1) < sint end \<Longrightarrow> Q lp st (Inr lp1) st1"
  shows "Q lp st r st'"
proof -
  let ?Q = "\<lambda>((((((((P0, sock0), port0), psize0), rate0), pd0), end0), lp), st) (r, st').
    P0 = P \<and> sock0 = sock \<and> port0 = port \<and> psize0 = psize \<and> rate0 = rate \<and> pd0 = pd \<and> end0 = end \<longrightarrow> Q lp st r st'"
  have "?Q ((((((((P, sock), port), psize), rate), pd), end), lp), st) (r, st')"
    by (rule udp_upload_loop.raw_induct [of ?Q, OF _ assms(1)])
      (auto split: prod.splits sum.splits if_splits intro: err more fin)
  then show ?thesis by simp
qed

text \<open>The packets of a finished loop are numbered consecutively.\<close>

lemma udp_upload_loop_sends:
  assumes "udp_upload_loop P sock port psize rate pd end lp st = Some (r, st')"
    and "length (sample_packet st) = sizeof_sample_packet" and "12 \<le> unat psize" and "unat psize \<le> sizeof_sample_packet"
  shows "\<exists>ps. ps \<noteq> [] \<and> sends sock (unat psize) ps st st' \<and>
    packet_ids ps = map (\<lambda>k. lp_nb lp + of_nat k) [0..<length ps] \<and>
    (\<forall>lp'. r = Inr lp' \<longrightarrow> lp_nb lp' = lp_nb lp + of_nat (length ps))"
  using assms(1,2)
proof (induction rule: udp_upload_loop_induct)
  case (err lp st e st')
  from udp_upload_iter_sends [OF err(2) assms(3,4) err(1)] obtain d where
    "sends sock (unat psize) [(sock, d)] st st'" "dg_id (get_datagram d) = lp_nb lp" by blast
  then show ?case by (intro exI [of _ "[(sock, d)]"]) simp
next
  case (more lp st lp1 st1 r st')
  from udp_upload_iter_sends [OF more(4) assms(3,4) more(1)] obtain d where
    d: "sends sock (unat psize) [(sock, d)] st st1" "dg_id (get_datagram d) = lp_nb lp"
      "lp_nb lp1 = lp_nb lp + 1" by blast
  then have "length (sample_packet st1) = sizeof_sample_packet"
    using more(4) by (simp add: sends_def)
  from more(3) [OF this] obtain ps where ps: "sends sock (unat psize) ps st1 st'"
    "packet_ids ps = map (\<lambda>k. lp_nb lp1 + of_nat k) [0..<length ps]"
    "\<forall>lp'. r = Inr lp' \<longrightarrow> lp_nb lp' = lp_nb lp1 + of_nat (length ps)" by blast
  from sends_trans [OF d(1) ps(1)] have "sends sock (unat psize) ((sock, d) # ps) st st'" by simp
  moreover have "packet_ids ((sock, d) # ps) =
      map (\<lambda>k. lp_nb lp + of_nat k) [0..<length ((sock, d) # ps)]"
    using d(2,3) ps(2) by (simp add: map_upt_Suc add.assoc del: upt_Suc)
  ultimately show ?case
    using d(3) ps(3) by (intro exI [of _ "(sock, d) # ps"]) (simp add: add.assoc)
next
  case (fin lp st lp1 st1)
  from udp_upload_iter_sends [OF fin(3) assms(3,4) fin(1)] obtain d where
    "sends sock (unat psize) [(sock, d)] st st1" "dg_id (get_datagram d) = lp_nb lp"
    "lp_nb lp1 = lp_nb lp + 1" by blast
  then show ?case by (intro exI [of _ "[(sock, d)]"]) simp
qed

section \<open>The end of the upload\<close>

lemma upload_fin_attempt_sends:
  assumes "length (sample_packet st) = sizeof_sample_packet" and "12 \<le> unat psize" and "unat psize \<le> sizeof_sample_packet"
    and "upload_fin_attempt P sock nb secs usecs psize stats st = (ret, stats', st')"
  shows "\<exists>d. sends sock (unat psize) [(sock, d)] st st' \<and> dg_id (get_datagram d) = - nb"
proof -
  define buf where "buf = fill_fin_packet nb secs usecs psize (sample_packet st)"
  define d where "d = take (unat psize) buf"
  have len: "length buf = sizeof_sample_packet" using assms(1) by (simp add: buf_def)
  have id: "dg_id (get_datagram d) = - nb"
    unfolding d_def buf_def using assms(1,2) by (rule get_fin_packet)
  have ld: "length d = unat psize" using len assms(3) by (simp add: d_def)
  have "\<exists>evs. trace st' = trace st @ evs \<and> quiet evs \<and> sent evs = [(sock, d)]" and "sample_packet st' = buf"
    using assms(4)
    by (auto simp: upload_fin_attempt_def zsock_send_def zsock_setsockopt_def zsock_recv_def buf_def d_def quiet_def
        Let_def split: if_splits prod.splits)
  then show ?thesis
    using id ld len assms(1) unfolding sends_def by (intro exI [of _ d]) auto
qed

lemma upload_fin_loop_sends:
  assumes "upload_fin_loop n P sock nb secs usecs psize ret stats st = (ret', stats', st')"
    and "length (sample_packet st) = sizeof_sample_packet" and "12 \<le> unat psize" and "unat psize \<le> sizeof_sample_packet"
  shows "\<exists>ps. sends sock (unat psize) ps st st' \<and> packet_ids ps = replicate (length ps) (- nb) \<and>
    length ps \<le> n \<and> (0 < n \<and> ret \<le> 0 \<longrightarrow> ps \<noteq> [])"
  using assms(1,2)
proof (induction n arbitrary: ret stats st)
  case 0
  then show ?case by (intro exI [of _ "[]"]) (simp add: sends_refl)
next
  case (Suc n)
  show ?case
  proof (cases "0 < ret")
    case True
    with Suc.prems show ?thesis by (intro exI [of _ "[]"]) (simp add: sends_refl)
  next
    case False
    obtain r1 stats1 st1 where att: "upload_fin_attempt P sock nb secs usecs psize stats st = (r1, stats1, st1)"
      by (metis prod_cases3)
    from upload_fin_attempt_sends [OF Suc.prems(2) assms(3,4) att] obtain d where
      d: "sends sock (unat psize) [(sock, d)] st st1" "dg_id (get_datagram d) = - nb" by blast
    from d(1) Suc.prems(2) have len: "length (sample_packet st1) = sizeof_sample_packet" by (simp add: sends_def)
    from False Suc.prems(1) att
    have rest: "upload_fin_loop n P sock nb secs usecs psize r1 stats1 st1 = (ret', stats', st')" by simp
    from Suc.IH [OF rest len] obtain ps where ps: "sends sock (unat psize) ps st1 st'"
      "packet_ids ps = replicate (length ps) (- nb)" "length ps \<le> n" by blast
    from sends_trans [OF d(1) ps(1)] d(2) ps(2,3) show ?thesis
      by (intro exI [of _ "(sock, d) # ps"]) simp
  qed
qed

lemma upload_drain_sends:
  assumes "upload_drain P sock n st = Some st'"
  shows "sends sock m [] st st'"
proof -
  let ?Q = "\<lambda>(((P0, sock0), n0), st) st'. sends sock m [] st st'"
  have recv: "sends sock m [] st st1" if "zsock_recv P0 s0 n0 True st = (r, bs, st1)"
    for P0 :: "'a platform" and s0 n0 r bs and st st1 :: "('a, 'b) udp_uploader_scheme"
    using that by (auto simp: zsock_recv_def sends_def quiet_def split: prod.splits)
  have "?Q (((P, sock), n), st) st'"
    by (rule upload_drain.raw_induct [of ?Q, OF _ assms])
      (auto split: prod.splits if_splits dest: recv intro: sends_trans [of sock m "[]" _ _ "[]", simplified])
  then show ?thesis by simp
qed

lemma zperf_upload_fin_sends:
  assumes "zperf_upload_fin P sock nb end psize res st = Some (ret, res', st')"
    and "length (sample_packet st) = sizeof_sample_packet" and "12 \<le> unat psize" and "unat psize \<le> sizeof_sample_packet"
  shows "\<exists>ps. sends sock (unat psize) ps st st' \<and> packet_ids ps = replicate (length ps) (- nb) \<and>
    length ps \<in> {1, 2}"
proof -
  let ?secs = "k_ticks_to_ms_ceil32 P (ucast end) div 1000"
  let ?usecs = "k_ticks_to_us_ceil32 P (ucast end) - ?secs * USEC_PER_SEC"
  obtain r stats st1 where loop: "upload_fin_loop 2 P sock nb ?secs ?usecs psize 0
      (replicate (sizeof_udp_datagram + sizeof_server_hdr) 0) st = (r, stats, st1)"
    by (metis prod_cases3)
  from upload_fin_loop_sends [OF loop assms(2-4)] obtain ps where
    ps: "sends sock (unat psize) ps st st1" "packet_ids ps = replicate (length ps) (- nb)"
      "length ps \<le> 2" "ps \<noteq> []" by auto
  have "length ps \<in> {1, 2}" using ps(3,4) by (cases ps; cases "tl ps") auto
  moreover have "sends sock (unat psize) ps st st'"
  proof (cases "0 < r")
    case True
    with assms(1) loop have "upload_drain P sock (length stats) st1 = Some st'"
      by (auto simp: zperf_upload_fin_def Let_def)
    from sends_trans [OF ps(1) upload_drain_sends [OF this]] show ?thesis by simp
  next
    case False
    with assms(1) loop ps(1) show ?thesis by (auto simp: zperf_upload_fin_def Let_def)
  qed
  ultimately show ?thesis using ps(2) by blast
qed

lemma udp_packet_size_bounds: "12 \<le> unat (udp_packet_size n) \<and> unat (udp_packet_size n) \<le> 1024"
  by (auto simp: udp_packet_size_def PACKET_SIZE_MAX_def sizeof_defs word_less_nat_alt)

text \<open>
  An upload that returns has sent data packets numbered from 0, and, unless the loop failed, one or
  two end packets with the negated number of data packets.
\<close>

lemma udp_upload_loop_error:
  assumes "errno_positive P" and "udp_upload_loop P sock port psize rate pd end lp st = Some (r, st')"
  shows "\<forall>e. r = Inl e \<longrightarrow> e < 0"
  using assms(2)
proof (induction rule: udp_upload_loop_induct)
  case (err lp st e st')
  then show ?case
    using errno_positiveD(3) [OF assms(1)]
    by (auto simp: udp_upload_iter_def zsock_send_def errno_now_def Let_def split: prod.splits if_splits)
qed simp_all

lemma sendsE:
  assumes "sends sock n ps st st'"
  obtains evs where "trace st' = trace st @ evs" "quiet evs" "sent evs = ps"
    "\<forall>(s, d) \<in> set ps. s = sock \<and> length d = n"
  using assms by (auto simp: sends_def)

lemma udp_upload_sends:
  assumes "errno_positive P" and "udp_upload P sock port ms psize0 rate res st = Some (Inr (ret, res', st'))"
  shows "\<exists>evs ps qs. trace st' = trace st @ evs \<and> quiet evs \<and> sent evs = ps @ qs \<and>
    (\<forall>(s, d) \<in> set (ps @ qs). s = sock \<and> length d = unat (udp_packet_size psize0)) \<and>
    ps \<noteq> [] \<and> packet_ids ps = map of_nat [0..<length ps] \<and>
    packet_ids qs = replicate (length qs) (- of_nat (length ps)) \<and> length qs \<le> 2 \<and>
    (0 \<le> ret \<longrightarrow> qs \<noteq> [] \<and> ret = 0 \<and> nb_packets_sent res' = of_nat (length ps))"
proof -
  let ?n = "udp_packet_size psize0"
  note n = udp_packet_size_bounds [of psize0]
  obtain pdus where pd: "zperf_packet_duration psize0 rate = Inr pdus"
    using assms(2) by (auto simp: udp_upload_def split: sum.splits)
  obtain t w where tick: "xTaskGetTickCount P (world st) = (t, w)" by fastforce
  let ?until = "(ucast t :: u64) + k_ms_to_ticks_ceil64 P (ucast ms)"
  let ?pd = "k_us_to_ticks_ceil32 P pdus"
  let ?st = "st\<lparr>world := w, sample_packet := replicate sizeof_sample_packet (of_char CHR ''z'')\<rparr>"
  let ?lp = "\<lparr>lp_delay = ?pd, lp_last = ucast t, lp_nb = 0\<rparr>"
  obtain r st1 where loop: "udp_upload_loop P sock port ?n rate ?pd ?until ?lp ?st = Some (r, st1)"
    using assms(2) pd by (auto simp: udp_upload_def k_uptime_ticks_def tick Let_def split: option.splits)
  from udp_upload_loop_sends [OF loop] n obtain ps where ps: "ps \<noteq> []" "sends sock (unat ?n) ps ?st st1"
    "packet_ids ps = map of_nat [0..<length ps]" "\<forall>lp'. r = Inr lp' \<longrightarrow> lp_nb lp' = of_nat (length ps)"
    by auto
  show ?thesis
  proof (cases r)
    case (Inl e)
    with loop pd assms(2) have "ret = e" "st' = st1"
      by (auto simp: udp_upload_def k_uptime_ticks_def tick Let_def)
    moreover have "e < 0" using udp_upload_loop_error [OF assms(1) loop] Inl by simp
    moreover obtain evs where "trace st1 = trace ?st @ evs" "quiet evs" "sent evs = ps"
      "\<forall>(s, d) \<in> set ps. s = sock \<and> length d = unat ?n" using ps(2) by (rule sendsE)
    ultimately show ?thesis using ps by (intro exI [of _ evs] exI [of _ ps] exI [of _ "[]"]) simp
  next
    case (Inr lp)
    obtain t' w' where tick': "xTaskGetTickCount P (world st1) = (t', w')" by fastforce
    obtain ret2 res2 where fin: "zperf_upload_fin P sock (lp_nb lp) (ucast t') ?n res (st1\<lparr>world := w'\<rparr>) =
        Some (ret2, res2, st')"
      using loop pd assms(2) Inr
      by (auto simp: udp_upload_def k_uptime_ticks_def tick tick' Let_def split: option.splits if_splits)
    have len: "length (sample_packet (st1\<lparr>world := w'\<rparr>)) = sizeof_sample_packet"
      using ps(2) by (simp add: sends_def)
    from zperf_upload_fin_sends [OF fin len] n obtain qs where qs: "sends sock (unat ?n) qs (st1\<lparr>world := w'\<rparr>) st'"
      "packet_ids qs = replicate (length qs) (- lp_nb lp)" "length qs \<in> {1, 2}" by auto
    have "sends sock (unat ?n) ps ?st (st1\<lparr>world := w'\<rparr>)" using ps(2) by (simp add: sends_def)
    from sends_trans [OF this qs(1)] have all: "sends sock (unat ?n) (ps @ qs) ?st st'" .
    have "0 \<le> ret \<longrightarrow> ret = 0 \<and> nb_packets_sent res' = of_nat (length ps)"
      using loop pd assms(2) Inr fin ps(4)
      by (auto simp: udp_upload_def k_uptime_ticks_def tick tick' Let_def split: if_splits)
    moreover obtain evs where "trace st' = trace ?st @ evs" "quiet evs" "sent evs = ps @ qs"
      "\<forall>(s, d) \<in> set (ps @ qs). s = sock \<and> length d = unat ?n" using all by (rule sendsE)
    ultimately show ?thesis
      using ps qs Inr by (intro exI [of _ evs] exI [of _ ps] exI [of _ qs]) auto
  qed
qed

section \<open>Termination\<close>

text \<open>
  What the sending loop needs of the platform: a hidden clock \<open>clk\<close>, \<open>q\<close> units of which make a
  tick, never goes back, moves on at every reading of the tick count, and by no more than \<open>J\<close> units
  in any single call. The tick count is the clock in ticks, modulo \<open>2\<^sup>3\<^sup>2\<close>.
\<close>

definition clock_laws :: "'w platform \<Rightarrow> ('w \<Rightarrow> nat) \<Rightarrow> nat \<Rightarrow> nat \<Rightarrow> bool" where
  "clock_laws P clk q J \<longleftrightarrow> 0 < q \<and>
     (\<forall>w. fst (xTaskGetTickCount P w) = of_nat (clk w div q)) \<and>
     (\<forall>w. clk w < clk (snd (xTaskGetTickCount P w)) \<and> clk (snd (xTaskGetTickCount P w)) \<le> clk w + J) \<and>
     (\<forall>s d w. clk w \<le> clk (snd (lwip_send P s d w)) \<and> clk (snd (lwip_send P s d w)) \<le> clk w + J) \<and>
     (\<forall>d w. clk w \<le> clk (vTaskDelay P d w) \<and> clk (vTaskDelay P d w) \<le> clk w + J) \<and>
     (\<forall>w. clk w \<le> clk (taskYIELD P w) \<and> clk (taskYIELD P w) \<le> clk w + J)"

text \<open>What the drain loop needs: only finitely many packets are waiting.\<close>

definition drain_laws :: "'w platform \<Rightarrow> ('w \<Rightarrow> nat) \<Rightarrow> bool" where
  "drain_laws P left \<longleftrightarrow> (\<forall>s n w r bs w'. lwip_recv P s n True w = (r, bs, w') \<longrightarrow> 0 \<le> r \<longrightarrow> left w' < left w)"

lemma udp_upload_iter_clock:
  assumes "clock_laws P clk q J" and "udp_upload_iter P sock port psize rate pd lp st = (r, st')"
  shows "clk (world st) < clk (world st') \<and> clk (world st') \<le> clk (world st) + 3 * J \<and>
    (\<forall>lp'. r = Inr lp' \<longrightarrow> lp_last lp' = ucast (of_nat (clk (world st) div q) :: u32))"
proof -
  obtain t w where tick: "xTaskGetTickCount P (world st) = (t, w)" by fastforce
  with assms(1) have t: "t = of_nat (clk (world st) div q)" "clk (world st) < clk w" "clk w \<le> clk (world st) + J"
    by (auto simp: clock_laws_def dest: spec [of _ "world st"])
  have send: "clk w \<le> clk w1 \<and> clk w1 \<le> clk w + J" if "lwip_send P s d w = (x, w1)" for s d x w1
    using assms(1) that unfolding clock_laws_def by (metis snd_conv)
  have delay: "clk w1 \<le> clk (vTaskDelay P d w1) \<and> clk (vTaskDelay P d w1) \<le> clk w1 + J" for d w1
    using assms(1) by (simp add: clock_laws_def)
  let ?buf = "fill_data_packet P (ucast t) (lp_nb lp) port rate psize (sample_packet st)"
  obtain x w1 where s: "lwip_send P sock (take (unat psize) ?buf) w = (x, w1)" by fastforce
  from assms(2) have "world st' = w1 \<or> (\<exists>d. world st' = vTaskDelay P d w1)"
    and "\<forall>lp'. r = Inr lp' \<longrightarrow> lp_last lp' = ucast t"
    by (auto simp: udp_upload_iter_def k_uptime_ticks_def tick zsock_send_def s k_sleep_def Let_def
        split: if_splits)
  moreover from this(1) delay [of w1] have "clk w1 \<le> clk (world st') \<and> clk (world st') \<le> clk w1 + J" by auto
  ultimately show ?thesis using send [OF s] t by simp
qed

lemma unat_ucast_of_nat_u32: "n < 2 ^ 32 \<Longrightarrow> unat (ucast (of_nat n :: u32) :: u64) = n"
  by (simp add: unat_ucast_u32_u64 unsigned_of_nat take_bit_nat_eq_self)

lemma sint_small_u64:
  assumes "unat (x :: u64) < 2 ^ 63"
  shows "sint x = int (unat x)"
proof -
  have "int (unat x) < int (2 ^ 63)" using assms by (simp only: of_nat_less_iff)
  then have "uint x < 2 ^ 63" by simp
  moreover have "- (2 ^ 63) \<le> uint x" by (rule order_trans [of _ 0]) simp_all
  ultimately have "signed_take_bit 63 (uint x) = uint x" by (rule signed_take_bit_int_eq_self [rotated])
  then show ?thesis by (simp add: sint_uint)
qed

lemma udp_upload_loop_returns:
  assumes "clock_laws P clk q J" and "unat end * q + 3 * J < 2 ^ 32 * q" and "clk (world st) < 2 ^ 32 * q"
  shows "\<exists>x. udp_upload_loop P sock port psize rate pd end lp st = Some x"
  using assms(3)
proof (induction "unat end * q - clk (world st)" arbitrary: lp st rule: less_induct)
  case less
  obtain r st' where iter: "udp_upload_iter P sock port psize rate pd lp st = (r, st')" by fastforce
  note clock = udp_upload_iter_clock [OF assms(1) iter]
  show ?case
  proof (cases "\<exists>lp'. r = Inr lp' \<and> sint (lp_last lp') < sint end")
    case True
    then obtain lp' where r: "r = Inr lp'" "sint (lp_last lp') < sint end" by blast
    have q: "0 < q" using assms(1) by (simp add: clock_laws_def)
    have "unat end * q < 2 ^ 32 * q" using assms(2) by linarith
    then have e: "unat end < 2 ^ 32" using mult_less_cancel2 by blast
    have c: "clk (world st) div q < 2 ^ 32" using less.prems by (rule less_mult_imp_div_less)
    have last: "unat (lp_last lp') = clk (world st) div q"
      using clock r(1) unat_ucast_of_nat_u32 [OF c] by simp
    have "(2 :: nat) ^ 32 < 2 ^ 63" by simp
    with e c last have "unat (lp_last lp') < 2 ^ 63" "unat end < 2 ^ 63" by simp_all
    with r(2) last have "clk (world st) div q < unat end" by (simp only: sint_small_u64 of_nat_less_iff)
    then have "clk (world st) < unat end * q" using q by (simp add: div_less_iff_less_mult)
    moreover have "clk (world st') < 2 ^ 32 * q" using calculation clock assms(2) by linarith
    ultimately have "\<exists>x. udp_upload_loop P sock port psize rate pd end lp' st' = Some x"
      using clock by (intro less.hyps) auto
    with iter r show ?thesis by (subst udp_upload_loop.simps) simp
  next
    case False
    with iter show ?thesis by (subst udp_upload_loop.simps) (auto split: sum.split)
  qed
qed

lemma upload_drain_returns:
  assumes "drain_laws P left"
  shows "\<exists>st'. upload_drain P sock n st = Some st'"
proof (induction "left (world st)" arbitrary: st rule: less_induct)
  case less
  obtain r bs w where recv: "lwip_recv P sock n True (world st) = (r, bs, w)" by (metis prod_cases3)
  let ?st = "st\<lparr>world := w, trace := trace st @ [Ev_recv sock r]\<rparr>"
  have step: "upload_drain P sock n st = (if r < 0 then Some ?st else upload_drain P sock n ?st)"
    by (subst upload_drain.simps) (simp add: zsock_recv_def recv)
  show ?case
  proof (cases "r < 0")
    case True
    with step show ?thesis by simp
  next
    case False
    with assms recv have "left (world ?st) < left (world st)" by (auto simp: drain_laws_def)
    with less.hyps step False show ?thesis by simp
  qed
qed

lemma zperf_upload_fin_returns:
  assumes "drain_laws P left"
  shows "\<exists>x. zperf_upload_fin P sock nb end psize res st = Some x"
  using upload_drain_returns [OF assms]
  by (auto simp: zperf_upload_fin_def Let_def split: prod.split)

section \<open>The rate\<close>

text \<open>
  The delay is the old delay plus the packet duration minus the time since the last packet, or 0 if
  that is negative: the unsigned arithmetic of the code does not wrap for times below \<open>2\<^sup>3\<^sup>1\<close> ticks.
\<close>

lemma adjust_delay_value:
  assumes "unat pd < 2 ^ 30" and "unat delay < 2 ^ 30" and "loop_time \<noteq> last_time"
    and "unat (ucast (loop_time - last_time) :: u32) < 2 ^ 30"
  shows "int (unat (adjust_delay pd last_time loop_time delay)) =
    max 0 (int (unat delay) + int (unat pd) - int (unat (ucast (loop_time - last_time) :: u32)))"
proof -
  define e :: u32 where "e = ucast (loop_time - last_time)"
  have e: "unat e < 2 ^ 30" using assms(4) by (simp add: e_def)
  have nonneg: "0 \<le> sint x" "sint x = int (unat x)" if "unat x < 2 ^ 30" for x :: u32
    using that by (simp_all add: sint_nonneg_iff sint_eq_unat32)
  have adj: "sint (pd - e) = int (unat pd) - int (unat e)"
    using nonneg assms(1) e by (simp add: sint_diff_nonneg)
  then have "0 \<le> sint (pd - e) \<longleftrightarrow> unat e \<le> unat pd" by (simp del: of_nat_unat)
  then have def: "adjust_delay pd last_time loop_time delay =
      (if unat e \<le> unat pd \<or> e - pd < delay then delay + (pd - e) else 0)"
    using assms(3) by (simp add: adjust_delay_def e_def Let_def)
  show ?thesis
  proof (cases "unat e \<le> unat pd")
    case True
    then have d: "unat (pd - e) = unat pd - unat e" by (simp add: unat_sub word_le_nat_alt)
    have "unat (delay + (pd - e)) = unat delay + (unat pd - unat e)"
      unfolding d [symmetric] using assms(1,2) d by (intro unat_add_lem [THEN iffD1]) simp
    with True def show ?thesis by (simp add: e_def [symmetric] of_nat_diff del: of_nat_unat)
  next
    case False
    then have d: "unat (e - pd) = unat e - unat pd" by (simp add: unat_sub word_le_nat_alt)
    have "unat (delay - (e - pd)) = unat delay - (unat e - unat pd)" if "e - pd < delay"
      unfolding d [symmetric] using that by (simp add: unat_sub word_le_nat_alt word_less_nat_alt)
    moreover have "adjust_delay pd last_time loop_time delay = (if e - pd < delay then delay - (e - pd) else 0)"
      using def False by (simp add: algebra_simps)
    ultimately show ?thesis
      using False d
      by (auto simp: e_def [symmetric] word_less_nat_alt of_nat_diff simp del: of_nat_unat)
  qed
qed

end
