(* ===== verification/Zperf_Udp_Upload_Properties.thy ===== *)
theory Zperf_Udp_Upload_Properties
  imports Zperf_Udp_Uploader
begin

text \<open>
  What \<open>zperf_udp_upload\<close> guarantees: which packets it sends, that it returns, that it closes its
  socket, and how it keeps the rate.
\<close>

section \<open>From the sending loop to the API function\<close>

lemma upload_sock_create_sent:
  assumes "upload_sock_create P peer tos proto st = (r, st')"
  shows "\<exists>evs. trace st' = trace st @ evs \<and> sent evs = []"
  using assms
  by (cases peer)
    (auto simp: upload_sock_create_def io_defs config_defs Let_def split: prod.splits if_splits)

lemma prepare_upload_sock_sent:
  assumes "zperf_prepare_upload_sock P peer tos prio proto st = (r, st')"
  shows "\<exists>evs. trace st' = trace st @ evs \<and> sent evs = []"
proof (cases "upload_sock_create P peer tos proto st")
  case (Pair x st1)
  from upload_sock_create_sent [OF Pair] obtain evs where "trace st1 = trace st @ evs" "sent evs = []" by blast
  with assms Pair show ?thesis
    by (auto simp: zperf_prepare_upload_sock_def io_defs Let_def split: sum.splits prod.splits if_splits)
qed

lemma zperf_udp_uploadE:
  assumes "zperf_udp_upload P (Some prm) (Some res) st = Some (Inr (ret, r, st'))"
  obtains (family) "ret = - EINVAL" "r = Some res" "st' = st"
    | (socket) "zperf_prepare_upload_sock P (up_peer_addr prm) (uint (up_tos prm)) (up_priority prm)
        IPPROTO_UDP st = (ret, st')" "ret < 0" "r = Some res"
    | (upload) port sock st1 res' st2 where "zperf_prepare_upload_sock P (up_peer_addr prm) (uint (up_tos prm))
        (up_priority prm) IPPROTO_UDP st = (sock, st1)" "0 \<le> sock"
        "udp_upload P sock port (up_duration_ms prm) (ucast (up_packet_size prm)) (up_rate_kbps prm) res st1 =
           Some (Inr (ret, res', st2))"
        "r = Some res'" "st' = zsock_close P sock st2"
  using assms
  by (auto simp: zperf_udp_upload_def Let_def split: sockaddr.splits prod.splits if_splits option.splits sum.splits)

text \<open>The packets an upload sends, split into data and end packets.\<close>

lemma udp_upload_trace:
  assumes "errno_positive P"
    and "zperf_udp_upload P (Some prm) (Some res) st = Some (Inr (0, Some res', st'))"
  obtains evs ps q qs where "trace st' = trace st @ evs" "sent evs = ps @ q # qs"
    "packet_ids ps = map of_nat [0..<length ps]" "ps \<noteq> []"
    "length qs \<le> 1" "\<forall>(s, d) \<in> set (q # qs). dg_id (get_datagram d) = - of_nat (length ps)"
    "nb_packets_sent res' = of_nat (length ps)"
    "\<forall>(s, d) \<in> set (ps @ q # qs). length d = unat (udp_packet_size (ucast (up_packet_size prm)))"
  using assms(2)
proof (cases rule: zperf_udp_uploadE)
  case family
  then show thesis by (simp add: EINVAL_def)
next
  case socket
  then show thesis by simp
next
  case (upload port sock st1 res2 st2)
  from prepare_upload_sock_sent [OF upload(1)] obtain e1 where e1: "trace st1 = trace st @ e1" "sent e1 = []" by blast
  from udp_upload_sends [OF assms(1) upload(3)] obtain e2 ps qs where
    e2: "trace st2 = trace st1 @ e2" "sent e2 = ps @ qs" and ps: "ps \<noteq> []" "packet_ids ps = map of_nat [0..<length ps]"
      "packet_ids qs = replicate (length qs) (- of_nat (length ps))" "qs \<noteq> []" "length qs \<le> 2"
      "nb_packets_sent res2 = of_nat (length ps)"
      "\<forall>(s, d) \<in> set (ps @ qs). s = sock \<and> length d = unat (udp_packet_size (ucast (up_packet_size prm)))"
    by auto
  obtain q qs' where qs: "qs = q # qs'" using ps(4) by (cases qs) auto
  have "x = - of_nat (length ps)" if "x \<in> set (packet_ids qs)" for x using that ps(3) by simp
  then have "\<forall>(s, d) \<in> set qs. dg_id (get_datagram d) = - of_nat (length ps)" by (force simp: packet_ids_def)
  with e1 e2 ps upload(4,5) show thesis
    by (intro that [of "e1 @ e2 @ [Ev_close sock]" ps q qs']) (auto simp: zsock_close_def qs)
qed

section \<open>A concrete upload\<close>

definition demo_params :: zperf_upload_params where
  "demo_params = \<lparr>up_peer_addr = Sockaddr_in 9 7, up_duration_ms = 1, up_rate_kbps = 10, up_packet_size = 20,
     up_tos = 0, up_tcp_nodelay = 0, up_priority = - 1\<rparr>"

definition demo_uploader :: "demo_world udp_uploader" where
  "demo_uploader = \<lparr>world = demo_start, trace = [], sample_packet = replicate sizeof_sample_packet 0\<rparr>"

lemma demo_clock_laws: "clock_laws demo_platform demo_clock 1 100"
  by (simp add: clock_laws_def demo_platform_def)

lemma demo_drain_laws: "drain_laws demo_platform (\<lambda>w. length (demo_inbox w))"
  by (auto simp: drain_laws_def demo_platform_def EAGAIN_def split: list.splits prod.splits)

text \<open>An upload of 1 ms to a peer that answers with a report.\<close>

definition demo_uploader_run :: "demo_world udp_uploader" where
  "demo_uploader_run = demo_uploader
     \<lparr>world := demo_start\<lparr>demo_inbox := [(replicate 52 0, Sockaddr_in 9 7)]\<rparr>\<rparr>"

lemma demo_times:
  "k_ms_to_ticks_ceil64 demo_platform 1 = 1"
  "zperf_packet_duration 20 10 = Inr 15625"
  "k_us_to_ticks_ceil32 demo_platform 15625 = 15"
  "adjust_delay 15 100 101 15 = 29"
  "udp_packet_size 20 = 20"
  by code_simp+

lemma demo_calls [simp]:
  "xTaskGetTickCount demo_platform = (\<lambda>w. (of_nat (demo_clock w), w\<lparr>demo_clock := demo_clock w + 1\<rparr>))"
  "vTaskDelay demo_platform = (\<lambda>d w. w\<lparr>demo_clock := demo_clock w + min (unat d) 100\<rparr>)"
  "pdMS_TO_TICKS demo_platform = (\<lambda>ms. ms)"
  "lwip_send demo_platform = (\<lambda>s d w. (int (length d), w))"
  "lwip_setsockopt demo_platform = (\<lambda>s opt w. (0, w))"
  "lwip_recv demo_platform = (\<lambda>s n dw w.
     (case demo_inbox w of [] \<Rightarrow> (-1, [], w\<lparr>demo_errno := EAGAIN\<rparr>)
      | (d, a) # rest \<Rightarrow> (int (length (take n d)), take n d, w\<lparr>demo_inbox := rest\<rparr>)))"
  by (simp_all add: demo_platform_def)

lemma demo_loop:
  assumes "world st = demo_start\<lparr>demo_clock := 101, demo_inbox := b, demo_next_fd := k\<rparr>"
  shows "\<exists>st'. udp_upload_loop demo_platform 3 port 20 10 15 101 \<lparr>lp_delay = 15, lp_last = 100, lp_nb = 0\<rparr> st =
      Some (Inr \<lparr>lp_delay = 29, lp_last = 101, lp_nb = 1\<rparr>, st') \<and> demo_inbox (world st') = b"
proof -
  obtain st' where "udp_upload_iter demo_platform 3 port 20 10 15 \<lparr>lp_delay = 15, lp_last = 100, lp_nb = 0\<rparr> st =
      (Inr \<lparr>lp_delay = 29, lp_last = 101, lp_nb = 1\<rparr>, st')" and "demo_inbox (world st') = b"
    using assms
    by (simp add: udp_upload_iter_def k_uptime_ticks_def zsock_send_def k_sleep_def demo_start_def demo_times Let_def)
  then show ?thesis by (subst udp_upload_loop.simps) simp
qed

lemma demo_fin:
  assumes "demo_inbox (world st) = [(replicate 52 0, a)]"
  shows "\<exists>res' st'. zperf_upload_fin demo_platform 3 nb e 20 res st = Some (0, res', st')"
proof -
  have att: "\<exists>stats' st'. upload_fin_attempt demo_platform 3 nb secs usecs 20 (replicate 52 0) st = (52, stats', st')"
    for secs usecs
    using assms
    by (simp add: upload_fin_attempt_def zsock_send_def zsock_setsockopt_def zsock_recv_def Let_def)
  have "\<exists>stats' st'. upload_fin_loop 2 demo_platform 3 nb secs usecs 20 0 (replicate 52 0) st = (52, stats', st')"
    for secs usecs using att [of secs usecs] by (auto simp: numeral_2_eq_2)
  then obtain stats' st' where "upload_fin_loop 2 demo_platform 3 nb (k_ticks_to_ms_ceil32 demo_platform (ucast e) div 1000)
      (k_ticks_to_us_ceil32 demo_platform (ucast e) - k_ticks_to_ms_ceil32 demo_platform (ucast e) div 1000 * USEC_PER_SEC)
      20 0 (replicate 52 0) st = (52, stats', st')" by blast
  moreover obtain st2 where "upload_drain demo_platform 3 (length stats') st' = Some st2"
    using upload_drain_returns [OF demo_drain_laws] by blast
  ultimately show ?thesis by (simp add: zperf_upload_fin_def Let_def sizeof_defs)
qed

lemma demo_upload_succeeds:
  assumes "world st = demo_start\<lparr>demo_inbox := [(replicate 52 0, a)], demo_next_fd := k\<rparr>"
  shows "\<exists>res' st'. udp_upload demo_platform 3 port 1 20 10 res st = Some (Inr (0, res', st'))"
proof -
  let ?st = "st\<lparr>world := demo_start\<lparr>demo_clock := 101, demo_inbox := [(replicate 52 0, a)], demo_next_fd := k\<rparr>,
    sample_packet := replicate sizeof_sample_packet (of_char CHR ''z'')\<rparr>"
  obtain st1 where loop: "udp_upload_loop demo_platform 3 port 20 10 15 101
      \<lparr>lp_delay = 15, lp_last = 100, lp_nb = 0\<rparr> ?st = Some (Inr \<lparr>lp_delay = 29, lp_last = 101, lp_nb = 1\<rparr>, st1)"
    and inbox: "demo_inbox (world st1) = [(replicate 52 0, a)]"
    using demo_loop [of ?st k "[(replicate 52 0, a)]" port] by auto
  let ?st2 = "st1\<lparr>world := world st1\<lparr>demo_clock := Suc (demo_clock (world st1))\<rparr>\<rparr>"
  obtain res' st' where "zperf_upload_fin demo_platform 3 1 (ucast (of_nat (demo_clock (world st1)) :: u32)) 20 res ?st2 =
      Some (0, res', st')" using demo_fin [of ?st2 a 1 "ucast (of_nat (demo_clock (world st1)) :: u32)" res] inbox by auto
  with loop assms show ?thesis
    by (simp add: udp_upload_def demo_times k_uptime_ticks_def demo_start_def Let_def)
qed

lemma demo_zperf_upload_succeeds:
  "\<exists>res' st'. zperf_udp_upload demo_platform (Some demo_params) (Some results_zero) demo_uploader_run =
     Some (Inr (0, Some res', st'))"
proof -
  obtain st1 where prep: "zperf_prepare_upload_sock demo_platform (Sockaddr_in 9 7) 0 (- 1) IPPROTO_UDP
      demo_uploader_run = (3, st1)"
    "world st1 = demo_start\<lparr>demo_inbox := [(replicate 52 0, Sockaddr_in 9 7)], demo_next_fd := 4\<rparr>"
    by (simp add: zperf_prepare_upload_sock_def upload_sock_create_def config_defs io_defs demo_platform_def
        demo_uploader_run_def demo_uploader_def demo_start_def Let_def)
  from demo_upload_succeeds [OF prep(2)] obtain res' st' where
    "udp_upload demo_platform 3 (ucast (ntohs 9)) 1 20 10 results_zero st1 = Some (Inr (0, res', st'))" by blast
  with prep(1) show ?thesis by (simp add: zperf_udp_upload_def demo_params_def)
qed

section \<open>Properties\<close>

text \<open>
  C5. A successful upload has sent, all on its socket and all of the size it reports, data packets
  numbered \<open>0, 1, 2, ...\<close> without a gap, then once or twice an end packet with the negated count of
  the data packets; that count is what it reports as sent.
\<close>

theorem udp_upload_packets:
  assumes "errno_positive P"
    and "zperf_udp_upload P (Some prm) (Some res) st = Some (Inr (0, Some res', st'))"
  shows "\<exists>evs ps qs. trace st' = trace st @ evs \<and> sent evs = ps @ qs \<and> ps \<noteq> [] \<and>
    packet_ids ps = map of_nat [0..<length ps] \<and>
    length qs \<in> {1, 2} \<and> packet_ids qs = replicate (length qs) (- of_nat (length ps)) \<and>
    nb_packets_sent res' = of_nat (length ps) \<and>
    (\<forall>(s, d) \<in> set (ps @ qs). length d = unat (udp_packet_size (ucast (up_packet_size prm))))"
proof (rule udp_upload_trace [OF assms])
  fix evs ps q qs
  assume tr: "trace st' = trace st @ evs" "sent evs = ps @ q # qs" "packet_ids ps = map of_nat [0..<length ps]" "ps \<noteq> []"
    "length qs \<le> 1" and ids: "\<forall>(s, d) \<in> set (q # qs). dg_id (get_datagram d) = - of_nat (length ps)"
    and nb: "nb_packets_sent res' = of_nat (length ps)"
    and len: "\<forall>(s, d) \<in> set (ps @ q # qs). length d = unat (udp_packet_size (ucast (up_packet_size prm)))"
  have "packet_ids (q # qs) = replicate (length (q # qs)) (- of_nat (length ps))"
    using ids unfolding packet_ids_def by (intro replicate_eqI) auto
  moreover have "length (q # qs) \<in> {1, 2}" using tr(5) by (cases qs) auto
  ultimately show ?thesis
    using tr nb len by (intro exI [of _ evs] exI [of _ ps] exI [of _ "q # qs"] conjI) simp_all
qed

theorem udp_upload_packets_witness:
  "\<exists>res' st' evs ps qs. zperf_udp_upload demo_platform (Some demo_params) (Some results_zero) demo_uploader_run =
     Some (Inr (0, Some res', st')) \<and> trace st' = trace demo_uploader_run @ evs \<and>
     sent evs = ps @ qs \<and> ps \<noteq> [] \<and> length qs \<in> {1, 2}"
proof -
  obtain res' st' where run: "zperf_udp_upload demo_platform (Some demo_params) (Some results_zero)
      demo_uploader_run = Some (Inr (0, Some res', st'))"
    using demo_zperf_upload_succeeds by blast
  with udp_upload_packets [OF demo_errno_positive run] show ?thesis by blast
qed



text \<open>
  C22. Whatever \<open>zperf_udp_upload\<close> returns, it leaves the open descriptors as they were: the socket
  it opened is closed on success and on every error.
\<close>

theorem udp_upload_closes_socket:
  assumes "errno_positive P"
    and "zperf_udp_upload P (Some prm) (Some res) st = Some (Inr (ret, r, st'))"
  shows "balance (trace st') fd = balance (trace st) fd"
  using assms(2)
proof (cases rule: zperf_udp_uploadE)
  case family
  then show ?thesis by simp
next
  case socket
  with prepare_upload_sock_balance [OF assms(1) socket(1)] show ?thesis by simp
next
  case (upload port sock st1 res2 st2)
  from udp_upload_sends [OF assms(1) upload(3)] have "balance (trace st2) fd = balance (trace st1) fd"
    by (auto simp: quiet_def)
  with prepare_upload_sock_balance [OF assms(1) upload(1), of fd] upload(2,5) show ?thesis
    by (simp add: zsock_close_def)
qed

theorem udp_upload_closes_socket_witness:
  "\<exists>st'. balance (trace st') 3 = balance (trace demo_uploader_run) 3 \<and>
     (\<exists>res'. zperf_udp_upload demo_platform (Some demo_params) (Some results_zero) demo_uploader_run =
        Some (Inr (0, Some res', st')))"
proof -
  obtain res' st' where run: "zperf_udp_upload demo_platform (Some demo_params) (Some results_zero)
      demo_uploader_run = Some (Inr (0, Some res', st'))"
    using demo_zperf_upload_succeeds by blast
  with udp_upload_closes_socket [OF demo_errno_positive run] show ?thesis by blast
qed



end
