(* ===== verification/Zperf_Tcp_Receiver.thy ===== *)
theory Zperf_Tcp_Receiver
  imports Zperf_Demo_Platform
begin

text \<open>
  The TCP server of \<^verbatim>\<open>zperf_tcp_receiver.c\<close>: the handler of received data, the two listening
  sockets, one turn of the poll loop with its accept and receive branches, the control functions and
  the server thread.

  The arrays \<open>fds\<close> and \<open>sock_addr\<close> and the buffer of \<open>tcp_server_session\<close> are static, so they are part
  of the state. Entries 0 and 1 are the listening sockets, the others hold connections. Clearing an
  entry of \<open>sock_addr\<close> sets its family to 0, after which the code reads nothing else of it until the
  entry is written again; the cleared entry is \<open>Sockaddr_other 0\<close>.
\<close>

section \<open>State\<close>

record ('w, 's) tcp_server = "'w shared" +
  tcp_session_cb :: "zperf_callback option"
  tcp_user_data :: user_data
  tcp_server_running :: bool
  tcp_server_stop :: bool
  tcp_server_port :: u16
  tcp_server_addr :: sockaddr
  tcp_server_run :: "'s k_sem"
  tcp_buf :: "u8 list"
  tcp_fds :: "pollfd list"
  tcp_sock_addr :: "sockaddr list"

definition SOCK_ID_IPV4_LISTEN :: nat where "SOCK_ID_IPV4_LISTEN = 0"
definition SOCK_ID_IPV6_LISTEN :: nat where "SOCK_ID_IPV6_LISTEN = 1"
definition SOCK_ID_MAX :: nat where "SOCK_ID_MAX = CONFIG_NET_ZPERF_MAX_SESSIONS + 2"
definition TCP_RECEIVER_BUF_SIZE :: nat where "TCP_RECEIVER_BUF_SIZE = 1500"
definition TCP_POLL_TIMEOUT_MS :: int where "TCP_POLL_TIMEOUT_MS = 100"

lemmas sock_id_defs = SOCK_ID_IPV4_LISTEN_def SOCK_ID_IPV6_LISTEN_def SOCK_ID_MAX_def
  CONFIG_NET_ZPERF_MAX_SESSIONS_def

section \<open>Received data\<close>

definition tcp_put :: "nat \<Rightarrow> session \<Rightarrow> ('w, 's) tcp_server \<Rightarrow> ('w, 's) tcp_server" where
  "tcp_put i s st = st\<lparr>sessions := put_session SESSION_TCP i s (sessions st)\<rparr>"

text \<open>Lines 66 to 75: a new session; the start time is read after the time of the packet.\<close>

definition tcp_session_start ::
  "'w platform \<Rightarrow> nat \<Rightarrow> ('w, 's) tcp_server \<Rightarrow> ('w, 's) tcp_server" where
  "tcp_session_start P i st =
     (let (ticks, st1) = k_uptime_ticks P st;
          session = (zperf_reset_session_stats (sessions st1 ! proto_index SESSION_TCP ! i))
            \<lparr>ses_start_time := ucast ticks, ses_state := STATE_ONGOING\<rparr>;
          st2 = tcp_put i session st1
      in call_session_cb (tcp_session_cb st2) ZPERF_SESSION_STARTED None (tcp_user_data st2) st2)"

text \<open>Lines 79 to 95: the counters and, for no data, the end of the session.\<close>

definition tcp_session_data ::
  "'w platform \<Rightarrow> u64 \<Rightarrow> nat \<Rightarrow> nat \<Rightarrow> ('w, 's) tcp_server \<Rightarrow> ('w, 's) tcp_server" where
  "tcp_session_data P time datalen i st =
     (let session = sessions st ! proto_index SESSION_TCP ! i;
          session1 = session\<lparr>ses_counter := ses_counter session + 1,
                             ses_length := ses_length session + of_nat datalen\<rparr>
      in if datalen = 0 then
           let session2 = session1\<lparr>ses_state := STATE_COMPLETED\<rparr>;
               results = results_zero\<lparr>total_len := ucast (ses_length session2),
                 time_in_us := k_ticks_to_us_ceil32 P (ucast (time - ses_start_time session2))\<rparr>;
               st1 = tcp_put i session2 st
           in call_session_cb (tcp_session_cb st1) ZPERF_SESSION_FINISHED (Some results)
                (tcp_user_data st1) st1
         else tcp_put i session1 st)"

definition tcp_received ::
  "'w platform \<Rightarrow> sockaddr \<Rightarrow> nat \<Rightarrow> ('w, 's) tcp_server \<Rightarrow> ('w, 's) tcp_server" where
  "tcp_received P addr datalen st =
     (let (ticks, st1) = k_uptime_ticks P st;
          time = ucast ticks :: u64;
          (ptr, ss) = get_session addr SESSION_TCP (sessions st1);
          st2 = st1\<lparr>sessions := ss\<rparr>
      in case ptr of None \<Rightarrow> st2
         | Some i \<Rightarrow>
             (case ses_state (ss ! proto_index SESSION_TCP ! i) of
                STATE_ONGOING \<Rightarrow> tcp_session_data P time datalen i st2
              | STATE_LAST_PACKET_RECEIVED \<Rightarrow> st2
              | _ \<Rightarrow> tcp_session_data P time datalen i (tcp_session_start P i st2)))"

section \<open>Listening sockets\<close>

definition tcp_bind_listen_connection ::
  "'w platform \<Rightarrow> pollfd \<Rightarrow> sockaddr \<Rightarrow> ('w, 'z) io_state_scheme \<Rightarrow>
   int \<times> pollfd \<times> ('w, 'z) io_state_scheme" where
  "tcp_bind_listen_connection P pfd address st =
     (let (ret, st1) = zsock_bind P (pfd_fd pfd) address st
      in if ret < 0 then (ret, pfd, st1)
         else let (ret, st2) = zsock_listen P (pfd_fd pfd) 1 st1
              in if ret < 0 then (ret, pfd, st2) else (ret, pfd\<lparr>pfd_events := True\<rparr>, st2))"

definition tcp_session_error_report :: "('w, 's) tcp_server \<Rightarrow> ('w, 's) tcp_server" where
  "tcp_session_error_report st =
     call_session_cb (tcp_session_cb st) ZPERF_SESSION_ERROR None (tcp_user_data st) st"

definition tcp_fds_reset :: "('w, 's) tcp_server \<Rightarrow> ('w, 's) tcp_server" where
  "tcp_fds_reset st = st\<lparr>tcp_fds := map (\<lambda>p. p\<lparr>pfd_fd := -1\<rparr>) (tcp_fds st)\<rparr>"

text \<open>Bind and listen on the socket of entry \<open>k\<close> at \<open>addr\<close>, which is stored in \<open>sock_addr[k]\<close>.\<close>

definition tcp_listen_on ::
  "'w platform \<Rightarrow> nat \<Rightarrow> sockaddr \<Rightarrow> ('w, 's) tcp_server \<Rightarrow> server_ctl \<times> ('w, 's) tcp_server" where
  "tcp_listen_on P k addr st =
     (let st1 = st\<lparr>tcp_sock_addr := (tcp_sock_addr st)[k := addr]\<rparr>;
          (ret, pfd, st2) = tcp_bind_listen_connection P (tcp_fds st1 ! k) addr st1;
          st3 = st2\<lparr>tcp_fds := (tcp_fds st2)[k := pfd]\<rparr>
      in if ret < 0 then (Server_error, st3) else (Server_continue, st3))"

definition tcp_setup_ipv4 ::
  "'w platform \<Rightarrow> ('w, 's) tcp_server \<Rightarrow> server_ctl \<times> ('w, 's) tcp_server" where
  "tcp_setup_ipv4 P st =
     (if \<not> CONFIG_NET_IPV4 then (Server_continue, st)
      else
        let (fd, st1) = zsock_socket P AF_INET SOCK_STREAM IPPROTO_TCP st;
            st2 = st1\<lparr>tcp_fds := (tcp_fds st1)[SOCK_ID_IPV4_LISTEN :=
                    (tcp_fds st1 ! SOCK_ID_IPV4_LISTEN)\<lparr>pfd_fd := fd\<rparr>]\<rparr>
        in if fd < 0 then (Server_error, st2)
           else
             let st3 = select_ipv4 P (tcp_server_addr st2) st2;
                 st4 = st3\<lparr>my4_port := htons (tcp_server_port st3)\<rparr>
             in tcp_listen_on P SOCK_ID_IPV4_LISTEN
                  (copy_sockaddr_in_to_sockaddr_storage (Sockaddr_in (my4_port st4) (my4_addr st4))) st4)"

definition tcp_setup_ipv6 ::
  "'w platform \<Rightarrow> ('w, 's) tcp_server \<Rightarrow> server_ctl \<times> ('w, 's) tcp_server" where
  "tcp_setup_ipv6 P st =
     (if \<not> CONFIG_NET_IPV6 then (Server_continue, st)
      else
        let (fd, st1) = zsock_socket P AF_INET6 SOCK_STREAM IPPROTO_TCP st;
            st2 = st1\<lparr>tcp_fds := (tcp_fds st1)[SOCK_ID_IPV6_LISTEN :=
                    (tcp_fds st1 ! SOCK_ID_IPV6_LISTEN)\<lparr>pfd_fd := fd\<rparr>]\<rparr>
        in if fd < 0 then (Server_error, st2)
           else
             let st3 = select_ipv6 P (tcp_server_addr st2) st2;
                 st4 = st3\<lparr>my6_port := htons (tcp_server_port st3)\<rparr>
             in tcp_listen_on P SOCK_ID_IPV6_LISTEN
                  (copy_sockaddr_in6_to_sockaddr_storage (Sockaddr_in6 (my6_port st4) (my6_addr st4))) st4)"

definition tcp_server_setup ::
  "'w platform \<Rightarrow> ('w, 's) tcp_server \<Rightarrow> server_ctl \<times> ('w, 's) tcp_server" where
  "tcp_server_setup P st =
     (case tcp_setup_ipv4 P (tcp_fds_reset st) of
        (Server_continue, st1) \<Rightarrow> tcp_setup_ipv6 P st1
      | r \<Rightarrow> r)"

section \<open>One turn of the loop\<close>

text \<open>Lines 276 to 306: a connection on listening socket \<open>i\<close>.\<close>

definition tcp_accept ::
  "'w platform \<Rightarrow> nat \<Rightarrow> ('w, 's) tcp_server \<Rightarrow> server_ctl \<times> ('w, 's) tcp_server" where
  "tcp_accept P i st =
     (let (sock, addr, st1) = zsock_accept P (pfd_fd (tcp_fds st ! i)) st
      in if sock < 0 then (Server_error, st1)
         else case find_index (\<lambda>p. pfd_fd p < 0) (drop (SOCK_ID_IPV6_LISTEN + 1) (tcp_fds st1)) of
                None \<Rightarrow> (Server_continue, zsock_close P sock st1)
              | Some k \<Rightarrow>
                  let j = SOCK_ID_IPV6_LISTEN + 1 + k
                  in (Server_continue,
                      st1\<lparr>tcp_fds := (tcp_fds st1)[j := (tcp_fds st1 ! j)\<lparr>pfd_fd := sock, pfd_events := True\<rparr>],
                          tcp_sock_addr := (tcp_sock_addr st1)[j := addr]\<rparr>))"

text \<open>Lines 308 to 326: data, the end or an error on connection \<open>i\<close>.\<close>

definition tcp_recv_conn ::
  "'w platform \<Rightarrow> nat \<Rightarrow> ('w, 's) tcp_server \<Rightarrow> ('w, 's) tcp_server" where
  "tcp_recv_conn P i st =
     (let (r, bytes, st1) = zsock_recv P (pfd_fd (tcp_fds st ! i)) TCP_RECEIVER_BUF_SIZE False st;
          st2 = st1\<lparr>tcp_buf := bytes @ drop (length bytes) (tcp_buf st1)\<rparr>;
          st3 = (if r < 0 then tcp_session_error_report st2 else st2);
          ret = (if r < 0 then 0 else r);
          st4 = tcp_received P (tcp_sock_addr st3 ! i) (nat ret) st3
      in if ret = 0 then
           let st5 = zsock_close P (pfd_fd (tcp_fds st4 ! i)) st4
           in st5\<lparr>tcp_fds := (tcp_fds st5)[i := (tcp_fds st5 ! i)\<lparr>pfd_fd := -1\<rparr>],
                  tcp_sock_addr := (tcp_sock_addr st5)[i := Sockaddr_other 0]\<rparr>
         else st4)"

fun tcp_serve_fds ::
  "'w platform \<Rightarrow> nat list \<Rightarrow> ('w, 's) tcp_server \<Rightarrow> server_ctl \<times> ('w, 's) tcp_server" where
  "tcp_serve_fds P [] st = (Server_continue, st)"
| "tcp_serve_fds P (i # rest) st =
     (let rv = pfd_revents (tcp_fds st ! i)
      in if pollerr rv \<or> pollnval rv then (Server_error, st)
         else if \<not> pollin rv then tcp_serve_fds P rest st
         else if SOCK_ID_IPV4_LISTEN \<le> i \<and> i \<le> SOCK_ID_IPV6_LISTEN then
           (case tcp_accept P i st of
              (Server_continue, st1) \<Rightarrow> tcp_serve_fds P rest st1
            | (ctl, st1) \<Rightarrow> (ctl, st1))
         else if SOCK_ID_IPV6_LISTEN < i \<and> i < SOCK_ID_MAX then
           tcp_serve_fds P rest (tcp_recv_conn P i st)
         else (Server_error, st))"

definition tcp_server_turn ::
  "'w platform \<Rightarrow> ('w, 's) tcp_server \<Rightarrow> server_ctl \<times> ('w, 's) tcp_server" where
  "tcp_server_turn P st =
     (let (ret, fds, st1) = zsock_poll P (tcp_fds st) TCP_POLL_TIMEOUT_MS st;
          st2 = st1\<lparr>tcp_fds := fds\<rparr>
      in if ret < 0 then (Server_error, st2)
         else if tcp_server_stop st2 then (Server_cleanup, st2)
         else if ret = 0 then (Server_continue, st2)
         else tcp_serve_fds P [0..<SOCK_ID_MAX] st2)"

text \<open>Lines 333 to 342: report an error, close the sockets and clear their addresses.\<close>

definition tcp_server_leave ::
  "'w platform \<Rightarrow> server_ctl \<Rightarrow> ('w, 's) tcp_server \<Rightarrow> ('w, 's) tcp_server" where
  "tcp_server_leave P ctl st =
     (let st1 = (if ctl = Server_error then tcp_session_error_report st else st);
          st2 = close_fds P (tcp_fds st1) st1
      in st2\<lparr>tcp_sock_addr := map (\<lambda>(p, a). if pfd_fd p \<ge> 0 then Sockaddr_other 0 else a)
               (zip (tcp_fds st2) (tcp_sock_addr st2))\<rparr>)"

section \<open>Control functions\<close>

definition zperf_tcp_download ::
  "'w platform \<Rightarrow> 's rtos \<Rightarrow> zperf_download_params option \<Rightarrow> zperf_callback option \<Rightarrow> user_data \<Rightarrow>
   ('w, 's) tcp_server \<Rightarrow> (int \<times> ('w, 's) tcp_server) faulty" where
  "zperf_tcp_download P R param callback ud st =
     (case param of
        None \<Rightarrow> Inr (- EINVAL, st)
      | Some prm \<Rightarrow>
          if callback = None then Inr (- EINVAL, st)
          else if tcp_server_running st then Inr (- EALREADY, st)
          else
            let st1 = st\<lparr>tcp_session_cb := callback, tcp_user_data := ud,
                  tcp_server_port := dp_port prm, tcp_server_running := True,
                  tcp_server_stop := False,
                  tcp_server_addr := memcpy_sockaddr P (tcp_server_addr st) (dp_addr prm)\<rparr>
            in (case k_sem_give R (tcp_server_run st1) of
                  Inl e \<Rightarrow> Inl e
                | Inr sem \<Rightarrow> Inr (0, st1\<lparr>tcp_server_run := sem\<rparr>)))"

definition zperf_tcp_download_stop ::
  "('w, 's) tcp_server \<Rightarrow> int \<times> ('w, 's) tcp_server" where
  "zperf_tcp_download_stop st =
     (if \<not> tcp_server_running st then (- EALREADY, st)
      else (0, st\<lparr>tcp_server_stop := True, tcp_session_cb := None\<rparr>))"

section \<open>The server thread\<close>

inductive tcp_step ::
  "'w platform \<Rightarrow> 's rtos \<Rightarrow> unit server_pc \<times> ('w, 's) tcp_server \<Rightarrow>
   unit server_pc \<times> ('w, 's) tcp_server \<Rightarrow> bool"
  for P :: "'w platform" and R :: "'s rtos" where
  init: "k_sem_init R (tcp_server_run st) (initial_count (tcp_server_run st))
           (max_count (tcp_server_run st)) = Inr sem \<Longrightarrow>
     tcp_step P R (Server_created, st) (Server_waiting, st\<lparr>tcp_server_run := sem\<rparr>)"
| start: "k_sem_take R (tcp_server_run st) = Inr (Some sem) \<Longrightarrow>
     tcp_server_setup P (st\<lparr>tcp_server_run := sem\<rparr>) = (Server_continue, st') \<Longrightarrow>
     tcp_step P R (Server_waiting, st) (Server_polling (), st')"
| start_failed: "k_sem_take R (tcp_server_run st) = Inr (Some sem) \<Longrightarrow>
     tcp_server_setup P (st\<lparr>tcp_server_run := sem\<rparr>) = (ctl, st') \<Longrightarrow> ctl \<noteq> Server_continue \<Longrightarrow>
     tcp_step P R (Server_waiting, st) (Server_returned, tcp_server_leave P ctl st')"
| turn: "tcp_server_turn P st = (Server_continue, st') \<Longrightarrow>
     tcp_step P R (Server_polling (), st) (Server_polling (), st')"
| leave: "tcp_server_turn P st = (ctl, st') \<Longrightarrow> ctl \<noteq> Server_continue \<Longrightarrow>
     tcp_step P R (Server_polling (), st) (Server_returned, tcp_server_leave P ctl st')"
| idle: "tcp_step P R (Server_returned, st) (Server_waiting, st\<lparr>tcp_server_running := False\<rparr>)"
| download: "zperf_tcp_download P R param cb ud st = Inr (r, st') \<Longrightarrow>
     tcp_step P R (pc, st) (pc, st')"
| stop: "zperf_tcp_download_stop st = (r, st') \<Longrightarrow> tcp_step P R (pc, st) (pc, st')"

text \<open>The variables as the program starts, after \<open>zperf_session_init\<close>.\<close>

definition tcp_server_initial :: "'w \<Rightarrow> ('w, 's) tcp_server" where
  "tcp_server_initial w =
     \<lparr>world = w, trace = [], my4_port = htons (of_nat MY_SRC_PORT), my4_addr = 0,
      my6_port = htons (of_nat MY_SRC_PORT), my6_addr = IPV6_ANY_ADDR,
      sessions = zperf_session_init sessions_zero,
      tcp_session_cb = None, tcp_user_data = 0, tcp_server_running = False,
      tcp_server_stop = False, tcp_server_port = 0, tcp_server_addr = Sockaddr_other 0,
      tcp_server_run = K_SEM_DEFINE 0 1, tcp_buf = replicate TCP_RECEIVER_BUF_SIZE 0,
      tcp_fds = replicate SOCK_ID_MAX \<lparr>pfd_fd = 0, pfd_events = False, pfd_revents = no_revents\<rparr>,
      tcp_sock_addr = replicate SOCK_ID_MAX (Sockaddr_other 0)\<rparr>"

inductive tcp_reachable ::
  "'w platform \<Rightarrow> 's rtos \<Rightarrow> unit server_pc \<times> ('w, 's) tcp_server \<Rightarrow> bool"
  for P :: "'w platform" and R :: "'s rtos" where
  start_state: "tcp_reachable P R (Server_created, tcp_server_initial w)"
| next_state: "tcp_reachable P R c \<Longrightarrow> tcp_step P R c c' \<Longrightarrow> tcp_reachable P R c'"

section \<open>What the server's work keeps\<close>

definition tcp_control :: "('w, 's) tcp_server \<Rightarrow>
   zperf_callback option \<times> user_data \<times> bool \<times> bool \<times> u16 \<times> sockaddr \<times> 's k_sem" where
  "tcp_control st = (tcp_session_cb st, tcp_user_data st, tcp_server_running st,
     tcp_server_stop st, tcp_server_port st, tcp_server_addr st, tcp_server_run st)"

text \<open>Descriptors that are open but in no entry of the array; the server has none.\<close>

definition tcp_stray :: "('w, 's) tcp_server \<Rightarrow> int \<Rightarrow> int" where
  "tcp_stray st fd = balance (trace st) fd - fds_open (tcp_fds st) fd"

definition tcp_work :: "('w, 's) tcp_server \<Rightarrow> ('w, 's) tcp_server \<Rightarrow> bool" where
  "tcp_work st st' \<longleftrightarrow> tcp_control st' = tcp_control st \<and>
     (sessions_wf (sessions st) \<longrightarrow> sessions_wf (sessions st')) \<and> sessions st' ! 0 = sessions st ! 0 \<and>
     length (tcp_fds st') = length (tcp_fds st) \<and>
     length (tcp_sock_addr st') = length (tcp_sock_addr st) \<and>
     (\<forall>fd \<ge> 0. tcp_stray st' fd = tcp_stray st fd)"

lemmas tcp_work_simps = tcp_work_def tcp_control_def tcp_stray_def

lemma tcp_work_refl: "tcp_work st st"
  by (simp add: tcp_work_def)

lemma tcp_work_trans: "tcp_work a b \<Longrightarrow> tcp_work b c \<Longrightarrow> tcp_work a c"
  by (simp add: tcp_work_def)

lemma tcp_work_quiet: "quiet_ext st st' \<Longrightarrow> tcp_work st st'"
  by (elim quiet_extE) (simp add: tcp_work_simps quiet_def)

lemma tcp_work_put:
  assumes "sessions_wf (sessions st) \<Longrightarrow> i < SESSION_MAX"
    and "peer_of s = peer_of (sessions st ! proto_index SESSION_TCP ! i)"
  shows "tcp_work st (tcp_put i s st)"
  using assms tcp_tab.inv_put_same_peer [of "sessions st" i s]
  by (simp add: tcp_work_simps tcp_put_def put_session_def)

lemma tcp_work_callback: "tcp_work st st' \<Longrightarrow> tcp_work st (call_session_cb cb x r u st')"
  by (erule tcp_work_trans) (intro tcp_work_quiet quiet_intros)

lemma tcp_session_data_work:
  assumes "i < SESSION_MAX"
  shows "tcp_work st (tcp_session_data P time n i st)"
proof -
  let ?s = "sessions st ! proto_index SESSION_TCP ! i"
  let ?s1 = "?s\<lparr>ses_counter := ses_counter ?s + 1, ses_length := ses_length ?s + of_nat n\<rparr>"
  have "peer_of ?s1 = peer_of ?s" and "peer_of (?s1\<lparr>ses_state := STATE_COMPLETED\<rparr>) = peer_of ?s"
    by (intro peer_of_cong; simp)+
  then have "tcp_work st (tcp_put i ?s1 st)"
    and "tcp_work st (tcp_put i (?s1\<lparr>ses_state := STATE_COMPLETED\<rparr>) st)"
    using assms by (simp_all only: tcp_work_put)
  then show ?thesis
    unfolding tcp_session_data_def Let_def by (simp only: tcp_work_callback if_cancel split: if_split) simp
qed

lemma tcp_session_start_work:
  assumes "i < SESSION_MAX"
  shows "tcp_work st (tcp_session_start P i st)"
proof -
  obtain t w where tick: "xTaskGetTickCount P (world st) = (t, w)" by fastforce
  let ?st1 = "st\<lparr>world := w\<rparr>"
  let ?s = "(zperf_reset_session_stats (sessions st ! proto_index SESSION_TCP ! i))
    \<lparr>ses_start_time := ucast t, ses_state := STATE_ONGOING\<rparr>"
  have "peer_of ?s = peer_of (sessions ?st1 ! proto_index SESSION_TCP ! i)"
    by (intro peer_of_cong) (simp_all add: zperf_reset_session_stats_def)
  then have "tcp_work ?st1 (tcp_put i ?s ?st1)" using assms by (simp only: tcp_work_put)
  moreover have "tcp_work st ?st1" by (intro tcp_work_quiet quiet_intros)
  ultimately have "tcp_work st (tcp_put i ?s ?st1)" using tcp_work_trans by blast
  then show ?thesis
    by (simp add: tcp_session_start_def k_uptime_ticks_def tick Let_def tcp_work_callback)
qed

lemma tcp_get_row: "get_session addr SESSION_TCP ss = (r, ss') \<Longrightarrow> ss' ! 0 = ss ! 0"
  using get_session_spec [of SESSION_TCP addr ss] by (auto simp: put_session_def Let_def split: option.splits)

lemma tcp_received_work:
  assumes "sessions_wf (sessions st)"
  shows "tcp_work st (tcp_received P addr n st)"
proof -
  obtain t w where tick: "xTaskGetTickCount P (world st) = (t, w)" by fastforce
  obtain ptr ss where get: "get_session addr SESSION_TCP (sessions st) = (ptr, ss)" by fastforce
  let ?st = "st\<lparr>world := w, sessions := ss\<rparr>"
  have base: "tcp_work st ?st"
    using tcp_tab.inv_get [of "sessions st" addr] tcp_get_row [OF get] get by (simp add: tcp_work_simps)
  show ?thesis
  proof (cases ptr)
    case None
    with base show ?thesis by (simp add: tcp_received_def k_uptime_ticks_def tick get)
  next
    case (Some i)
    with get assms have i: "i < SESSION_MAX" using tcp_tab.get_index by blast
    have "tcp_work st (tcp_session_data P u n i ?st)"
      and "tcp_work st (tcp_session_data P u n i (tcp_session_start P i ?st))" for u
      using base tcp_session_data_work [OF i] tcp_session_start_work [OF i] tcp_work_trans by blast+
    with Some base show ?thesis
      by (simp add: tcp_received_def k_uptime_ticks_def tick get Let_def split: session_state.split)
  qed
qed

text \<open>The branches of the loop.\<close>

lemma tcp_accept_work:
  assumes "tcp_accept P i st = (ctl, st')"
  shows "tcp_work st st'"
proof -
  obtain x a w where acc: "lwip_accept P (pfd_fd (tcp_fds st ! i)) (world st) = (x, a, w)"
    by (metis prod_cases3)
  show ?thesis
  proof (cases "find_index (\<lambda>p. pfd_fd p < 0) (drop 2 (tcp_fds st))")
    case None
    with assms acc show ?thesis
      by (auto simp: tcp_accept_def zsock_accept_def zsock_close_def sock_id_defs tcp_work_simps numeral_2_eq_2
          split: if_splits)
  next
    case (Some k)
    from find_index_SomeD [OF Some] have k: "Suc (Suc k) < length (tcp_fds st)"
      "pfd_fd (tcp_fds st ! Suc (Suc k)) < 0"
      by (auto simp: less_diff_conv)
    with assms acc Some show ?thesis
      by (auto simp: tcp_accept_def zsock_accept_def sock_id_defs tcp_work_simps numeral_2_eq_2 fds_open_update
          split: if_splits)
  qed
qed

text \<open>Closing the connection of entry \<open>i\<close> and clearing the entry.\<close>

definition tcp_close_conn :: "'w platform \<Rightarrow> nat \<Rightarrow> ('w, 's) tcp_server \<Rightarrow> ('w, 's) tcp_server" where
  "tcp_close_conn P i st =
     (let st' = zsock_close P (pfd_fd (tcp_fds st ! i)) st
      in st'\<lparr>tcp_fds := (tcp_fds st')[i := (tcp_fds st' ! i)\<lparr>pfd_fd := -1\<rparr>],
             tcp_sock_addr := (tcp_sock_addr st')[i := Sockaddr_other 0]\<rparr>)"

lemma tcp_close_conn_work:
  "i < length (tcp_fds st) \<Longrightarrow> tcp_work st (tcp_close_conn P i st)"
  by (auto simp: tcp_close_conn_def zsock_close_def tcp_work_simps fds_open_update Let_def)

lemma tcp_recv_conn_work:
  assumes "sessions_wf (sessions st)" and "i < length (tcp_fds st)"
  shows "tcp_work st (tcp_recv_conn P i st)"
proof -
  obtain r bs w where recv: "lwip_recv P (pfd_fd (tcp_fds st ! i)) TCP_RECEIVER_BUF_SIZE False (world st) = (r, bs, w)"
    by (metis prod_cases3)
  define st1 where "st1 = st\<lparr>world := w, trace := trace st @ [Ev_recv (pfd_fd (tcp_fds st ! i)) r]\<rparr>"
  define st2 where "st2 = st1\<lparr>tcp_buf := bs @ drop (length bs) (tcp_buf st1)\<rparr>"
  define st3 where "st3 = (if r < 0 then tcp_session_error_report st2 else st2)"
  define st4 where "st4 = tcp_received P (tcp_sock_addr st3 ! i) (nat (if r < 0 then 0 else r)) st3"
  have "tcp_work st st2" by (simp add: st1_def st2_def tcp_work_simps)
  then have w3: "tcp_work st st3"
    by (auto simp: st3_def tcp_session_error_report_def intro: tcp_work_callback)
  with assms(1) have "tcp_work st3 st4"
    unfolding st4_def by (intro tcp_received_work) (simp add: tcp_work_def)
  with w3 have w4: "tcp_work st st4" by (rule tcp_work_trans)
  with assms(2) have "tcp_work st (tcp_close_conn P i st4)"
    by (intro tcp_work_trans [OF w4] tcp_close_conn_work) (simp add: tcp_work_def)
  moreover have "tcp_recv_conn P i st = (if r < 0 \<or> r = 0 then tcp_close_conn P i st4 else st4)"
    unfolding tcp_recv_conn_def zsock_recv_def recv tcp_close_conn_def
    by (simp add: st1_def st2_def st3_def st4_def Let_def)
  ultimately show ?thesis using w4 by simp
qed

lemma tcp_serve_fds_work:
  assumes "tcp_serve_fds P is st = (ctl, st')" and "sessions_wf (sessions st)"
    and "\<forall>i \<in> set is. i < length (tcp_fds st)"
  shows "tcp_work st st'"
  using assms
proof (induction "is" arbitrary: st)
  case Nil
  then show ?case by (simp add: tcp_work_refl)
next
  case (Cons i rest)
  have step: "tcp_work st st'" if "tcp_work st st1" and "tcp_serve_fds P rest st1 = (ctl, st')" for st1
    using that Cons.IH [OF that(2)] Cons.prems(2,3) tcp_work_trans [OF that(1)]
    by (auto simp: tcp_work_def)
  show ?case
    using Cons.prems tcp_accept_work [of P i st] tcp_recv_conn_work [of st i P] step [OF tcp_work_refl]
    by (auto simp: Let_def tcp_work_refl split: if_splits prod.splits server_ctl.splits dest: step)
qed

lemma tcp_work_poll:
  assumes "zsock_poll P (tcp_fds st) t st = (r, fds, st1)"
  shows "tcp_work st (st1\<lparr>tcp_fds := fds\<rparr>)"
proof -
  from quiet_extE [OF poll_quiet [OF assms]] obtain w evs
    where "st1 = st\<lparr>world := w, trace := trace st @ evs\<rparr>" and "quiet evs" .
  moreover have "length fds = length (tcp_fds st)" and "fds_open fds = fds_open (tcp_fds st)"
    using poll_fds [OF assms] fds_open_cong by (metis length_map)+
  ultimately show ?thesis by (simp add: tcp_work_simps quiet_def)
qed

definition tcp_shape :: "('w, 's) tcp_server \<Rightarrow> bool" where
  "tcp_shape st \<longleftrightarrow> sessions_wf (sessions st) \<and> length (tcp_fds st) = SOCK_ID_MAX \<and>
     length (tcp_sock_addr st) = SOCK_ID_MAX"

lemma tcp_work_shape: "tcp_work st st' \<Longrightarrow> tcp_shape st \<Longrightarrow> tcp_shape st'"
  by (simp add: tcp_work_def tcp_shape_def)

lemma tcp_server_turn_work:
  assumes "tcp_server_turn P st = (ctl, st')" and "tcp_shape st"
  shows "tcp_work st st'"
proof -
  obtain r fds st1 where poll: "zsock_poll P (tcp_fds st) TCP_POLL_TIMEOUT_MS st = (r, fds, st1)"
    by (metis prod_cases3)
  note work = tcp_work_poll [OF poll]
  then have "tcp_shape (st1\<lparr>tcp_fds := fds\<rparr>)" using assms(2) by (rule tcp_work_shape)
  then have serve: "tcp_work st st'" if "tcp_serve_fds P [0..<SOCK_ID_MAX] (st1\<lparr>tcp_fds := fds\<rparr>) = (ctl, st')"
    by (intro tcp_work_trans [OF work] tcp_serve_fds_work [OF that]) (simp_all add: tcp_shape_def)
  show ?thesis
    using assms(1) poll work serve by (auto simp: tcp_server_turn_def Let_def split: if_splits)
qed

section \<open>Set-up and clean-up\<close>

lemma tcp_listen_on_work:
  assumes "tcp_listen_on P k addr st = (ctl, st')"
  shows "tcp_work st st'"
proof -
  obtain r1 w1 where b: "lwip_bind P (pfd_fd (tcp_fds st ! k)) addr (world st) = (r1, w1)" by fastforce
  obtain r2 w2 where l: "lwip_listen P (pfd_fd (tcp_fds st ! k)) 1 w1 = (r2, w2)" by fastforce
  have same: "fds_open ((tcp_fds st)[k := (tcp_fds st ! k)\<lparr>pfd_events := True\<rparr>]) = fds_open (tcp_fds st)"
    by (rule fds_open_cong) (simp add: map_update, metis list_update_id map_update)
  show ?thesis
    using assms same
    by (auto simp: tcp_listen_on_def tcp_bind_listen_connection_def zsock_bind_def zsock_listen_def b l
        tcp_work_simps Let_def split: if_splits)
qed

text \<open>
  Opening a listening socket into a free entry and choosing the local address.
\<close>

lemma tcp_work_socket:
  assumes "k < length (tcp_fds st)" and "pfd_fd (tcp_fds st ! k) < 0"
    and "zsock_socket P f t p st = (fd, st1)"
  shows "tcp_work st (st1\<lparr>tcp_fds := (tcp_fds st1)[k := (tcp_fds st1 ! k)\<lparr>pfd_fd := fd\<rparr>]\<rparr>)"
  using assms
  by (auto simp: zsock_socket_def tcp_work_simps fds_open_update split: prod.splits)

lemma tcp_work_select4: "tcp_work st ((select_ipv4 P sa st)\<lparr>my4_port := q\<rparr>)"
  by (rule select_ipv4_effect [of P sa st]) (simp add: tcp_work_simps)

lemma tcp_work_select6: "tcp_work st ((select_ipv6 P sa st)\<lparr>my6_port := q\<rparr>)"
  by (rule select_ipv6_effect [of P sa st]) (simp add: tcp_work_simps)

lemma tcp_setup_ipv4_work:
  assumes "tcp_setup_ipv4 P st = (ctl, st')" and "0 < length (tcp_fds st)" and "pfd_fd (tcp_fds st ! 0) < 0"
  shows "tcp_work st st'"
proof -
  obtain fd st1 where sock: "zsock_socket P AF_INET SOCK_STREAM IPPROTO_TCP st = (fd, st1)" by fastforce
  note w1 = tcp_work_socket [OF assms(2,3) sock]
  note w2 = tcp_work_trans [OF w1 tcp_work_select4]
  show ?thesis
    using assms(1) sock w1
    by (auto simp: tcp_setup_ipv4_def config_defs sock_id_defs Let_def split: if_splits
        intro: tcp_work_trans [OF w2] dest!: tcp_listen_on_work)
qed

lemma tcp_setup_ipv6_work:
  assumes "tcp_setup_ipv6 P st = (ctl, st')" and "1 < length (tcp_fds st)" and "pfd_fd (tcp_fds st ! 1) < 0"
  shows "tcp_work st st'"
proof -
  obtain fd st1 where sock: "zsock_socket P AF_INET6 SOCK_STREAM IPPROTO_TCP st = (fd, st1)" by fastforce
  note w1 = tcp_work_socket [OF assms(2,3) sock]
  note w2 = tcp_work_trans [OF w1 tcp_work_select6]
  show ?thesis
    using assms(1) sock w1
    by (auto simp: tcp_setup_ipv6_def config_defs sock_id_defs Let_def split: if_splits
        intro: tcp_work_trans [OF w2] dest!: tcp_listen_on_work)
qed

lemma tcp_setup_ipv4_other:
  assumes "tcp_setup_ipv4 P st = (ctl, st')"
  shows "tcp_fds st' ! 1 = tcp_fds st ! 1"
proof -
  obtain fd w where sock: "lwip_socket P AF_INET SOCK_STREAM IPPROTO_TCP (world st) = (fd, w)" by fastforce
  let ?st = "st\<lparr>world := w, trace := trace st @ [Ev_socket AF_INET SOCK_STREAM IPPROTO_TCP fd],
    tcp_fds := (tcp_fds st)[0 := (tcp_fds st ! 0)\<lparr>pfd_fd := fd\<rparr>]\<rparr>"
  obtain a w' where sel: "select_ipv4 P (tcp_server_addr st) ?st = ?st\<lparr>world := w', my4_addr := a\<rparr>"
    by (rule select_ipv4_effect)
  show ?thesis
    using assms sel
    by (auto simp: tcp_setup_ipv4_def tcp_listen_on_def tcp_bind_listen_connection_def config_defs sock_id_defs
        zsock_socket_def zsock_bind_def zsock_listen_def sock Let_def split: if_splits prod.splits)
qed

lemma tcp_server_setup_effect:
  assumes "tcp_server_setup P st = (ctl, st')" and "tcp_shape st"
  shows "tcp_control st' = tcp_control st \<and> tcp_shape st' \<and> sessions st' ! 0 = sessions st ! 0 \<and>
    (\<forall>fd \<ge> 0. tcp_stray st' fd = balance (trace st) fd)"
proof -
  let ?st = "tcp_fds_reset st"
  have len: "length (tcp_fds st) = 6" using assms(2) by (simp add: tcp_shape_def sock_id_defs)
  then have neg: "pfd_fd (tcp_fds ?st ! k) < 0" if "k < 6" for k
    using that by (simp add: tcp_fds_reset_def)
  have "fds_open (tcp_fds ?st) fd = 0" for fd
    by (induction "tcp_fds st") (auto simp: tcp_fds_reset_def fds_open_def comp_def)
  then have reset: "tcp_control ?st = tcp_control st" "tcp_shape ?st" "sessions ?st = sessions st"
      "tcp_stray ?st fd = balance (trace st) fd" for fd
    using assms(2) by (simp_all add: tcp_fds_reset_def tcp_control_def tcp_shape_def tcp_stray_def)
  obtain ctl1 st1 where four: "tcp_setup_ipv4 P ?st = (ctl1, st1)" by fastforce
  have w1: "tcp_work ?st st1"
    by (rule tcp_setup_ipv4_work [OF four]) (simp_all add: len neg tcp_fds_reset_def)
  have "tcp_work ?st st'"
  proof (cases "ctl1 = Server_continue")
    case True
    with assms(1) four have six: "tcp_setup_ipv6 P st1 = (ctl, st')" by (simp add: tcp_server_setup_def)
    have "pfd_fd (tcp_fds st1 ! 1) < 0" using tcp_setup_ipv4_other [OF four] neg [of 1] by simp
    moreover have "1 < length (tcp_fds st1)" using w1 len by (simp add: tcp_work_def tcp_fds_reset_def)
    ultimately have "tcp_work st1 st'" by (intro tcp_setup_ipv6_work [OF six])
    with w1 show ?thesis by (rule tcp_work_trans)
  next
    case False
    with assms(1) four w1 show ?thesis by (cases ctl1) (simp_all add: tcp_server_setup_def)
  qed
  with reset tcp_work_shape [of ?st st'] show ?thesis by (simp add: tcp_work_def)
qed

lemma tcp_server_leave_effect:
  assumes "tcp_shape st"
  shows "tcp_control (tcp_server_leave P ctl st) = tcp_control st \<and>
    tcp_shape (tcp_server_leave P ctl st) \<and> sessions (tcp_server_leave P ctl st) ! 0 = sessions st ! 0 \<and>
    (\<forall>fd \<ge> 0. balance (trace (tcp_server_leave P ctl st)) fd = tcp_stray st fd)"
proof -
  define st1 where "st1 = (if ctl = Server_error then tcp_session_error_report st else st)"
  have "tcp_work st st1"
    by (auto simp: st1_def tcp_session_error_report_def tcp_work_refl intro: tcp_work_callback)
  moreover from this assms have "tcp_shape st1" by (rule tcp_work_shape)
  moreover obtain w evs where "close_fds P (tcp_fds st1) st1 = st1\<lparr>world := w, trace := trace st1 @ evs\<rparr>"
    "\<forall>fd. balance evs fd = - fds_open (tcp_fds st1) fd"
    using close_fds_effect [of P "tcp_fds st1" st1] by blast
  ultimately show ?thesis
    by (simp add: tcp_server_leave_def st1_def [symmetric] tcp_work_simps tcp_shape_def Let_def)
qed

section \<open>The lifecycle of the server\<close>

interpretation tcp_ctl: server_control "zperf_tcp_download P R" zperf_tcp_download_stop
  tcp_server_running tcp_server_stop tcp_session_cb "\<lambda>st. sem_count cnt (tcp_server_run st)"
  "\<lambda>st. sem_laws R cnt cap \<and> sem_is_binary cap (tcp_server_run st)" for P R cnt cap
proof (unfold_locales, goal_cases)
  case (1 prm cb ud st)
  then show ?case by (cases prm) (auto simp: zperf_tcp_download_def)
next
  case (2 st p f ud)
  then show ?case by (simp add: zperf_tcp_download_def)
next
  case (3 st p f ud)
  then obtain sem where "k_sem_give R (tcp_server_run st) = Inr sem"
    by (auto simp: k_sem_give_def sem_is_binary_def split: option.splits)
  with 3 k_sem_give_count [of R cnt cap "tcp_server_run st" sem] show ?case
    by (auto simp: zperf_tcp_download_def Let_def)
qed (auto simp: zperf_tcp_download_stop_def)

fun tcp_phase_ok :: "('s \<Rightarrow> nat) \<Rightarrow> ('s \<Rightarrow> nat) \<Rightarrow> unit server_pc \<times> ('w, 's) tcp_server \<Rightarrow> bool" where
  "tcp_phase_ok cnt cap (Server_created, st) \<longleftrightarrow>
     \<not> tcp_server_running st \<and> tcp_server_run st = K_SEM_DEFINE 0 1"
| "tcp_phase_ok cnt cap (Server_waiting, st) \<longleftrightarrow>
     sem_is_binary cap (tcp_server_run st) \<and>
     sem_count cnt (tcp_server_run st) = of_bool (tcp_server_running st)"
| "tcp_phase_ok cnt cap (pc, st) \<longleftrightarrow>
     sem_is_binary cap (tcp_server_run st) \<and> tcp_server_running st \<and>
     sem_count cnt (tcp_server_run st) = 0"

definition tcp_inv :: "('s \<Rightarrow> nat) \<Rightarrow> ('s \<Rightarrow> nat) \<Rightarrow> unit server_pc \<times> ('w, 's) tcp_server \<Rightarrow> bool" where
  "tcp_inv cnt cap c \<longleftrightarrow> tcp_shape (snd c) \<and> tcp_phase_ok cnt cap c \<and>
     (\<forall>fd \<ge> 0. balance (trace (snd c)) fd =
        (if fst c = Server_polling () then fds_open (tcp_fds (snd c)) fd else 0))"

lemma tcp_download_frame:
  assumes "zperf_tcp_download P R prm cb ud st = Inr (r, st')"
  shows "trace st' = trace st \<and> tcp_fds st' = tcp_fds st \<and> (tcp_shape st' \<longleftrightarrow> tcp_shape st)"
  using assms
  by (auto simp: zperf_tcp_download_def Let_def tcp_shape_def split: option.splits if_splits sum.splits)

lemma tcp_stop_frame:
  assumes "zperf_tcp_download_stop st = (r, st')"
  shows "trace st' = trace st \<and> tcp_fds st' = tcp_fds st \<and> (tcp_shape st' \<longleftrightarrow> tcp_shape st)"
  using assms by (auto simp: zperf_tcp_download_stop_def tcp_shape_def split: if_splits)

lemma tcp_download_phase:
  assumes laws: "sem_laws R cnt cap" and ok: "tcp_phase_ok cnt cap (pc, st)"
    and call: "zperf_tcp_download P R prm cb ud st = Inr (r, st')"
  shows "tcp_phase_ok cnt cap (pc, st')"
proof (cases pc)
  case Server_created
  with ok call show ?thesis
    by (auto simp: zperf_tcp_download_def k_sem_give_def K_SEM_DEFINE_def Let_def
        split: option.splits if_splits)
next
  case Server_waiting
  with laws ok tcp_ctl.waiting_download [OF _ _ call, of cnt cap] show ?thesis by simp
next
  case (Server_polling u)
  with laws ok tcp_ctl.serving_download [OF _ _ call, of cnt cap] show ?thesis by simp
next
  case Server_returned
  with laws ok tcp_ctl.serving_download [OF _ _ call, of cnt cap] show ?thesis by simp
qed

lemma tcp_stop_phase:
  assumes "tcp_phase_ok cnt cap (pc, st)" and "zperf_tcp_download_stop st = (r, st')"
  shows "tcp_phase_ok cnt cap (pc, st')"
  using assms by (cases pc) (auto simp: zperf_tcp_download_stop_def split: if_splits)

lemma tcp_inv_initial: "tcp_inv cnt cap (Server_created, tcp_server_initial w)"
  using sessions_wf_init [OF sessions_wf_zero]
  by (simp add: tcp_inv_def tcp_shape_def tcp_server_initial_def)

lemma tcp_inv_step:
  assumes "sem_laws R cnt cap" and "tcp_step P R c c'" and "tcp_inv cnt cap c"
  shows "tcp_inv cnt cap c'"
  using assms(2)
proof (cases rule: tcp_step.cases)
  case (init st sem)
  with assms show ?thesis
    by (auto simp: tcp_inv_def tcp_shape_def K_SEM_DEFINE_def dest: k_sem_init_count)
next
  case (start st sem st')
  with assms tcp_server_setup_effect [OF start(4)] k_sem_take_count [OF assms(1) _ start(3)]
  show ?thesis by (auto simp: tcp_inv_def tcp_control_def tcp_shape_def tcp_stray_def)
next
  case (start_failed st sem ctl st')
  with assms tcp_server_setup_effect [OF start_failed(4)] k_sem_take_count [OF assms(1) _ start_failed(3)]
    tcp_server_leave_effect [of st' P ctl]
  show ?thesis by (auto simp: tcp_inv_def tcp_control_def tcp_shape_def)
next
  case (turn st st')
  with assms tcp_server_turn_work [OF turn(3)] tcp_work_shape [of st st'] show ?thesis
    by (auto simp: tcp_inv_def tcp_work_simps)
next
  case (leave st ctl st')
  with assms tcp_server_turn_work [OF leave(3)] tcp_work_shape [of st st']
    tcp_server_leave_effect [of st' P ctl]
  show ?thesis by (auto simp: tcp_inv_def tcp_work_simps)
next
  case (idle st)
  with assms show ?thesis by (auto simp: tcp_inv_def tcp_shape_def)
next
  case (download prm cb ud st r st' pc)
  with assms tcp_download_frame [OF download(3)] tcp_download_phase [OF assms(1) _ download(3)]
  show ?thesis by (simp add: tcp_inv_def)
next
  case (stop st r st' pc)
  with assms tcp_stop_frame [OF stop(3)] tcp_stop_phase [OF _ stop(3)] show ?thesis
    by (simp add: tcp_inv_def)
qed

lemma tcp_reachable_inv:
  assumes "sem_laws R cnt cap" and "tcp_reachable P R c"
  shows "tcp_inv cnt cap c"
  using assms(2)
  by (induction rule: tcp_reachable.induct)
    (blast intro: tcp_inv_initial tcp_inv_step [OF assms(1)])+

end
