(* ===== verification/Zperf_Tcp_Properties.thy ===== *)
theory Zperf_Tcp_Properties
  imports Zperf_Tcp_Receiver
begin

text \<open>
  What the TCP server guarantees: in every reachable state of the server and its clients, for the
  stream of data of one connection, and for a connection request.
\<close>

section \<open>The stream of one connection\<close>

definition tcp_slot :: "('w, 's) tcp_server \<Rightarrow> nat \<Rightarrow> session" where
  "tcp_slot st i = sessions st ! proto_index SESSION_TCP ! i"

definition tcp_owns :: "('w, 's) tcp_server \<Rightarrow> sockaddr \<Rightarrow> nat \<Rightarrow> bool" where
  "tcp_owns st addr i \<longleftrightarrow> sessions_wf (sessions st) \<and> i < SESSION_MAX \<and> peer_of (tcp_slot st i) = Some addr"

lemma tcp_owns_get:
  "tcp_owns st addr i \<Longrightarrow> get_session addr SESSION_TCP (sessions st) = (Some i, sessions st)"
  using sessions_wf_row [of "sessions st" SESSION_TCP]
  by (intro tcp_tab.get_known) (auto simp: tcp_owns_def tcp_slot_def)

lemma tcp_owns_put:
  assumes "tcp_owns st addr i" and "peer_of s = Some addr"
  shows "tcp_owns (tcp_put i s st) addr i" and "tcp_slot (tcp_put i s st) i = s"
proof -
  have len: "proto_index SESSION_TCP < length (sessions st)" "i < length (sessions st ! 1)"
    using assms(1) sessions_wf_row [of "sessions st" SESSION_TCP]
    by (auto simp: tcp_owns_def sessions_wf_def)
  then show slot: "tcp_slot (tcp_put i s st) i = s"
    using row_put_session [OF len(1), of i s] by (simp add: tcp_slot_def tcp_put_def)
  have "sessions_wf (sessions (tcp_put i s st))"
    using assms by (simp add: tcp_put_def tcp_owns_def tcp_slot_def tcp_tab.inv_put_same_peer)
  with slot assms show "tcp_owns (tcp_put i s st) addr i" by (simp add: tcp_owns_def)
qed

text \<open>
  Slot \<open>i\<close> is an ongoing session of the peer with the given numbers of pieces and bytes, and the
  application is listening.
\<close>

definition tcp_ongoing ::
  "sockaddr \<Rightarrow> nat \<Rightarrow> zperf_callback \<Rightarrow> user_data \<Rightarrow> nat \<Rightarrow> nat \<Rightarrow> io_event list \<Rightarrow> ('w, 's) tcp_server \<Rightarrow> bool" where
  "tcp_ongoing addr i f u k n tr st \<longleftrightarrow> tcp_owns st addr i \<and>
     ses_state (tcp_slot st i) = STATE_ONGOING \<and> ses_counter (tcp_slot st i) = of_nat k \<and>
     ses_length (tcp_slot st i) = of_nat n \<and> tcp_session_cb st = Some f \<and> tcp_user_data st = u \<and>
     trace st = tr"

lemma tcp_session_start_ongoing:
  assumes "tcp_owns st addr i" and "tcp_session_cb st = Some f"
  shows "tcp_ongoing addr i f (tcp_user_data st) 0 0
    (trace st @ [Ev_callback f ZPERF_SESSION_STARTED None (tcp_user_data st)]) (tcp_session_start P i st)"
proof -
  obtain t w where tick: "xTaskGetTickCount P (world st) = (t, w)" by fastforce
  let ?s = "(zperf_reset_session_stats (tcp_slot st i))\<lparr>ses_start_time := ucast t, ses_state := STATE_ONGOING\<rparr>"
  have own: "tcp_owns (st\<lparr>world := w\<rparr>) addr i" using assms(1) by (simp add: tcp_owns_def tcp_slot_def)
  have peer: "peer_of ?s = Some addr"
    using assms(1) peer_of_cong [of ?s "tcp_slot st i"]
    by (simp add: tcp_owns_def zperf_reset_session_stats_def)
  let ?st = "tcp_put i ?s (st\<lparr>world := w\<rparr>)"
  have "tcp_session_start P i st =
      ?st\<lparr>trace := trace st @ [Ev_callback f ZPERF_SESSION_STARTED None (tcp_user_data st)]\<rparr>"
    using assms(2)
    by (simp add: tcp_session_start_def k_uptime_ticks_def tick call_session_cb_def tcp_put_def tcp_slot_def Let_def)
  with tcp_owns_put [OF own peer] assms(2) show ?thesis
    by (simp add: tcp_ongoing_def tcp_owns_def tcp_slot_def tcp_put_def zperf_reset_session_stats_def)
qed

lemma tcp_session_data_ongoing:
  assumes "tcp_ongoing addr i f u k n tr st" and "0 < m"
  shows "tcp_ongoing addr i f u (Suc k) (n + m) tr (tcp_session_data P time m i st)"
proof -
  let ?s = "(tcp_slot st i)\<lparr>ses_counter := ses_counter (tcp_slot st i) + 1,
    ses_length := ses_length (tcp_slot st i) + of_nat m\<rparr>"
  have own: "tcp_owns st addr i" using assms(1) by (simp add: tcp_ongoing_def)
  have peer: "peer_of ?s = Some addr"
    using own peer_of_cong [of ?s "tcp_slot st i"] by (simp add: tcp_owns_def)
  have "tcp_session_data P time m i st = tcp_put i ?s st"
    using assms(2) by (simp add: tcp_session_data_def tcp_slot_def Let_def)
  with tcp_owns_put [OF own peer] assms(1) show ?thesis
    by (simp add: tcp_ongoing_def tcp_put_def)
qed

lemma tcp_session_data_eof:
  assumes "tcp_ongoing addr i f u k n tr st"
  shows "\<exists>t. trace (tcp_session_data P time 0 i st) = tr @ [Ev_callback f ZPERF_SESSION_FINISHED
      (Some (results_zero\<lparr>total_len := of_nat n, time_in_us := t\<rparr>)) u] \<and>
    ses_state (tcp_slot (tcp_session_data P time 0 i st) i) = STATE_COMPLETED \<and>
    ses_counter (tcp_slot (tcp_session_data P time 0 i st) i) = of_nat (Suc k)"
proof -
  let ?s = "(tcp_slot st i)\<lparr>ses_counter := ses_counter (tcp_slot st i) + 1, ses_state := STATE_COMPLETED\<rparr>"
  have own: "tcp_owns st addr i" using assms(1) by (simp add: tcp_ongoing_def)
  have peer: "peer_of ?s = Some addr"
    using own peer_of_cong [of ?s "tcp_slot st i"] by (simp add: tcp_owns_def)
  have len: "(ucast (of_nat n :: u64) :: u32) = of_nat n"
    by (rule bit_word_eqI) (simp add: bit_simps)
  show ?thesis
    using tcp_owns_put [OF own peer] assms(1)
    by (auto simp: tcp_session_data_def tcp_ongoing_def call_session_cb_def Let_def tcp_slot_def tcp_put_def len
        intro!: exI)
qed

lemma tcp_received_ongoing:
  assumes "tcp_ongoing addr i f u k n tr st"
  obtains t w where "tcp_received P addr m st = tcp_session_data P t m i (st\<lparr>world := w\<rparr>)"
    "tcp_ongoing addr i f u k n tr (st\<lparr>world := w\<rparr>)"
proof -
  obtain t w where tick: "xTaskGetTickCount P (world st) = (t, w)" by fastforce
  with assms tcp_owns_get [of st addr i] show thesis
    by (intro that [of "ucast t" w])
      (simp_all add: tcp_received_def k_uptime_ticks_def tcp_ongoing_def tcp_slot_def tcp_owns_def)
qed

lemma tcp_receive_pieces:
  assumes "tcp_ongoing addr i f u k n tr st" and "\<forall>m \<in> set ms. 0 < m"
  shows "tcp_ongoing addr i f u (k + length ms) (n + sum_list ms) tr (fold (tcp_received P addr) ms st)"
  using assms
proof (induction ms arbitrary: k n st)
  case Nil
  then show ?case by simp
next
  case (Cons m ms)
  from Cons.prems(1) obtain t w where "tcp_received P addr m st = tcp_session_data P t m i (st\<lparr>world := w\<rparr>)"
    and "tcp_ongoing addr i f u k n tr (st\<lparr>world := w\<rparr>)" by (rule tcp_received_ongoing)
  with Cons.prems(2) have "tcp_ongoing addr i f u (Suc k) (n + m) tr (tcp_received P addr m st)"
    by (simp add: tcp_session_data_ongoing)
  from Cons.IH [OF this] Cons.prems(2) show ?case by (simp add: add.assoc)
qed

lemma tcp_received_free:
  assumes "tcp_owns st addr i" and "session_free (tcp_slot st i)" and "tcp_session_cb st = Some f"
  obtains t st1 where "tcp_received P addr m st = tcp_session_data P t m i st1"
    "tcp_ongoing addr i f (tcp_user_data st) 0 0
      (trace st @ [Ev_callback f ZPERF_SESSION_STARTED None (tcp_user_data st)]) st1"
proof -
  obtain t w where tick: "xTaskGetTickCount P (world st) = (t, w)" by fastforce
  have own: "tcp_owns (st\<lparr>world := w\<rparr>) addr i" using assms(1) by (simp add: tcp_owns_def tcp_slot_def)
  from tcp_session_start_ongoing [OF own, of f P] assms(3)
  have ongoing: "tcp_ongoing addr i f (tcp_user_data st) 0 0
      (trace st @ [Ev_callback f ZPERF_SESSION_STARTED None (tcp_user_data st)])
      (tcp_session_start P i (st\<lparr>world := w\<rparr>))" by simp
  have "tcp_received P addr m st = tcp_session_data P (ucast t) m i (tcp_session_start P i (st\<lparr>world := w\<rparr>))"
    using assms(2) tick tcp_owns_get [OF assms(1)]
    by (auto simp: tcp_received_def k_uptime_ticks_def session_free_def tcp_slot_def Let_def)
  then show thesis using ongoing by (rule that)
qed

section \<open>A concrete server\<close>

definition demo_tcp_server :: "(demo_world, nat \<times> nat) tcp_server" where
  "demo_tcp_server = (tcp_server_initial demo_start)
     \<lparr>sessions := one_peer_sessions SESSION_TCP, tcp_session_cb := Some 1,
      tcp_fds := replicate SOCK_ID_MAX \<lparr>pfd_fd = - 1, pfd_events = False, pfd_revents = no_revents\<rparr>\<rparr>"

lemma demo_tcp_owns: "tcp_owns demo_tcp_server (Sockaddr_in 9 7) 2"
  using one_peer_sessions_wf [of SESSION_TCP] one_peer_sessions_row [of SESSION_TCP]
  by (simp add: tcp_owns_def tcp_slot_def demo_tcp_server_def)

lemma demo_tcp_free: "session_free (tcp_slot demo_tcp_server 2)"
  using one_peer_sessions_row [of SESSION_TCP]
  by (simp add: tcp_slot_def demo_tcp_server_def session_free_def session_claim_def config_defs session_zero_def)

lemma demo_tcp_trace: "trace demo_tcp_server = []" "tcp_session_cb demo_tcp_server = Some 1"
  "tcp_user_data demo_tcp_server = 0"
  by (simp_all add: demo_tcp_server_def tcp_server_initial_def)

section \<open>A whole stream\<close>

lemma tcp_stream_report:
  assumes "tcp_owns st addr i" and "session_free (tcp_slot st i)" and "tcp_session_cb st = Some f"
    and "\<forall>m \<in> set ms. 0 < m"
  shows "\<exists>t. let st' = fold (tcp_received P addr) (ms @ [0]) st in
    trace st' = trace st @ [Ev_callback f ZPERF_SESSION_STARTED None (tcp_user_data st),
      Ev_callback f ZPERF_SESSION_FINISHED
        (Some (results_zero\<lparr>total_len := of_nat (sum_list ms), time_in_us := t\<rparr>)) (tcp_user_data st)] \<and>
    ses_state (tcp_slot st' i) = STATE_COMPLETED \<and>
    ses_counter (tcp_slot st' i) = of_nat (Suc (length ms))"
proof -
  let ?u = "tcp_user_data st"
  let ?tr = "trace st @ [Ev_callback f ZPERF_SESSION_STARTED None ?u]"
  have "\<exists>t st1. tcp_ongoing addr i f ?u (length ms) (sum_list ms) ?tr st1 \<and>
      fold (tcp_received P addr) (ms @ [0]) st = tcp_session_data P t 0 i st1"
  proof (cases ms)
    case Nil
    then show ?thesis by (rule_tac tcp_received_free [OF assms(1-3), of P 0]) auto
  next
    case (Cons m rest)
    obtain t1 st1 where "tcp_received P addr m st = tcp_session_data P t1 m i st1"
      and "tcp_ongoing addr i f ?u 0 0 ?tr st1"
      by (rule tcp_received_free [OF assms(1-3)])
    with Cons assms(4) have "tcp_ongoing addr i f ?u 1 m ?tr (tcp_received P addr m st)"
      using tcp_session_data_ongoing by fastforce
    with Cons assms(4) have on: "tcp_ongoing addr i f ?u (length ms) (sum_list ms) ?tr
        (fold (tcp_received P addr) ms st)"
      using tcp_receive_pieces [of addr i f ?u 1 m ?tr "tcp_received P addr m st" rest P] by simp
    show ?thesis by (rule tcp_received_ongoing [OF on, of P 0]) auto
  qed
  then obtain t st1 where on: "tcp_ongoing addr i f ?u (length ms) (sum_list ms) ?tr st1"
    and "fold (tcp_received P addr) (ms @ [0]) st = tcp_session_data P t 0 i st1" by blast
  with tcp_session_data_eof [OF on, of P t] show ?thesis by (simp add: Let_def)
qed

section \<open>Properties\<close>



text \<open>
  In every reachable state the session table is well formed, the array has its six entries, and
  the open descriptors are exactly those of the array while a session runs and none otherwise: no
  connection or listening socket is leaked, whatever the clients and the network do.
\<close>

lemma tcp_server_invariant:
  assumes "sem_laws R cnt cap" and "tcp_reachable P R (pc, st)" and "0 \<le> fd"
  shows "sessions_wf (sessions st) \<and> length (tcp_fds st) = SOCK_ID_MAX \<and>
    balance (trace st) fd = (case pc of Server_polling _ \<Rightarrow> fds_open (tcp_fds st) fd | _ \<Rightarrow> 0)"
  using tcp_reachable_inv [OF assms(1,2)] assms(3)
  by (cases pc) (simp_all add: tcp_inv_def tcp_shape_def)

text \<open>
  The life cycle of the TCP server: as for UDP, the semaphore has a unit exactly when a download
  was accepted and not yet started, and it is empty while the server serves.
\<close>

lemma tcp_server_lifecycle:
  assumes "sem_laws R cnt cap" and "tcp_reachable P R (pc, st)"
  shows "case pc of Server_created \<Rightarrow> \<not> tcp_server_running st
    | Server_waiting \<Rightarrow> sem_count cnt (tcp_server_run st) = of_bool (tcp_server_running st)
    | _ \<Rightarrow> tcp_server_running st \<and> sem_count cnt (tcp_server_run st) = 0"
  using tcp_reachable_inv [OF assms] by (cases pc) (simp_all add: tcp_inv_def)

text \<open>
  C26. An accepted connection takes a free entry of the array, or is closed at once when all four are
  taken; a connection that has an entry keeps it, with its peer address.
\<close>

theorem tcp_accept_keeps_connections:
  assumes "length (tcp_fds st) = SOCK_ID_MAX"
    and "lwip_accept P (pfd_fd (tcp_fds st ! i)) (world st) = (sock, addr, w)" and "0 \<le> sock"
  shows "\<exists>st'. tcp_accept P i st = (Server_continue, st') \<and>
    (\<forall>k. 0 \<le> pfd_fd (tcp_fds st ! k) \<longrightarrow> k < SOCK_ID_MAX \<longrightarrow>
       tcp_fds st' ! k = tcp_fds st ! k \<and> tcp_sock_addr st' ! k = tcp_sock_addr st ! k) \<and>
    (if \<exists>k \<in> {2..<SOCK_ID_MAX}. pfd_fd (tcp_fds st ! k) < 0
     then \<exists>k \<in> {2..<SOCK_ID_MAX}. pfd_fd (tcp_fds st ! k) < 0 \<and> pfd_fd (tcp_fds st' ! k) = sock
     else trace st' = trace st @ [Ev_accept (pfd_fd (tcp_fds st ! i)) sock, Ev_close sock])"
proof (cases "find_index (\<lambda>p. pfd_fd p < 0) (drop 2 (tcp_fds st))")
  case None
  then have "0 \<le> pfd_fd (tcp_fds st ! (2 + j))" if "2 + j < SOCK_ID_MAX" for j
    using assms(1) that nth_mem [of j "drop 2 (tcp_fds st)"] by (force simp: find_index_None_iff less_diff_conv)
  then have "\<not> (\<exists>k \<in> {2..<SOCK_ID_MAX}. pfd_fd (tcp_fds st ! k) < 0)"
    by (metis atLeastLessThan_iff le_Suc_ex not_less)
  with None assms(2,3) show ?thesis
    by (simp add: tcp_accept_def zsock_accept_def zsock_close_def SOCK_ID_IPV6_LISTEN_def numeral_2_eq_2)
next
  case (Some j)
  from find_index_SomeD [OF Some] assms(1) have j: "2 + j < SOCK_ID_MAX" "pfd_fd (tcp_fds st ! (2 + j)) < 0"
    by auto
  let ?st' = "st\<lparr>world := w, trace := trace st @ [Ev_accept (pfd_fd (tcp_fds st ! i)) sock],
    tcp_fds := (tcp_fds st)[2 + j := (tcp_fds st ! (2 + j))\<lparr>pfd_fd := sock, pfd_events := True\<rparr>],
    tcp_sock_addr := (tcp_sock_addr st)[2 + j := addr]\<rparr>"
  have "tcp_accept P i st = (Server_continue, ?st')"
    using Some assms by (simp add: tcp_accept_def zsock_accept_def SOCK_ID_IPV6_LISTEN_def numeral_2_eq_2)
  moreover have "pfd_fd (tcp_fds ?st' ! (2 + j)) = sock" "2 + j \<in> {2..<SOCK_ID_MAX}"
    using j assms(1) by simp_all
  moreover have "tcp_fds ?st' ! k = tcp_fds st ! k \<and> tcp_sock_addr ?st' ! k = tcp_sock_addr st ! k"
    if "0 \<le> pfd_fd (tcp_fds st ! k)" for k
  proof -
    have "2 + j \<noteq> k" using that j(2) by auto
    then show ?thesis by simp
  qed
  ultimately show ?thesis using j(2) by (intro exI [of _ ?st']) auto
qed

theorem tcp_accept_keeps_connections_witness:
  "\<exists>st'. tcp_accept demo_platform 0 demo_tcp_server = (Server_continue, st')"
  using tcp_accept_keeps_connections [of demo_tcp_server demo_platform 0 3 "Sockaddr_in 9 7"
      "demo_start\<lparr>demo_next_fd := 4\<rparr>"]
  by (auto simp: demo_tcp_server_def tcp_server_initial_def demo_platform_def demo_start_def)

text \<open>
  Stopping a running TCP server ends its session at the next turn of the loop; what the session
  still does is to close its sockets, and no callback is made.
\<close>

theorem tcp_stop_ends_session:
  assumes "tcp_server_running st" and "lwip_poll P (tcp_fds st) TCP_POLL_TIMEOUT_MS (world st) = (n, rv, w)"
    and "0 \<le> n"
  shows "\<exists>st1 st2. zperf_tcp_download_stop st = (0, st1) \<and>
    tcp_server_turn P st1 = (Server_cleanup, st2) \<and>
    trace (tcp_server_leave P Server_cleanup st2) =
      trace st @ Ev_poll n # map Ev_close (filter (\<lambda>fd. 0 \<le> fd) (map pfd_fd (tcp_fds st)))"
proof -
  let ?st1 = "st\<lparr>tcp_server_stop := True, tcp_session_cb := None\<rparr>"
  obtain r fds st2 where poll: "zsock_poll P (tcp_fds ?st1) TCP_POLL_TIMEOUT_MS ?st1 = (r, fds, st2)"
    by (metis prod_cases3)
  from poll_fds [OF poll] poll assms show ?thesis
    by (auto simp: zperf_tcp_download_stop_def tcp_server_turn_def tcp_server_leave_def close_fds_trace
        zsock_poll_def Let_def)
qed

theorem tcp_stop_ends_session_witness:
  "\<exists>st1. zperf_tcp_download_stop (demo_tcp_server\<lparr>tcp_server_running := True\<rparr>) = (0, st1)"
  using tcp_stop_ends_session [of "demo_tcp_server\<lparr>tcp_server_running := True\<rparr>" demo_platform
      0 "\<lambda>i. no_revents" demo_start]
  by (auto simp: demo_platform_def demo_tcp_server_def tcp_server_initial_def demo_start_def no_revents_def)

text \<open>
  C36. A connection that is closed before it sent anything is reported with a wrapped duration when
  the clock ticks between the two readings: the start time is read after the time it is subtracted
  from.
\<close>

theorem tcp_empty_stream_time:
  assumes "tcp_owns st addr i" and "session_free (tcp_slot st i)" and "tcp_session_cb st = Some f"
    and "xTaskGetTickCount P (world st) = (t, w)" and "xTaskGetTickCount P w = (t + 1, w')"
  shows "last (trace (tcp_received P addr 0 st)) = Ev_callback f ZPERF_SESSION_FINISHED
    (Some (results_zero\<lparr>time_in_us := k_ticks_to_us_ceil32 P (- 1)\<rparr>)) (tcp_user_data st)"
proof -
  have own: "tcp_owns (st\<lparr>world := w\<rparr>) addr i" using assms(1) by (simp add: tcp_owns_def tcp_slot_def)
  let ?st1 = "tcp_session_start P i (st\<lparr>world := w\<rparr>)"
  have on: "tcp_ongoing addr i f (tcp_user_data st) 0 0
      (trace st @ [Ev_callback f ZPERF_SESSION_STARTED None (tcp_user_data st)]) ?st1"
    using tcp_session_start_ongoing [OF own, of f P] assms(3) by simp
  have len: "proto_index SESSION_TCP < length (sessions st)" "i < length (sessions st ! 1)"
    using assms(1) sessions_wf_row [of "sessions st" SESSION_TCP]
    by (auto simp: tcp_owns_def sessions_wf_def)
  have "ses_start_time (tcp_slot ?st1 i) = ucast (t + 1)"
    using assms(5) len
    by (simp add: tcp_session_start_def k_uptime_ticks_def call_session_cb_def tcp_slot_def tcp_put_def
        put_session_def Let_def split: option.split)
  moreover have "tcp_received P addr 0 st = tcp_session_data P (ucast t) 0 i ?st1"
    using assms(2,4) tcp_owns_get [OF assms(1)]
    by (auto simp: tcp_received_def k_uptime_ticks_def session_free_def tcp_slot_def Let_def)
  ultimately show ?thesis
    using on ucast_diff_u64 [of t "t + 1"]
    by (simp add: tcp_session_data_def tcp_ongoing_def call_session_cb_def tcp_slot_def tcp_put_def Let_def
        results_zero_def)
qed

theorem tcp_empty_stream_time_witness:
  "last (trace (tcp_received demo_platform (Sockaddr_in 9 7) 0 demo_tcp_server)) =
     Ev_callback 1 ZPERF_SESSION_FINISHED
       (Some (results_zero\<lparr>time_in_us := k_ticks_to_us_ceil32 demo_platform (- 1)\<rparr>)) 0"
  using tcp_empty_stream_time [OF demo_tcp_owns demo_tcp_free, of 1 demo_platform 100
      "demo_start\<lparr>demo_clock := 101\<rparr>" "demo_start\<lparr>demo_clock := 102\<rparr>"]
  by (simp add: demo_tcp_trace demo_tcp_server_def tcp_server_initial_def demo_platform_def demo_start_def)

end
