(* ===== verification/Zperf_Tcp_Uploader.thy ===== *)
theory Zperf_Tcp_Uploader
  imports Zperf_Udp_Uploader
begin

text \<open>
  The TCP uploader of \<^verbatim>\<open>zperf_tcp_uploader.c\<close>: \<open>sendall\<close>, the sending loop and \<open>zperf_tcp_upload\<close>.
  Its state extends that of the UDP uploader by its own packet buffer, since both run on the same
  work queue.

  \<open>sendall\<close> runs until the stack has taken the whole buffer and the sending loop until the clock
  reaches its time point; both are \<open>partial_function\<close>s into \<open>option\<close>, and under \<open>send_laws\<close> and
  \<open>clock_laws\<close> both are shown to return. A send that claims more bytes than it was given would move
  the buffer pointer out of the buffer: the fault \<open>Out_of_bounds\<close>.
\<close>

section \<open>State\<close>

record 'w tcp_uploader = "'w udp_uploader" +
  tcp_sample_packet :: "u8 list"

section \<open>Sending\<close>

partial_function (option) sendall ::
  "'w platform \<Rightarrow> int \<Rightarrow> u8 list \<Rightarrow> ('w, 'z) tcp_uploader_scheme \<Rightarrow>
   (int \<times> ('w, 'z) tcp_uploader_scheme) faulty option" where
  "sendall P sock buf st =
     (if buf = [] then Some (Inr (0, st))
      else let (out_len, st') = zsock_send P sock buf st
           in if out_len < 0 then Some (Inr (out_len, st'))
              else if length buf < nat out_len then Some (Inl Out_of_bounds)
              else sendall P sock (drop (nat out_len) buf) st')"

text \<open>The counters of \<open>tcp_upload\<close> and the return code of the last send.\<close>

record tcp_loop =
  tl_nb :: u32
  tl_errors :: u32
  tl_alloc :: u32
  tl_ret :: int

text \<open>Lines 70 to 99: one iteration; the flag is set when the loop is left by \<open>break\<close>.\<close>

definition tcp_upload_iter ::
  "'w platform \<Rightarrow> int \<Rightarrow> u32 \<Rightarrow> tcp_loop \<Rightarrow> ('w, 'z) tcp_uploader_scheme \<Rightarrow>
   (bool \<times> tcp_loop \<times> ('w, 'z) tcp_uploader_scheme) faulty option" where
  "tcp_upload_iter P sock psize lp st =
     (case sendall P sock (take (unat psize) (tcp_sample_packet st)) st of
        None \<Rightarrow> None
      | Some (Inl f) \<Rightarrow> Some (Inl f)
      | Some (Inr (ret, st1)) \<Rightarrow>
          Some (Inr (
            if ret < 0 then
              if errno_now P st1 = - ENOMEM
              then (False, lp\<lparr>tl_ret := ret, tl_errors := tl_errors lp + 1, tl_alloc := tl_alloc lp + 1\<rparr>, k_yield P st1)
              else (True, lp\<lparr>tl_ret := - errno_now P st1, tl_errors := tl_errors lp + 1\<rparr>, st1)
            else (False, lp\<lparr>tl_ret := ret, tl_nb := tl_nb lp + 1\<rparr>, k_yield P st1))))"

partial_function (option) tcp_upload_loop ::
  "'w platform \<Rightarrow> int \<Rightarrow> u32 \<Rightarrow> u64 \<Rightarrow> tcp_loop \<Rightarrow> ('w, 'z) tcp_uploader_scheme \<Rightarrow>
   (tcp_loop \<times> ('w, 'z) tcp_uploader_scheme) faulty option" where
  "tcp_upload_loop P sock psize endp lp st =
     (case tcp_upload_iter P sock psize lp st of
        None \<Rightarrow> None
      | Some (Inl f) \<Rightarrow> Some (Inl f)
      | Some (Inr (brk, lp', st1)) \<Rightarrow>
          if brk then Some (Inr (lp', st1))
          else let (expired, st2) = sys_timepoint_expired P endp st1
               in if expired then Some (Inr (lp', st2)) else tcp_upload_loop P sock psize endp lp' st2)"

text \<open>Lines 53 to 57: only an upper bound.\<close>

definition tcp_packet_size :: "u32 \<Rightarrow> u32" where
  "tcp_packet_size psize = (if of_nat PACKET_SIZE_MAX < psize then of_nat PACKET_SIZE_MAX else psize)"

text \<open>Lines 62 to 68: the buffer, with four zero bytes for the \<open>flags\<close> field.\<close>

definition tcp_fill_packet :: "u8 list" where
  "tcp_fill_packet = replicate 4 0 @ drop 4 (replicate PACKET_SIZE_MAX (of_char CHR ''z''))"

definition tcp_upload ::
  "'w platform \<Rightarrow> int \<Rightarrow> u32 \<Rightarrow> u32 \<Rightarrow> zperf_results \<Rightarrow> ('w, 'z) tcp_uploader_scheme \<Rightarrow>
   (int \<times> zperf_results \<times> ('w, 'z) tcp_uploader_scheme) faulty option" where
  "tcp_upload P sock duration_in_ms packet_size0 results st =
     (let (endp, st1) = sys_timepoint_calc P (pdMS_TO_TICKS P duration_in_ms) st;
          psize = tcp_packet_size packet_size0;
          (ticks, st2) = k_uptime_ticks P st1;
          start_time = ucast ticks :: u64;
          st3 = st2\<lparr>tcp_sample_packet := tcp_fill_packet\<rparr>
      in (case tcp_upload_loop P sock psize endp \<lparr>tl_nb = 0, tl_errors = 0, tl_alloc = 0, tl_ret = 0\<rparr> st3 of
            None \<Rightarrow> None
          | Some (Inl f) \<Rightarrow> Some (Inl f)
          | Some (Inr (lp, st4)) \<Rightarrow>
              let (ticks', st5) = k_uptime_ticks P st4; end_time = ucast ticks' :: u64;
                  results' = results\<lparr>nb_packets_sent := tl_nb lp,
                    client_time_in_us := k_ticks_to_us_ceil32 P (ucast (end_time - start_time)),
                    packet_size := psize, nb_packets_errors := tl_errors lp\<rparr>
              in Some (Inr (if tl_ret lp < 0 then tl_ret lp else 0, results', st5))))"

definition zperf_tcp_upload ::
  "'w platform \<Rightarrow> zperf_upload_params option \<Rightarrow> zperf_results option \<Rightarrow> ('w, 'z) tcp_uploader_scheme \<Rightarrow>
   (int \<times> zperf_results option \<times> ('w, 'z) tcp_uploader_scheme) faulty option" where
  "zperf_tcp_upload P param result st =
     (case (param, result) of
        (Some prm, Some res) \<Rightarrow>
          let (sock, st1) = zperf_prepare_upload_sock P (up_peer_addr prm) (uint (up_tos prm))
                (up_priority prm) IPPROTO_TCP st
          in if sock < 0 then Some (Inr (sock, result, st1))
             else let (failed, st2) =
                    (if up_tcp_nodelay prm \<noteq> 0
                     then let (r, st2) = zsock_setsockopt P sock (TCP_NODELAY (up_tcp_nodelay prm)) st1
                          in (r \<noteq> 0, st2)
                     else (False, st1))
             in if failed then Some (Inr (- EINVAL, result, st2))
                else (case tcp_upload P sock (up_duration_ms prm) (ucast (up_packet_size prm)) res st2 of
                        None \<Rightarrow> None
                      | Some (Inl f) \<Rightarrow> Some (Inl f)
                      | Some (Inr (ret, res', st3)) \<Rightarrow> Some (Inr (ret, Some res', zsock_close P sock st3)))
      | _ \<Rightarrow> Some (Inr (- EINVAL, result, st)))"

section \<open>The bytes the stack accepted\<close>

fun accepted_of :: "int \<Rightarrow> io_event \<Rightarrow> u8 list" where
  "accepted_of sock (Ev_send s d r) = (if s = sock then take (nat r) d else [])"
| "accepted_of sock _ = []"

definition accepted :: "int \<Rightarrow> io_event list \<Rightarrow> u8 list" where
  "accepted sock evs = concat (map (accepted_of sock) evs)"

lemma accepted_simps [simp]:
  "accepted sock [] = []" "accepted sock (e # es) = accepted_of sock e @ accepted sock es"
  "accepted sock (xs @ ys) = accepted sock xs @ accepted sock ys"
  by (simp_all add: accepted_def)

text \<open>
  \<open>streams sock bs st st'\<close>: between the two states the stack accepted the bytes \<open>bs\<close> on the socket, no
  descriptor was opened or closed and the packet buffer is unchanged.
\<close>

definition streams :: "int \<Rightarrow> u8 list \<Rightarrow> ('w, 'z) tcp_uploader_scheme \<Rightarrow> ('w, 'z) tcp_uploader_scheme \<Rightarrow> bool" where
  "streams sock bs st st' \<longleftrightarrow> (\<exists>evs. trace st' = trace st @ evs \<and> quiet evs \<and> accepted sock evs = bs) \<and>
     tcp_sample_packet st' = tcp_sample_packet st"

lemma streams_refl: "streams sock [] st st"
  by (simp add: streams_def quiet_def)

lemma streams_trans:
  assumes "streams sock bs a b" and "streams sock cs b c"
  shows "streams sock (bs @ cs) a c"
proof -
  obtain ea where "trace b = trace a @ ea" "quiet ea" "accepted sock ea = bs"
    using assms(1) by (auto simp: streams_def)
  moreover obtain eb where "trace c = trace b @ eb" "quiet eb" "accepted sock eb = cs"
    using assms(2) by (auto simp: streams_def)
  ultimately have "\<exists>evs. trace c = trace a @ evs \<and> quiet evs \<and> accepted sock evs = bs @ cs"
    by (intro exI [of _ "ea @ eb"]) (simp add: quiet_append)
  with assms show ?thesis by (auto simp: streams_def)
qed

lemma streams_world:
  "streams sock bs a b \<Longrightarrow> streams sock bs a (b\<lparr>world := w\<rparr>)"
  by (simp add: streams_def)

lemma streams_send:
  "zsock_send P sock buf st = (n, st') \<Longrightarrow> streams sock (take (nat n) buf) st st'"
  by (auto simp: zsock_send_def streams_def quiet_def split: prod.splits)

text \<open>Induction over the sends of a \<open>sendall\<close> that returns a code.\<close>

lemma sendall_induct [consumes 1, case_names finished failed more]:
  assumes "sendall P sock buf st = Some (Inr (ret, st'))"
    and finished: "\<And>st. Q [] st 0 st"
    and failed: "\<And>buf st n st1. zsock_send P sock buf st = (n, st1) \<Longrightarrow> n < 0 \<Longrightarrow> Q buf st n st1"
    and more: "\<And>buf st n st1 ret st'. zsock_send P sock buf st = (n, st1) \<Longrightarrow> 0 \<le> n \<Longrightarrow>
      nat n \<le> length buf \<Longrightarrow> Q (drop (nat n) buf) st1 ret st' \<Longrightarrow> Q buf st ret st'"
  shows "Q buf st ret st'"
proof -
  let ?Q = "\<lambda>(((P0, sock0), buf), st) (r :: _ faulty). P0 = P \<longrightarrow> sock0 = sock \<longrightarrow>
    (\<forall>ret st'. r = Inr (ret, st') \<longrightarrow> Q buf st ret st')"
  have "?Q (((P, sock), buf), st) (Inr (ret, st'))"
  proof (rule sendall.raw_induct [of ?Q, OF _ assms(1)], goal_cases)
    case (1 f P0 sock0 buf st r)
    then show ?case
      by (auto split: prod.splits if_splits simp: not_less intro: finished failed more)
  qed
  then show ?thesis by simp
qed

text \<open>A \<open>sendall\<close> that succeeds has handed over the whole buffer, in order, nothing twice.\<close>

lemma sendall_streams:
  assumes "sendall P sock buf st = Some (Inr (ret, st'))"
  shows "\<exists>bs. streams sock bs st st' \<and> (0 \<le> ret \<longrightarrow> ret = 0 \<and> bs = buf)"
  using assms
proof (induction rule: sendall_induct)
  case (more buf st n st1 ret st')
  then obtain bs where "streams sock bs st1 st'" "0 \<le> ret \<longrightarrow> ret = 0 \<and> bs = drop (nat n) buf" by blast
  with streams_trans [OF streams_send [OF more(1)]] show ?case
    by (intro exI [of _ "take (nat n) buf @ bs"]) auto
qed (auto intro: streams_refl dest: streams_send)

lemma sendall_error:
  assumes "sendall P sock buf st = Some (Inr (ret, st'))" and "errno_positive P" and "ret < 0"
  shows "0 < errno_now P st'"
  using assms(1,3)
proof (induction rule: sendall_induct)
  case (failed buf st n st1)
  with assms(2) show ?case
    by (auto simp: zsock_send_def errno_now_def dest: errno_positiveD split: prod.splits)
qed simp_all

section \<open>The sending loop\<close>

lemma tcp_upload_loop_induct [consumes 1, case_names broken expired more]:
  assumes "tcp_upload_loop P sock psize endp lp st = Some (Inr (lpf, stf))"
    and broken: "\<And>lp st lp1 st1. tcp_upload_iter P sock psize lp st = Some (Inr (True, lp1, st1)) \<Longrightarrow> Q lp st lp1 st1"
    and expired: "\<And>lp st lp1 st1 st2. tcp_upload_iter P sock psize lp st = Some (Inr (False, lp1, st1)) \<Longrightarrow>
      sys_timepoint_expired P endp st1 = (True, st2) \<Longrightarrow> Q lp st lp1 st2"
    and more: "\<And>lp st lp1 st1 st2 lpf stf. tcp_upload_iter P sock psize lp st = Some (Inr (False, lp1, st1)) \<Longrightarrow>
      sys_timepoint_expired P endp st1 = (False, st2) \<Longrightarrow> Q lp1 st2 lpf stf \<Longrightarrow> Q lp st lpf stf"
  shows "Q lp st lpf stf"
proof -
  let ?Q = "\<lambda>(((((P0, sock0), psize0), endp0), lp), st) (r :: _ faulty). P0 = P \<longrightarrow> sock0 = sock \<longrightarrow>
    psize0 = psize \<longrightarrow> endp0 = endp \<longrightarrow> (\<forall>lpf stf. r = Inr (lpf, stf) \<longrightarrow> Q lp st lpf stf)"
  have "?Q (((((P, sock), psize), endp), lp), st) (Inr (lpf, stf))"
  proof (rule tcp_upload_loop.raw_induct [of ?Q, OF _ assms(1)], goal_cases)
    case (1 f P0 sock0 psize0 endp0 lp st r)
    then show ?case
      by (auto split: prod.splits if_splits option.splits sum.splits intro: broken expired more)
  qed
  then show ?thesis by simp
qed

lemma timepoint_streams: "sys_timepoint_expired P e st = (b, st') \<Longrightarrow> streams sock [] st st'"
  by (auto simp: sys_timepoint_expired_def k_uptime_ticks_def Let_def split: prod.splits
      intro: streams_world streams_refl)

text \<open>With positive error numbers an iteration either succeeds or breaks the loop with an error.\<close>

lemma tcp_upload_iter_cases:
  assumes "errno_positive P" and "tcp_upload_iter P sock psize lp st = Some (Inr (brk, lp', st'))"
  shows "(\<exists>bs. streams sock bs st st' \<and> (\<not> brk \<longrightarrow> bs = take (unat psize) (tcp_sample_packet st))) \<and>
    (if brk then tl_ret lp' < 0 else lp' = lp\<lparr>tl_ret := 0, tl_nb := tl_nb lp + 1\<rparr>)"
proof -
  obtain ret st1 where send: "sendall P sock (take (unat psize) (tcp_sample_packet st)) st = Some (Inr (ret, st1))"
    using assms(2) by (auto simp: tcp_upload_iter_def split: option.splits sum.splits prod.splits)
  note err = sendall_error [OF send assms(1)]
  from sendall_streams [OF send] obtain bs where
    bs: "streams sock bs st st1" "0 \<le> ret \<longrightarrow> ret = 0 \<and> bs = take (unat psize) (tcp_sample_packet st)" by blast
  show ?thesis
  proof (cases "ret < 0")
    case True
    with err have "errno_now P st1 \<noteq> - ENOMEM" "0 < errno_now P st1" by (auto simp: ENOMEM_def)
    with True assms(2) send have "brk" "st' = st1" "tl_ret lp' = - errno_now P st1"
      by (auto simp: tcp_upload_iter_def)
    with bs \<open>0 < errno_now P st1\<close> show ?thesis by auto
  next
    case False
    with assms(2) send bs(2) have "\<not> brk" "st' = k_yield P st1" "lp' = lp\<lparr>tl_ret := 0, tl_nb := tl_nb lp + 1\<rparr>"
      by (auto simp: tcp_upload_iter_def)
    with bs False show ?thesis
      by (simp add: k_yield_def) (metis streams_world linorder_not_less)
  qed
qed

lemma tcp_upload_loop_streams:
  assumes "tcp_upload_loop P sock psize endp lp st = Some (Inr (lpf, stf))" and "errno_positive P"
  shows "\<exists>n bs. streams sock bs st stf \<and> (tl_ret lpf < 0 \<or> 0 < n \<and> tl_ret lpf = 0 \<and>
    bs = concat (replicate n (take (unat psize) (tcp_sample_packet st))) \<and>
    tl_nb lpf = tl_nb lp + of_nat n \<and> tl_errors lpf = tl_errors lp)"
  using assms(1)
proof (induction rule: tcp_upload_loop_induct)
  case (broken lp st lp1 st1)
  with tcp_upload_iter_cases [OF assms(2) broken] show ?case by auto
next
  case (expired lp st lp1 st1 st2)
  from tcp_upload_iter_cases [OF assms(2) expired(1)]
  have it: "streams sock (take (unat psize) (tcp_sample_packet st)) st st1" "lp1 = lp\<lparr>tl_ret := 0, tl_nb := tl_nb lp + 1\<rparr>"
    by auto
  from streams_trans [OF it(1) timepoint_streams [OF expired(2)]] it(2) show ?case
    by (intro exI [of _ 1]) auto
next
  case (more lp st lp1 st1 st2 lpf stf)
  from tcp_upload_iter_cases [OF assms(2) more(1)]
  have it: "streams sock (take (unat psize) (tcp_sample_packet st)) st st1" "lp1 = lp\<lparr>tl_ret := 0, tl_nb := tl_nb lp + 1\<rparr>"
    by auto
  note pre = streams_trans [OF it(1) timepoint_streams [OF more(2)], simplified]
  have buf: "tcp_sample_packet st2 = tcp_sample_packet st" using pre by (simp add: streams_def)
  from more(3) obtain n bs where rest: "streams sock bs st2 stf"
    "tl_ret lpf < 0 \<or> 0 < n \<and> tl_ret lpf = 0 \<and> bs = concat (replicate n (take (unat psize) (tcp_sample_packet st2))) \<and>
      tl_nb lpf = tl_nb lp1 + of_nat n \<and> tl_errors lpf = tl_errors lp1" by blast
  from streams_trans [OF pre rest(1)] rest(2) it(2) buf show ?case
    by (intro exI [of _ "Suc n"] exI [of _ "take (unat psize) (tcp_sample_packet st) @ bs"]) auto
qed

end
