(* ===== verification/Zperf_Tcp_Upload_Properties.thy ===== *)
theory Zperf_Tcp_Upload_Properties
  imports Zperf_Tcp_Uploader Zperf_Udp_Upload_Properties
begin

text \<open>
  What \<open>zperf_tcp_upload\<close> guarantees: the byte stream it hands to the stack, that it returns, and
  which sockets it leaves open.
\<close>

section \<open>The upload returns\<close>

text \<open>What \<open>sendall\<close> needs of the stack: a send fails or takes between one byte and all of them.\<close>

definition send_laws :: "'w platform \<Rightarrow> bool" where
  "send_laws P \<longleftrightarrow> (\<forall>s d w r w'. lwip_send P s d w = (r, w') \<longrightarrow> d \<noteq> [] \<longrightarrow> r < 0 \<or> 0 < r \<and> nat r \<le> length d)"

lemma send_lawsD:
  assumes "send_laws P" and "lwip_send P s d w = (r, w')" and "d \<noteq> []" and "0 \<le> r"
  shows "0 < nat r" and "nat r \<le> length d"
proof -
  from assms have "0 < r \<and> nat r \<le> length d" unfolding send_laws_def by fastforce
  then show "0 < nat r" and "nat r \<le> length d" by simp_all
qed

lemma sendall_returns:
  assumes "send_laws P" and "clock_laws P clk q J"
  shows "\<exists>ret st'. sendall P sock buf st = Some (Inr (ret, st')) \<and>
    clk (world st) \<le> clk (world st') \<and> clk (world st') \<le> clk (world st) + length buf * J"
proof (induction "length buf" arbitrary: buf st rule: less_induct)
  case less
  show ?case
  proof (cases "buf = []")
    case True
    then show ?thesis by (subst sendall.simps) simp
  next
    case False
    obtain r w where send: "lwip_send P sock buf (world st) = (r, w)" by fastforce
    let ?st = "st\<lparr>world := w, trace := trace st @ [Ev_send sock buf r]\<rparr>"
    have step: "sendall P sock buf st = (if r < 0 then Some (Inr (r, ?st))
        else if length buf < nat r then Some (Inl Out_of_bounds) else sendall P sock (drop (nat r) buf) ?st)"
      using False by (subst sendall.simps) (simp add: zsock_send_def send)
    have clk: "clk (world st) \<le> clk w" "clk w \<le> clk (world st) + J"
      using assms(2) send unfolding clock_laws_def by (metis snd_conv)+
    from False have J: "J \<le> length buf * J" using mult_le_mono1 [of 1 "length buf" J] by (cases buf) simp_all
    show ?thesis
    proof (cases "r < 0")
      case True
      with step clk J show ?thesis by (simp add: add_left_mono le_trans)
    next
      case r: False
      then have "0 < nat r" "nat r \<le> length buf" using send_lawsD [OF assms(1) send False] by simp_all
      then have shorter: "length (drop (nat r) buf) < length buf" and "Suc (length buf - nat r) \<le> length buf" by auto
      from mult_le_mono1 [OF this(2), of J] have "length (drop (nat r) buf) * J + J \<le> length buf * J" by simp
      with less [OF shorter, of ?st] step r clk \<open>nat r \<le> length buf\<close> show ?thesis by force
    qed
  qed
qed

lemma tcp_upload_iter_returns:
  assumes "send_laws P" and "clock_laws P clk q J" and "unat psize \<le> 1024"
  shows "\<exists>brk lp' st'. tcp_upload_iter P sock psize lp st = Some (Inr (brk, lp', st')) \<and>
    clk (world st) \<le> clk (world st') \<and> clk (world st') \<le> clk (world st) + 1025 * J"
proof -
  let ?buf = "take (unat psize) (tcp_sample_packet st)"
  have "length ?buf * J \<le> 1024 * J" using assms(3) by (intro mult_le_mono1) simp
  with sendall_returns [OF assms(1,2), of sock ?buf st] obtain ret st1 where
    send: "sendall P sock ?buf st = Some (Inr (ret, st1))"
      "clk (world st) \<le> clk (world st1)" "clk (world st1) \<le> clk (world st) + 1024 * J" by fastforce
  have yield: "clk w \<le> clk (taskYIELD P w)" "clk (taskYIELD P w) \<le> clk w + J" for w
    using assms(2) by (simp_all add: clock_laws_def)
  from send yield [of "world st1"] show ?thesis
    by (auto simp: tcp_upload_iter_def k_yield_def)
qed

lemma tcp_upload_loop_returns:
  assumes "send_laws P" and "clock_laws P clk q J" and "unat psize \<le> 1024"
    and "unat endp * q + J \<le> B" and "B + 1025 * J < 2 ^ 32 * q" and "clk (world st) \<le> B"
  shows "\<exists>lp' st'. tcp_upload_loop P sock psize endp lp st = Some (Inr (lp', st'))"
  using assms(6)
proof (induction "B - clk (world st)" arbitrary: lp st rule: less_induct)
  case less
  from tcp_upload_iter_returns [OF assms(1-3), of sock lp st] obtain brk lp1 st1 where
    iter: "tcp_upload_iter P sock psize lp st = Some (Inr (brk, lp1, st1))"
    "clk (world st) \<le> clk (world st1)" "clk (world st1) \<le> clk (world st) + 1025 * J" by blast
  obtain t w where tick: "xTaskGetTickCount P (world st1) = (t, w)" by fastforce
  let ?c = "clk (world st1) div q" and ?st2 = "st1\<lparr>world := w\<rparr>"
  have t: "t = of_nat ?c" and clk: "clk (world st1) < clk w" "clk w \<le> clk (world st1) + J"
    using assms(2) tick unfolding clock_laws_def by (metis fst_conv snd_conv)+
  have "clk (world st1) < 2 ^ 32 * q" using iter(3) less.prems assms(5) by linarith
  then have c: "?c < 2 ^ 32" by (rule less_mult_imp_div_less)
  have step: "tcp_upload_loop P sock psize endp lp st = (if brk then Some (Inr (lp1, st1))
      else if endp \<le> ucast t then Some (Inr (lp1, ?st2)) else tcp_upload_loop P sock psize endp lp1 ?st2)"
    by (subst tcp_upload_loop.simps)
      (simp add: iter sys_timepoint_expired_def k_uptime_ticks_def tick)
  show ?case
  proof (cases "brk \<or> endp \<le> ucast t")
    case True
    with step show ?thesis by auto
  next
    case False
    then have "?c < unat endp" using unat_ucast_of_nat_u32 [OF c] t by (simp add: word_less_nat_alt not_le)
    moreover have "0 < q" using assms(2) by (simp add: clock_laws_def)
    ultimately have "clk (world st1) < unat endp * q" by (simp add: div_less_iff_less_mult)
    with clk iter(2) assms(4) have "clk (world ?st2) \<le> B" "B - clk (world ?st2) < B - clk (world st)" by auto
    with less.hyps [of ?st2 lp1] step False show ?thesis by auto
  qed
qed

lemma tcp_packet_size_le: "unat (tcp_packet_size n) \<le> 1024"
  by (simp add: tcp_packet_size_def PACKET_SIZE_MAX_def word_less_nat_alt)

section \<open>The upload of a connected socket\<close>

lemma tcp_uploadE:
  fixes st :: "('w, 'z) tcp_uploader_scheme"
  assumes "tcp_upload P sock ms n res st = Some (Inr (ret, res', st'))"
  obtains endp lp and st3 st4 :: "('w, 'z) tcp_uploader_scheme" where
    "tcp_upload_loop P sock (tcp_packet_size n) endp \<lparr>tl_nb = 0, tl_errors = 0, tl_alloc = 0, tl_ret = 0\<rparr> st3 =
       Some (Inr (lp, st4))"
    "trace st3 = trace st" "tcp_sample_packet st3 = tcp_fill_packet" "trace st' = trace st4"
    "ret = (if tl_ret lp < 0 then tl_ret lp else 0)" "nb_packets_sent res' = tl_nb lp"
    "nb_packets_errors res' = tl_errors lp" "packet_size res' = tcp_packet_size n"
proof -
  obtain t w where tick: "xTaskGetTickCount P (world st) = (t, w)" by fastforce
  obtain t' w' where tick': "xTaskGetTickCount P w = (t', w')" by fastforce
  let ?endp = "ucast t + ucast (pdMS_TO_TICKS P ms) :: u64"
  let ?st = "st\<lparr>world := w', tcp_sample_packet := tcp_fill_packet\<rparr>"
  obtain lp st4 where loop: "tcp_upload_loop P sock (tcp_packet_size n) ?endp
      \<lparr>tl_nb = 0, tl_errors = 0, tl_alloc = 0, tl_ret = 0\<rparr> ?st = Some (Inr (lp, st4))"
    using assms by (auto simp: tcp_upload_def sys_timepoint_calc_def k_uptime_ticks_def tick tick' Let_def
        split: option.splits sum.splits)
  obtain t2 w2 where "xTaskGetTickCount P (world st4) = (t2, w2)" by fastforce
  with assms loop show thesis
    by (intro that [OF loop])
      (auto simp: tcp_upload_def sys_timepoint_calc_def k_uptime_ticks_def tick tick' Let_def)
qed

lemma tcp_upload_streams:
  fixes st :: "('w, 'z) tcp_uploader_scheme"
  assumes "tcp_upload P sock ms n res st = Some (Inr (ret, res', st'))" and "errno_positive P"
  shows "\<exists>evs. trace st' = trace st @ evs \<and> quiet evs \<and>
    (ret < 0 \<or> ret = 0 \<and> nb_packets_errors res' = 0 \<and> packet_size res' = tcp_packet_size n \<and>
      (\<exists>k>0. accepted sock evs = concat (replicate k (take (unat (tcp_packet_size n)) tcp_fill_packet)) \<and>
         nb_packets_sent res' = of_nat k))"
proof -
  from assms(1) obtain endp lp and st3 st4 :: "('w, 'z) tcp_uploader_scheme" where
    loop: "tcp_upload_loop P sock (tcp_packet_size n) endp \<lparr>tl_nb = 0, tl_errors = 0, tl_alloc = 0, tl_ret = 0\<rparr> st3 =
       Some (Inr (lp, st4))"
    and st: "trace st3 = trace st" "tcp_sample_packet st3 = tcp_fill_packet" "trace st' = trace st4"
    and res: "ret = (if tl_ret lp < 0 then tl_ret lp else 0)" "nb_packets_sent res' = tl_nb lp"
      "nb_packets_errors res' = tl_errors lp" "packet_size res' = tcp_packet_size n"
    by (rule tcp_uploadE)
  from tcp_upload_loop_streams [OF loop assms(2)] obtain k bs where
    k: "streams sock bs st3 st4" "tl_ret lp < 0 \<or> 0 < k \<and> tl_ret lp = 0 \<and>
      bs = concat (replicate k (take (unat (tcp_packet_size n)) (tcp_sample_packet st3))) \<and>
      tl_nb lp = of_nat k \<and> tl_errors lp = 0" by auto
  from k(1) obtain evs where "trace st4 = trace st3 @ evs" "quiet evs" "accepted sock evs = bs"
    by (auto simp: streams_def)
  with k(2) st res show ?thesis by (intro exI [of _ evs]) auto
qed

lemma zperf_tcp_uploadE:
  assumes "zperf_tcp_upload P (Some prm) (Some res) st = Some (Inr (ret, r, st'))"
    and "zperf_prepare_upload_sock P (up_peer_addr prm) (uint (up_tos prm)) (up_priority prm) IPPROTO_TCP st = (sock, st1)"
  obtains (socket) "ret = sock" "sock < 0" "st' = st1" "r = Some res"
    | (nodelay) e st2 where "0 \<le> sock" "up_tcp_nodelay prm \<noteq> 0"
        "zsock_setsockopt P sock (TCP_NODELAY (up_tcp_nodelay prm)) st1 = (e, st2)" "e \<noteq> 0"
        "ret = - EINVAL" "st' = st2" "r = Some res"
    | (upload) st2 res' st3 where "0 \<le> sock"
        "up_tcp_nodelay prm = 0 \<and> st2 = st1 \<or>
           up_tcp_nodelay prm \<noteq> 0 \<and> zsock_setsockopt P sock (TCP_NODELAY (up_tcp_nodelay prm)) st1 = (0, st2)"
        "tcp_upload P sock (up_duration_ms prm) (ucast (up_packet_size prm)) res st2 = Some (Inr (ret, res', st3))"
        "r = Some res'" "st' = zsock_close P sock st3"
  using assms
  by (auto simp: zperf_tcp_upload_def Let_def split: prod.splits if_splits option.splits sum.splits)

lemma setsockopt_trace:
  "zsock_setsockopt P s o' st = (e, st') \<Longrightarrow> trace st' = trace st @ [Ev_setsockopt s o' e]"
  "zsock_setsockopt P s o' st = (e, st') \<Longrightarrow> fst (lwip_setsockopt P s o' (world st)) = e"
  by (auto simp: zsock_setsockopt_def split: prod.splits)

section \<open>A concrete upload\<close>

definition demo_tcp_uploader :: "demo_world tcp_uploader" where
  "demo_tcp_uploader = \<lparr>world = demo_start, trace = [], sample_packet = [], tcp_sample_packet = []\<rparr>"

text \<open>A stack that refuses every socket option.\<close>

definition demo_refusing :: "demo_world platform" where
  "demo_refusing = demo_platform\<lparr>lwip_setsockopt := \<lambda>s opt w. (- 1, w)\<rparr>"

lemma demo_refusing_errno: "errno_positive demo_refusing"
  using demo_errno_positive by (simp add: errno_positive_def demo_refusing_def)

lemma demo_send_laws: "send_laws demo_platform"
  by (simp add: send_laws_def)

lemma demo_prepare_tcp:
  "\<exists>st1. zperf_prepare_upload_sock demo_platform (Sockaddr_in 9 7) 0 (- 1) IPPROTO_TCP demo_tcp_uploader = (3, st1) \<and>
     world st1 = demo_start\<lparr>demo_next_fd := 4\<rparr>"
  "\<exists>st1. zperf_prepare_upload_sock demo_refusing (Sockaddr_in 9 7) 0 (- 1) IPPROTO_TCP demo_tcp_uploader = (3, st1) \<and>
     trace st1 = [Ev_socket AF_INET SOCK_STREAM IPPROTO_TCP 3, Ev_connect 3 (Sockaddr_in 9 7) 0]"
  by (simp_all add: zperf_prepare_upload_sock_def upload_sock_create_def config_defs io_defs demo_platform_def
      demo_refusing_def demo_tcp_uploader_def demo_start_def Let_def)

lemma demo_sendall: "sendall demo_platform s buf st =
  Some (Inr (0, if buf = [] then st else st\<lparr>trace := trace st @ [Ev_send s buf (int (length buf))]\<rparr>))"
  by (subst sendall.simps, subst sendall.simps) (simp add: zsock_send_def)

lemma demo_tcp_upload:
  assumes "world st = demo_start\<lparr>demo_next_fd := 4\<rparr>"
  shows "\<exists>res' st'. tcp_upload demo_platform 3 1 20 res st = Some (Inr (0, res', st'))"
proof -
  let ?st = "st\<lparr>world := demo_start\<lparr>demo_next_fd := 4, demo_clock := 102\<rparr>, tcp_sample_packet := tcp_fill_packet\<rparr>"
  let ?lp = "\<lparr>tl_nb = 0, tl_errors = 0, tl_alloc = 0, tl_ret = 0\<rparr>"
  have size: "tcp_packet_size 20 = 20" by code_simp
  have "taskYIELD demo_platform = (\<lambda>w. w)" by (simp add: demo_platform_def)
  then obtain st' where "tcp_upload_iter demo_platform 3 20 ?lp ?st = Some (Inr (False, ?lp\<lparr>tl_nb := 1\<rparr>, st'))"
    and "world st' = world ?st"
    by (simp add: tcp_upload_iter_def demo_sendall k_yield_def)
  then have "\<exists>st2. tcp_upload_loop demo_platform 3 20 101 ?lp ?st = Some (Inr (?lp\<lparr>tl_nb := 1\<rparr>, st2))"
    by (subst tcp_upload_loop.simps) (simp add: sys_timepoint_expired_def k_uptime_ticks_def)
  with assms show ?thesis
    by (auto simp: tcp_upload_def sys_timepoint_calc_def k_uptime_ticks_def size demo_start_def Let_def)
qed

lemma demo_tcp_succeeds:
  obtains st1 res' st' where
    "zperf_prepare_upload_sock demo_platform (Sockaddr_in 9 7) 0 (- 1) IPPROTO_TCP demo_tcp_uploader = (3, st1)"
    "zperf_tcp_upload demo_platform (Some demo_params) (Some results_zero) demo_tcp_uploader = Some (Inr (0, Some res', st'))"
proof -
  from demo_prepare_tcp(1) obtain st1 where prep:
    "zperf_prepare_upload_sock demo_platform (Sockaddr_in 9 7) 0 (- 1) IPPROTO_TCP demo_tcp_uploader = (3, st1)"
    "world st1 = demo_start\<lparr>demo_next_fd := 4\<rparr>" by blast
  from demo_tcp_upload [OF prep(2)] obtain res' st' where
    "tcp_upload demo_platform 3 1 20 results_zero st1 = Some (Inr (0, res', st'))" by blast
  with prep that show thesis by (simp add: zperf_tcp_upload_def demo_params_def)
qed

section \<open>The stream\<close>

lemma tcp_upload_accepted:
  assumes "errno_positive P"
    and "zperf_tcp_upload P (Some prm) (Some res) st = Some (Inr (0, Some res', st'))"
    and "zperf_prepare_upload_sock P (up_peer_addr prm) (uint (up_tos prm)) (up_priority prm) IPPROTO_TCP st = (sock, st1)"
  shows "\<exists>evs k. trace st' = trace st1 @ evs \<and> 0 < k \<and>
    accepted sock evs = concat (replicate k (take (unat (packet_size res')) tcp_fill_packet)) \<and>
    packet_size res' = min (ucast (up_packet_size prm)) 1024 \<and>
    nb_packets_sent res' = of_nat k \<and> nb_packets_errors res' = 0"
  using assms(2,3)
proof (cases rule: zperf_tcp_uploadE)
  case socket
  then show ?thesis by simp
next
  case (nodelay e st2)
  then show ?thesis by (simp add: EINVAL_def)
next
  case (upload st2 res2 st3)
  have size: "tcp_packet_size n = min n 1024" for n
    by (auto simp: tcp_packet_size_def PACKET_SIZE_MAX_def min_def)
  from upload(2) obtain e1 where e1: "trace st2 = trace st1 @ e1" "accepted sock e1 = []"
    by (auto dest: setsockopt_trace(1))
  from tcp_upload_streams [OF upload(3) assms(1)] obtain e2 k where "trace st3 = trace st2 @ e2" "0 < k"
    "accepted sock e2 = concat (replicate k (take (unat (packet_size res2)) tcp_fill_packet))"
    "packet_size res2 = tcp_packet_size (ucast (up_packet_size prm))"
    "nb_packets_sent res2 = of_nat k" "nb_packets_errors res2 = 0" by fastforce
  with e1 upload(4,5) size show ?thesis
    by (intro exI [of _ "e1 @ e2 @ [Ev_close sock]"] exI [of _ k]) (simp add: zsock_close_def)
qed

section \<open>Properties\<close>

text \<open>
  C16. After a successful TCP upload the stack has accepted, in order and without a gap, whole copies
  of the packet (four zero bytes, then \<open>z\<close>, cut to the packet size of at most 1024 bytes), at least
  one; their number is what the upload reports as sent, and no error is counted.
\<close>

theorem tcp_upload_stream:
  assumes "errno_positive P"
    and "zperf_tcp_upload P (Some prm) (Some res) st = Some (Inr (0, Some res', st'))"
    and "zperf_prepare_upload_sock P (up_peer_addr prm) (uint (up_tos prm)) (up_priority prm) IPPROTO_TCP st = (sock, st1)"
  shows "\<exists>evs k. trace st' = trace st1 @ evs \<and> 0 < k \<and>
    accepted sock evs = concat (replicate k (take (unat (packet_size res')) tcp_fill_packet)) \<and>
    packet_size res' = min (ucast (up_packet_size prm)) 1024 \<and>
    nb_packets_sent res' = of_nat k \<and> nb_packets_errors res' = 0"
  using assms by (rule tcp_upload_accepted)

theorem tcp_upload_stream_witness:
  "\<exists>res' st' evs k. zperf_tcp_upload demo_platform (Some demo_params) (Some results_zero) demo_tcp_uploader =
       Some (Inr (0, Some res', st')) \<and> 0 < k \<and>
     accepted 3 evs = concat (replicate k (take (unat (packet_size res')) tcp_fill_packet)) \<and>
     nb_packets_sent res' = of_nat k"
proof (rule demo_tcp_succeeds, goal_cases)
  case (1 st1 res' st')
  have "zperf_prepare_upload_sock demo_platform (up_peer_addr demo_params) (uint (up_tos demo_params))
      (up_priority demo_params) IPPROTO_TCP demo_tcp_uploader = (3, st1)"
    using 1(1) by (simp add: demo_params_def)
  from tcp_upload_stream [OF demo_errno_positive 1(2) this] 1(2) show ?case by auto
qed



text \<open>
  C28. Which sockets a TCP upload leaves open: none, except that the connected socket stays open
  when the option \<open>TCP_NODELAY\<close> was asked for and the stack refused it.
\<close>

theorem tcp_upload_socket_left:
  assumes "errno_positive P"
    and "zperf_tcp_upload P (Some prm) (Some res) st = Some (Inr (ret, r, st'))"
    and "zperf_prepare_upload_sock P (up_peer_addr prm) (uint (up_tos prm)) (up_priority prm) IPPROTO_TCP st = (sock, st1)"
  shows "balance (trace st') fd = balance (trace st) fd +
    (if fd = sock \<and> 0 \<le> sock \<and> up_tcp_nodelay prm \<noteq> 0 \<and>
        fst (lwip_setsockopt P sock (TCP_NODELAY (up_tcp_nodelay prm)) (world st1)) \<noteq> 0 then 1 else 0)"
proof -
  note opened = prepare_upload_sock_balance [OF assms(1,3), of fd]
  from assms(2,3) show ?thesis
  proof (cases rule: zperf_tcp_uploadE)
    case socket
    with opened show ?thesis by simp
  next
    case (nodelay e st2)
    with opened setsockopt_trace [OF nodelay(3)] show ?thesis by auto
  next
    case (upload st2 res2 st3)
    from tcp_upload_streams [OF upload(3) assms(1)] have "balance (trace st3) fd = balance (trace st2) fd"
      by (auto simp: quiet_def)
    moreover have "balance (trace st2) fd = balance (trace st1) fd"
      using upload(2) by (auto dest: setsockopt_trace(1))
    ultimately show ?thesis using opened upload(1,2,5)
      by (auto simp: zsock_close_def dest: setsockopt_trace(2))
  qed
qed

theorem tcp_upload_socket_left_witness:
  "\<exists>st'. zperf_tcp_upload demo_refusing (Some (demo_params\<lparr>up_tcp_nodelay := 1\<rparr>)) (Some results_zero) demo_tcp_uploader =
     Some (Inr (- EINVAL, Some results_zero, st')) \<and> balance (trace st') 3 = 1"
proof -
  let ?prm = "demo_params\<lparr>up_tcp_nodelay := 1\<rparr>"
  from demo_prepare_tcp(2) obtain st1 where "zperf_prepare_upload_sock demo_refusing (Sockaddr_in 9 7) 0 (- 1)
      IPPROTO_TCP demo_tcp_uploader = (3, st1)" by blast
  then have prep: "zperf_prepare_upload_sock demo_refusing (up_peer_addr ?prm) (uint (up_tos ?prm))
      (up_priority ?prm) IPPROTO_TCP demo_tcp_uploader = (3, st1)" by (simp add: demo_params_def)
  then obtain st' where run: "zperf_tcp_upload demo_refusing (Some ?prm) (Some results_zero) demo_tcp_uploader =
      Some (Inr (- EINVAL, Some results_zero, st'))"
    by (simp add: zperf_tcp_upload_def zsock_setsockopt_def demo_refusing_def)
  have "balance (trace st') 3 = balance (trace demo_tcp_uploader) 3 + 1"
    using tcp_upload_socket_left [OF demo_refusing_errno run prep, of 3] by (simp add: demo_refusing_def)
  with run show ?thesis by (simp add: demo_tcp_uploader_def)
qed

end
