(* ===== verification/Zperf_Transfer.thy ===== *)
theory Zperf_Transfer
  imports Zperf_Udp_Properties Zperf_Udp_Upload_Properties Zperf_Tcp_Properties Zperf_Tcp_Upload_Properties
    "HOL-Library.Sublist"
begin

text \<open>
  Sender and receiver together: the packets of a UDP upload, delivered to a UDP server by a network that
  may lose some of them but keeps their order, and the stream of a TCP upload, delivered to a TCP server in pieces.
\<close>

section \<open>Parts of a sequence\<close>

lemma sorted_wrt_subseq: "subseq xs ys \<Longrightarrow> sorted_wrt P ys \<Longrightarrow> sorted_wrt P xs"
proof (induction rule: list_emb.induct)
  case (list_emb_Cons2 x y xs ys)
  then show ?case using list_emb_set [of "(=)" xs ys] by fastforce
qed simp_all

text \<open>Ascending natural numbers are at least as large as they are many.\<close>

lemma ascending_length: "sorted_wrt (<) (xs :: nat list) \<Longrightarrow> xs \<noteq> [] \<Longrightarrow> length xs \<le> Suc (last xs)"
proof (induction xs rule: rev_induct)
  case (snoc x xs)
  then show ?case by (cases "xs = []") (fastforce simp: sorted_wrt_append dest: last_in_set)+
qed simp

section \<open>The receiver on the packets of an upload\<close>

lemma udp_receive_all_append:
  "udp_receive_all P sock addr (xs @ ys) st =
     (case udp_receive_all P sock addr xs st of Inl e \<Rightarrow> Inl e | Inr st' \<Rightarrow> udp_receive_all P sock addr ys st')"
  by (induction xs arbitrary: st) (auto split: sum.split)

definition end_packet :: "u8 list \<Rightarrow> bool" where
  "end_packet d \<longleftrightarrow> sizeof_udp_datagram \<le> length d \<and> sint (dg_id (get_datagram d)) < 0"

text \<open>The server has a slot for the peer, in which no session is under way.\<close>

definition udp_admits :: "('w, 's) udp_server \<Rightarrow> sockaddr \<Rightarrow> nat \<Rightarrow> bool" where
  "udp_admits st addr i \<longleftrightarrow> sessions_wf (sessions st) \<and> is_ip addr \<and>
     (case get_session addr SESSION_UDP (sessions st) of
        (None, ss) \<Rightarrow> False
      | (Some j, ss) \<Rightarrow> j = i \<and> session_free (ss ! proto_index SESSION_UDP ! i))"

definition fresh_session :: "session \<Rightarrow> bool" where
  "fresh_session s \<longleftrightarrow> ses_state s = STATE_ONGOING \<and> ses_counter s = 0 \<and> ses_next_id s = 1 \<and>
     ses_length s = 0 \<and> ses_error s = 0 \<and> ses_outorder s = 0"

text \<open>What is logged does not matter to the table.\<close>

lemma call_session_cb_udp [simp]:
  "sessions (call_session_cb cb status res ud st) = sessions st"
  by (simp add: call_session_cb_def split: option.split)

lemma udp_slot_sessions: "sessions st = sessions st' \<Longrightarrow> udp_slot st i = udp_slot st' i"
  by (simp add: udp_slot_def)

lemma udp_owns_sessions: "sessions st = sessions st' \<Longrightarrow> udp_owns st addr i = udp_owns st' addr i"
  by (simp add: udp_owns_def udp_slot_def)

lemma udp_first_packet:
  assumes "udp_admits st addr i" and "data_packet d"
  obtains st' where "udp_received P sock addr d (length d) st = Inr st'" "udp_owns st' addr i"
    "fresh_session (udp_slot st' i)"
proof -
  obtain ss where get: "get_session addr SESSION_UDP (sessions st) = (Some i, ss)"
    and wf: "sessions_wf (sessions st)" and ip: "is_ip addr" and free: "session_free (ss ! 0 ! i)"
    using assms(1) by (auto simp: udp_admits_def split: prod.splits option.splits)
  obtain t w where tick: "xTaskGetTickCount P (world st) = (t, w)" by fastforce
  have wf': "sessions_wf ss" "i < SESSION_MAX" "peer_of (ss ! 0 ! i) = Some addr"
    using udp_tab.inv_get [OF wf, of addr] udp_tab.get_index [OF get wf] udp_tab.get_slot [OF wf get ip] get
    by simp_all
  let ?st = "st\<lparr>world := w, sessions := ss\<rparr>"
  let ?s = "(zperf_reset_session_stats (ss ! 0 ! i))\<lparr>ses_state := STATE_ONGOING, ses_start_time := ucast t\<rparr>"
  let ?st' = "call_session_cb (udp_session_cb ?st) ZPERF_SESSION_STARTED None (udp_user_data ?st) (udp_put i ?s ?st)"
  have own: "udp_owns ?st addr i" using wf' by (simp add: udp_owns_def udp_slot_def)
  have "peer_of ?s = peer_of (ss ! 0 ! i)"
    by (rule peer_of_cong) (simp_all add: zperf_reset_session_stats_def)
  with wf'(3) have "peer_of ?s = Some addr" by simp
  note put = udp_owns_put [OF own this]
  have "udp_received P sock addr d (length d) st = Inr ?st'"
    using udp_received_slot [OF _ tick get, of "length d" sock d] assms(2) free
    by (auto simp: data_packet_def udp_slot_result_def session_free_def Let_def)
  moreover have "udp_owns ?st' addr i" using put(1) udp_owns_sessions [of ?st' "udp_put i ?s ?st"] by simp
  moreover have "fresh_session (udp_slot ?st' i)"
    using put(2) udp_slot_sessions [of ?st' "udp_put i ?s ?st" i]
    by (simp add: fresh_session_def zperf_reset_session_stats_def)
  ultimately show thesis by (rule that)
qed

lemma udp_end_packet:
  assumes "udp_owns st addr i" and "ses_state (udp_slot st i) = STATE_ONGOING"
    and "ses_counter (udp_slot st i) \<noteq> 0" and "end_packet d"
  obtains st' duration where "udp_received P sock addr d (length d) st = Inr st'" "udp_owns st' addr i"
    "udp_slot st' i = (udp_slot st i)\<lparr>ses_state := STATE_COMPLETED, ses_stat := udp_fill_stat (udp_slot st i) duration\<rparr>"
proof -
  obtain t w where tick: "xTaskGetTickCount P (world st) = (t, w)" by fastforce
  from udp_finish_packet [OF assms(1-3) _ _ tick, of "length d" d sock] assms(4)
  obtain res st1 duration where run: "udp_received P sock addr d (length d) st =
      Inr (call_session_cb (udp_session_cb st) ZPERF_SESSION_FINISHED (Some res) (udp_user_data st)
        (udp_put i ((udp_slot st i)\<lparr>ses_state := STATE_COMPLETED,
           ses_stat := udp_fill_stat (udp_slot st i) duration\<rparr>) st1))" (is "_ = Inr ?st'")
    and same: "sessions st1 = sessions st"
    by (fastforce simp: end_packet_def)
  let ?s = "(udp_slot st i)\<lparr>ses_state := STATE_COMPLETED, ses_stat := udp_fill_stat (udp_slot st i) duration\<rparr>"
  have own: "udp_owns st1 addr i" using assms(1) udp_owns_sessions [OF same] by simp
  have "peer_of ?s = peer_of (udp_slot st i)" by (rule peer_of_cong) simp_all
  then have "peer_of ?s = Some addr" using assms(1) by (simp add: udp_owns_def)
  note put = udp_owns_put [OF own this]
  show thesis
    by (rule that [OF run])
      (use put udp_owns_sessions [of ?st' "udp_put i ?s st1"] udp_slot_sessions [of ?st' "udp_put i ?s st1" i]
        in simp_all)
qed

lemma udp_session_run_peer [simp]:
  "ses_ip (udp_session_run P ps s) = ses_ip s" "ses_port (udp_session_run P ps s) = ses_port s"
  by (induction ps arbitrary: s) (auto simp: session_simps)

lemma udp_resent_all:
  assumes "udp_owns st addr i" and "ses_state (udp_slot st i) = STATE_COMPLETED" and "\<forall>d \<in> set ds. end_packet d"
  shows "\<exists>st'. udp_receive_all P sock addr ds st = Inr st' \<and> sessions st' = sessions st"
  using assms
proof (induction ds arbitrary: st)
  case Nil
  then show ?case by simp
next
  case (Cons d ds)
  obtain t w where tick: "xTaskGetTickCount P (world st) = (t, w)" by fastforce
  have "session_free (udp_slot (st\<lparr>world := w\<rparr>) i)"
    using Cons.prems(2) by (simp add: session_free_def udp_slot_def)
  from udp_free_slot_packet [OF this, of d P sock addr "length d" "ucast t"] Cons.prems(3)
    udp_owned_packet [OF Cons.prems(1) _ tick, of "length d" sock d]
  obtain st1 where st1: "udp_received P sock addr d (length d) st = Inr st1" "sessions st1 = sessions st"
    by (auto simp: end_packet_def)
  with Cons.IH [of st1] Cons.prems udp_owns_sessions [OF st1(2)] udp_slot_sessions [OF st1(2)]
  show ?case by simp
qed

text \<open>
  A first packet, data packets with ascending numbers, and end packets: the session is completed, with all
  packets but the first counted, none late, and the gaps between the numbers counted as lost.
\<close>

definition packet_number :: "u8 list \<Rightarrow> nat" where
  "packet_number d = unat (dg_id (get_datagram d))"

lemma data_packet_number: "data_packet d \<Longrightarrow> packet_number d < 2 ^ 31"
  by (simp add: data_packet_def packet_number_def sint_nonneg_iff)

lemma udp_receive_session:
  assumes "udp_admits st addr i" and "\<forall>d \<in> set (d # ds). data_packet d"
    and "sorted_wrt (<) (map packet_number (d # ds))" and "ds \<noteq> []" and "length ds < 2 ^ 31"
    and "\<forall>d \<in> set (e # es). end_packet d"
  shows "\<exists>st' s duration. udp_receive_all P sock addr (d # ds @ e # es) st = Inr st' \<and>
    udp_slot st' i = s\<lparr>ses_state := STATE_COMPLETED, ses_stat := udp_fill_stat s duration\<rparr> \<and>
    ses_counter s = of_nat (length ds) \<and> ses_length s = of_nat (sum_list (map length ds)) \<and>
    ses_outorder s = 0 \<and> ses_error s = dg_id (get_datagram (last ds)) - of_nat (length ds)"
proof -
  obtain st1 where st1: "udp_received P sock addr d (length d) st = Inr st1" "udp_owns st1 addr i"
    "fresh_session (udp_slot st1 i)" by (rule udp_first_packet [OF assms(1)]) (use assms(2) in auto)
  from st1(3) have on: "ses_state (udp_slot st1 i) = STATE_ONGOING" by (simp add: fresh_session_def)
  obtain ts w where len: "length ts = length ds" and run: "udp_receive_all P sock addr ds st1 =
      Inr (udp_put i (udp_session_run P (zip ts (map (\<lambda>d. (get_datagram d, length d)) ds)) (udp_slot st1 i)) (st1\<lparr>world := w\<rparr>))"
    using udp_receive_all_run [OF st1(2) on, of ds P sock] assms(2) by auto
  define ps where "ps = zip ts (map (\<lambda>d. (get_datagram d, length d)) ds)"
  define s where "s = udp_session_run P ps (udp_slot st1 i)"
  let ?st2 = "udp_put i s (st1\<lparr>world := w\<rparr>)"
  have count: "ses_counter s = of_nat (length ds)" "ses_length s = of_nat (sum_list (map length ds))"
    "ses_state s = STATE_ONGOING" "peer_of s = peer_of (udp_slot st1 i)"
    using st1(3) len udp_session_run_counts [of P ps "udp_slot st1 i"] unfolding s_def ps_def
    by (auto simp: map_zip_packets [OF len] fresh_session_def intro!: peer_of_cong)
  have "sorted_wrt (<) (map (\<lambda>(t, h, n). unat (dg_id h)) ps)"
    using assms(3) by (simp add: ps_def map_zip_packets [OF len] packet_number_def [abs_def])
  moreover have "\<forall>(t, h, n) \<in> set ps. unat (ses_next_id (udp_slot st1 i)) \<le> unat (dg_id h) \<and> unat (dg_id h) < 2 ^ 31"
    using assms(2,3) data_packet_number st1(3) by (fastforce simp: ps_def packet_number_def fresh_session_def dest: set_zip_rightD)
  ultimately have late: "ses_outorder s = 0 \<and> ses_next_id s = dg_id (get_datagram (last ds)) + 1"
    using udp_session_run_ascending [of ps "udp_slot st1 i" P] st1(3) len assms(4)
    by (auto simp: s_def ps_def fresh_session_def last_zip last_map)
  have "loss_balanced s"
    using udp_session_run_loss [of "udp_slot st1 i" P ps] st1(3) by (simp add: s_def loss_balanced_def fresh_session_def)
  with late count(1) have lost: "ses_error s = dg_id (get_datagram (last ds)) - of_nat (length ds)"
    by (simp add: loss_balanced_def algebra_simps)
  have "unat (of_nat (length ds) :: u32) = length ds" using assms(5) by (simp add: unsigned_of_nat take_bit_nat_eq_self)
  then have "of_nat (length ds) \<noteq> (0 :: u32)" using assms(4) by (metis length_0_conv unsigned_0)
  moreover have "udp_owns (st1\<lparr>world := w\<rparr>) addr i" using st1(2) by (simp add: udp_owns_def udp_slot_def)
  moreover have "peer_of s = Some addr" using count(4) st1(2) by (simp add: udp_owns_def)
  ultimately have nz: "of_nat (length ds) \<noteq> (0 :: u32)" and own: "udp_owns ?st2 addr i" "udp_slot ?st2 i = s"
    by (auto intro: udp_owns_put)
  obtain st3 duration where st3: "udp_received P sock addr e (length e) ?st2 = Inr st3" "udp_owns st3 addr i"
    "udp_slot st3 i = s\<lparr>ses_state := STATE_COMPLETED, ses_stat := udp_fill_stat s duration\<rparr>"
    by (rule udp_end_packet [OF own(1), of e P sock]) (use own(2) count nz assms(6) in simp_all)
  moreover obtain st4 where "udp_receive_all P sock addr es st3 = Inr st4" "sessions st4 = sessions st3"
    using udp_resent_all [OF st3(2), of es P sock] st3(3) assms(6) by auto
  ultimately show ?thesis
    using st1(1) run [folded ps_def, folded s_def] count late lost udp_slot_sessions [of st4 st3 i]
    by (intro exI [of _ st4] exI [of _ s] exI [of _ duration]) (simp add: udp_receive_all_append)
qed

section \<open>The packets of an upload\<close>

lemma sint_negated:
  assumes "0 < n" and "n < 2 ^ 31"
  shows "sint (- of_nat n :: u32) < 0"
proof -
  have "unat (of_nat 0 - of_nat n :: u32) = 2 ^ 32 - (n - 0)" using assms by (rule unat_wrapped_diff)
  then have "\<not> unat (- of_nat n :: u32) < 2 ^ 31" using assms by simp
  then show ?thesis by (simp add: sint_nonneg_iff not_le [symmetric])
qed

lemma udp_packet_size_min: "12 \<le> unat (udp_packet_size n)"
  by (simp add: udp_packet_size_def PACKET_SIZE_MAX_def sizeof_defs word_less_nat_alt)

lemma end_not_data: "end_packet d \<Longrightarrow> \<not> data_packet d"
  by (simp add: end_packet_def data_packet_def)

lemma udp_upload_stream:
  assumes "errno_positive P"
    and "zperf_udp_upload P (Some prm) (Some res) st = Some (Inr (0, Some res', st'))"
    and "trace st' = trace st @ evs" and "length (sent evs) < 2 ^ 31"
  obtains xs ys where "map snd (sent evs) = xs @ ys" "\<forall>d \<in> set xs. data_packet d" "\<forall>d \<in> set ys. end_packet d"
    "ys \<noteq> []" "map packet_number xs = [0..<length xs]" "nb_packets_sent res' = of_nat (length xs)"
    "\<forall>d \<in> set xs. length d = unat (udp_packet_size (ucast (up_packet_size prm)))"
proof (rule udp_upload_trace [OF assms(1,2)])
  fix evs' ps q qs
  assume tr: "trace st' = trace st @ evs'" "sent evs' = ps @ q # qs" and ids: "packet_ids ps = map of_nat [0..<length ps]"
    and "ps \<noteq> []" and q: "\<forall>(s, d) \<in> set (q # qs). dg_id (get_datagram d) = - of_nat (length ps)"
    and nb: "nb_packets_sent res' = of_nat (length ps)"
    and len: "\<forall>(s, d) \<in> set (ps @ q # qs). length d = unat (udp_packet_size (ucast (up_packet_size prm)))"
  have small: "length ps < 2 ^ 31" and sent: "sent evs = ps @ q # qs" using assms(3,4) tr by simp_all
  have "map packet_number (map snd ps) = map unat (packet_ids ps)"
    by (simp add: packet_ids_def packet_number_def case_prod_beta)
  also have "\<dots> = map (\<lambda>k. unat (of_nat k :: u32)) [0..<length ps]" by (simp add: ids)
  also have "\<dots> = [0..<length ps]"
    using small by (intro map_idI) (simp add: unsigned_of_nat take_bit_nat_eq_self)
  finally have numbers: "map packet_number (map snd ps) = [0..<length (map snd ps)]" by simp
  have "packet_number d < 2 ^ 31" if "d \<in> set (map snd ps)" for d
  proof -
    have "packet_number d \<in> set (map packet_number (map snd ps))" using that by (metis imageI set_map)
    with small show ?thesis unfolding numbers by simp
  qed
  then have data: "\<forall>d \<in> set (map snd ps). data_packet d"
    using len udp_packet_size_min [of "ucast (up_packet_size prm)"]
    by (auto simp: data_packet_def packet_number_def sint_nonneg_iff sizeof_defs case_prod_beta)
  have fin: "\<forall>d \<in> set (map snd (q # qs)). end_packet d"
    using q len sint_negated [of "length ps"] small udp_packet_size_min [of "ucast (up_packet_size prm)"] \<open>ps \<noteq> []\<close>
    by (auto simp: end_packet_def sizeof_defs case_prod_beta)
  show thesis by (rule that [OF _ data fin _ numbers]) (use nb len in \<open>auto simp: sent\<close>)
qed

section \<open>A concrete transfer\<close>

text \<open>An upload of 2 ms, which sends two packets, and a server that has just started.\<close>

definition demo_two :: zperf_upload_params where
  "demo_two = demo_params\<lparr>up_duration_ms := 2\<rparr>"

lemma demo_two_times: "k_ms_to_ticks_ceil64 demo_platform 2 = 2" "adjust_delay 15 101 131 29 = 14"
  by code_simp+

lemma demo_two_loop:
  assumes "world st = demo_start\<lparr>demo_clock := 101, demo_inbox := b, demo_next_fd := k\<rparr>"
    and "length (sample_packet st) = sizeof_sample_packet"
  shows "\<exists>st' ps. udp_upload_loop demo_platform 3 port 20 10 15 102 \<lparr>lp_delay = 15, lp_last = 100, lp_nb = 0\<rparr> st =
      Some (Inr \<lparr>lp_delay = 14, lp_last = 131, lp_nb = 2\<rparr>, st') \<and> demo_inbox (world st') = b \<and>
    sends 3 20 ps st st' \<and> length ps = 2"
proof -
  obtain st1 where one: "udp_upload_iter demo_platform 3 port 20 10 15 \<lparr>lp_delay = 15, lp_last = 100, lp_nb = 0\<rparr> st =
      (Inr \<lparr>lp_delay = 29, lp_last = 101, lp_nb = 1\<rparr>, st1)"
    and st1: "world st1 = demo_start\<lparr>demo_clock := 131, demo_inbox := b, demo_next_fd := k\<rparr>"
    using assms(1)
    by (simp add: udp_upload_iter_def k_uptime_ticks_def zsock_send_def k_sleep_def demo_start_def demo_times Let_def)
  obtain st2 where two: "udp_upload_iter demo_platform 3 port 20 10 15 \<lparr>lp_delay = 29, lp_last = 101, lp_nb = 1\<rparr> st1 =
      (Inr \<lparr>lp_delay = 14, lp_last = 131, lp_nb = 2\<rparr>, st2)" and inbox: "demo_inbox (world st2) = b"
    using st1
    by (simp add: udp_upload_iter_def k_uptime_ticks_def zsock_send_def k_sleep_def demo_start_def demo_two_times Let_def)
  have "udp_upload_loop demo_platform 3 port 20 10 15 102 \<lparr>lp_delay = 29, lp_last = 101, lp_nb = 1\<rparr> st1 =
      Some (Inr \<lparr>lp_delay = 14, lp_last = 131, lp_nb = 2\<rparr>, st2)"
    by (subst udp_upload_loop.simps) (simp add: two)
  then have loop: "udp_upload_loop demo_platform 3 port 20 10 15 102 \<lparr>lp_delay = 15, lp_last = 100, lp_nb = 0\<rparr> st =
      Some (Inr \<lparr>lp_delay = 14, lp_last = 131, lp_nb = 2\<rparr>, st2)"
    by (subst udp_upload_loop.simps) (simp add: one)
  obtain d where d: "sends 3 20 [(3, d)] st st1" using udp_upload_iter_sends [OF assms(2) _ _ one] by auto
  then have "length (sample_packet st1) = sizeof_sample_packet" using assms(2) by (simp add: sends_def)
  then obtain d' where "sends 3 20 [(3, d')] st1 st2" using udp_upload_iter_sends [OF _ _ _ two] by auto
  from sends_trans [OF d this] loop inbox show ?thesis
    by (intro exI [of _ st2] exI [of _ "[(3, d), (3, d')]"]) simp
qed

lemma demo_two_upload:
  assumes "world st = demo_start\<lparr>demo_inbox := [(replicate 52 0, a)], demo_next_fd := k\<rparr>"
  shows "\<exists>res' st' evs. udp_upload demo_platform 3 port 2 20 10 res st = Some (Inr (0, res', st')) \<and>
    nb_packets_sent res' = 2 \<and> trace st' = trace st @ evs \<and> length (sent evs) \<le> 4"
proof -
  let ?st = "st\<lparr>world := demo_start\<lparr>demo_clock := 101, demo_inbox := [(replicate 52 0, a)], demo_next_fd := k\<rparr>,
    sample_packet := replicate sizeof_sample_packet (of_char CHR ''z'')\<rparr>"
  obtain st1 ps where loop: "udp_upload_loop demo_platform 3 port 20 10 15 102
      \<lparr>lp_delay = 15, lp_last = 100, lp_nb = 0\<rparr> ?st = Some (Inr \<lparr>lp_delay = 14, lp_last = 131, lp_nb = 2\<rparr>, st1)"
    and inbox: "demo_inbox (world st1) = [(replicate 52 0, a)]" and ps: "sends 3 20 ps ?st st1" "length ps = 2"
    using demo_two_loop [of ?st k "[(replicate 52 0, a)]" port] by auto
  let ?st2 = "st1\<lparr>world := world st1\<lparr>demo_clock := Suc (demo_clock (world st1))\<rparr>\<rparr>"
  obtain res' st' where fin: "zperf_upload_fin demo_platform 3 2 (ucast (of_nat (demo_clock (world st1)) :: u32)) 20 res ?st2 =
      Some (0, res', st')" using demo_fin [of ?st2 a 2 "ucast (of_nat (demo_clock (world st1)) :: u32)" res] inbox by auto
  have "length (sample_packet ?st2) = sizeof_sample_packet" using ps(1) by (simp add: sends_def)
  from zperf_upload_fin_sends [OF fin this] obtain qs where "sends 3 20 qs ?st2 st'" "length qs \<le> 2" by auto
  with ps obtain evs where "trace st' = trace st @ evs" "length (sent evs) \<le> 4" by (auto simp: sends_def)
  with loop fin assms show ?thesis
    by (auto simp: udp_upload_def demo_times demo_two_times k_uptime_ticks_def demo_start_def Let_def)
qed

lemma demo_two_run:
  "\<exists>res' st'. zperf_udp_upload demo_platform (Some demo_two) (Some results_zero) demo_uploader_run =
     Some (Inr (0, Some res', st')) \<and> nb_packets_sent res' = 2 \<and> length (sent (trace st')) \<le> 4"
proof -
  obtain st1 where prep: "zperf_prepare_upload_sock demo_platform (Sockaddr_in 9 7) 0 (- 1) IPPROTO_UDP
      demo_uploader_run = (3, st1)"
    "world st1 = demo_start\<lparr>demo_inbox := [(replicate 52 0, Sockaddr_in 9 7)], demo_next_fd := 4\<rparr>"
    by (simp add: zperf_prepare_upload_sock_def upload_sock_create_def config_defs io_defs demo_platform_def
        demo_uploader_run_def demo_uploader_def demo_start_def Let_def)
  from demo_two_upload [OF prep(2)] obtain res' st' evs where
    "udp_upload demo_platform 3 (ucast (ntohs 9)) 2 20 10 results_zero st1 = Some (Inr (0, res', st'))"
    "nb_packets_sent res' = 2" "trace st' = trace st1 @ evs" "length (sent evs) \<le> 4" by blast
  moreover have "sent (trace st1) = []"
    using prepare_upload_sock_sent [OF prep(1)] by (auto simp: demo_uploader_run_def demo_uploader_def)
  ultimately show ?thesis
    using prep(1) by (auto simp: zperf_udp_upload_def demo_two_def demo_params_def zsock_close_def)
qed


lemma initial_admits: "udp_admits (udp_server_initial w) demo_peer 0"
proof -
  have row: "zperf_session_init sessions_zero ! 0 = replicate 4 (zperf_reset_session_stats session_zero)"
    by (simp add: zperf_session_init_def sessions_zero_def session_zero_def)
  then show ?thesis
    using sessions_wf_init [OF sessions_wf_zero]
      get_session_spec [of SESSION_UDP demo_peer "zperf_session_init sessions_zero"]
    by (simp add: udp_admits_def udp_server_initial_def demo_peer_def row numeral_eq_Suc peer_of_def session_zero_def
        zperf_reset_session_stats_def session_free_def put_session_def session_claim_def config_defs Let_def
        zperf_session_init_def sessions_zero_def)
qed

end
