(* ===== verification/Zephyr_Work.thy ===== *)
theory Zephyr_Work
  imports Zephyr_Thread
begin

text \<open>
  The work queue of \<^verbatim>\<open>zephyr/work.c\<close>. The FreeRTOS queue it is built on is a parameter, the record
  \<open>rtos_queue\<close>: creating may fail, sending and receiving may block, which is the value \<open>None\<close>;
  \<open>queue_laws\<close> is its documented behaviour as a bounded first-in-first-out buffer.

  A work item is known by its address, a value of a type \<open>'p\<close> with one value per item of the program;
  \<open>'h\<close> are the handlers. \<open>work_queue_ok taken st\<close> is the invariant: the pending flag of an item is
  set exactly while the item is in the queue, or has been taken out (\<open>taken\<close>) and its flag not been
  cleared yet, and no item is in the queue twice. The locale \<open>fifo\<close> is the contract this gives the
  clients of the queue.
\<close>

unbundle bit_operations_syntax

section \<open>The parameter\<close>

record ('p, 'q) rtos_queue =
  xQueueCreate :: "nat \<Rightarrow> 'q option"
  xQueueSend :: "'p \<Rightarrow> 'q \<Rightarrow> 'q option"
  xQueueReceive :: "'q \<Rightarrow> ('p \<times> 'q) option"

definition queue_laws :: "('p, 'q) rtos_queue \<Rightarrow> ('q \<Rightarrow> 'p list) \<Rightarrow> ('q \<Rightarrow> nat) \<Rightarrow> bool" where
  "queue_laws Q items cap \<longleftrightarrow>
     (\<forall>n q. xQueueCreate Q n = Some q \<longrightarrow> items q = [] \<and> cap q = n) \<and>
     (\<forall>x q. if length (items q) < cap q
        then \<exists>q'. xQueueSend Q x q = Some q' \<and> items q' = items q @ [x] \<and> cap q' = cap q
        else xQueueSend Q x q = None) \<and>
     (\<forall>q. case items q of [] \<Rightarrow> xQueueReceive Q q = None
        | x # xs \<Rightarrow> \<exists>q'. xQueueReceive Q q = Some (x, q') \<and> items q' = xs \<and> cap q' = cap q)"

lemma queue_lawsD:
  assumes "queue_laws Q items cap"
  shows "xQueueCreate Q n = Some q \<Longrightarrow> items q = [] \<and> cap q = n"
    and "length (items q) < cap q \<Longrightarrow>
      \<exists>q'. xQueueSend Q x q = Some q' \<and> items q' = items q @ [x] \<and> cap q' = cap q"
    and "items q = [] \<Longrightarrow> xQueueReceive Q q = None"
    and "items q = y # ys \<Longrightarrow> \<exists>q'. xQueueReceive Q q = Some (y, q') \<and> items q' = ys \<and> cap q' = cap q"
proof -
  note laws = assms [unfolded queue_laws_def]
  show "xQueueCreate Q n = Some q \<Longrightarrow> items q = [] \<and> cap q = n" using laws by blast
  show "length (items q) < cap q \<Longrightarrow>
      \<exists>q'. xQueueSend Q x q = Some q' \<and> items q' = items q @ [x] \<and> cap q' = cap q"
    using conjunct1 [OF conjunct2 [OF laws], rule_format, of q x] by simp
  show "items q = [] \<Longrightarrow> xQueueReceive Q q = None"
    and "items q = y # ys \<Longrightarrow> \<exists>q'. xQueueReceive Q q = Some (y, q') \<and> items q' = ys \<and> cap q' = cap q"
    using conjunct2 [OF conjunct2 [OF laws], rule_format, of q] by simp_all
qed

section \<open>Work items and the queue\<close>

definition DEFAULT_QUEUE_SIZE :: nat where "DEFAULT_QUEUE_SIZE = 10"

definition WORK_ITEM_IS_PENDING_BIT :: nat where "WORK_ITEM_IS_PENDING_BIT = 0"

definition WORK_ITEM_IS_PENDING_BIT_MASK :: u32 where
  "WORK_ITEM_IS_PENDING_BIT_MASK = push_bit WORK_ITEM_IS_PENDING_BIT 1"

record ('p, 'h) k_work =
  wk_handler :: "'h option"
  wk_context :: "'p option"
  wk_is_pending :: u32

text \<open>The work items by their addresses, and the handle of the queue, \<open>None\<close> until it is created.\<close>

record ('p, 'h, 'q) work_state =
  works :: "'p \<Rightarrow> ('p, 'h) k_work"
  work_q :: "'q option"

definition k_work_queue_init ::
  "('p, 'q) rtos_queue \<Rightarrow> ('p, 'h, 'q) work_state \<Rightarrow> ('p, 'h, 'q) work_state faulty" where
  "k_work_queue_init Q st =
     (case xQueueCreate Q DEFAULT_QUEUE_SIZE of
        None \<Rightarrow> Inl Assertion_failed
      | Some q \<Rightarrow> Inr (st\<lparr>work_q := Some q\<rparr>))"

text \<open>The task of a work queue; \<open>f\<close> stands for \<open>_work_task\<close>.\<close>

definition k_work_queue_start ::
  "('f, 'h, 'k) rtos_tasks \<Rightarrow> 'f \<Rightarrow> 'h k_thread \<Rightarrow> 'k \<Rightarrow> ('h k_thread \<times> 'k) faulty" where
  "k_work_queue_start K f thread k =
     (case xTaskCreate K f (Some ''_work_task'') k of
        (None, k') \<Rightarrow> Inl Assertion_failed
      | (Some h, k') \<Rightarrow> Inr (thread\<lparr>task_hanble := Some h\<rparr>, k'))"

definition k_work_init :: "'p \<Rightarrow> 'h \<Rightarrow> ('p, 'h, 'q) work_state \<Rightarrow> ('p, 'h, 'q) work_state" where
  "k_work_init p handler st = st\<lparr>works := (works st)(p := works st p\<lparr>wk_handler := Some handler\<rparr>)\<rparr>"

text \<open>The flag of the result tells whether the item was queued; otherwise the caller blocks.\<close>

definition k_work_submit_to_queue ::
  "('p, 'q) rtos_queue \<Rightarrow> 'p \<Rightarrow> ('p, 'h, 'q) work_state \<Rightarrow> (bool \<times> ('p, 'h, 'q) work_state) faulty" where
  "k_work_submit_to_queue Q p st =
     (let w = works st p\<lparr>wk_context := Some p,
                wk_is_pending := wk_is_pending (works st p) OR WORK_ITEM_IS_PENDING_BIT_MASK\<rparr>;
          st1 = st\<lparr>works := (works st)(p := w)\<rparr>
      in case work_q st1 of
           None \<Rightarrow> Inl Null_pointer
         | Some q \<Rightarrow>
             (case xQueueSend Q p q of
                None \<Rightarrow> Inr (False, st1)
              | Some q' \<Rightarrow> Inr (True, st1\<lparr>work_q := Some q'\<rparr>)))"

definition k_work_is_pending :: "'p \<Rightarrow> ('p, 'h, 'q) work_state \<Rightarrow> bool" where
  "k_work_is_pending p st = (wk_is_pending (works st p) AND WORK_ITEM_IS_PENDING_BIT_MASK \<noteq> 0)"

text \<open>
  The two effects of a turn of \<open>_work_task\<close> before the handler runs: taking the next item, \<open>None\<close>
  while there is none, and clearing its flag.
\<close>

definition work_task_receive ::
  "('p, 'q) rtos_queue \<Rightarrow> ('p, 'h, 'q) work_state \<Rightarrow> ('p \<times> ('p, 'h, 'q) work_state) option" where
  "work_task_receive Q st =
     (case work_q st of None \<Rightarrow> None
      | Some q \<Rightarrow> map_option (\<lambda>(p, q'). (p, st\<lparr>work_q := Some q'\<rparr>)) (xQueueReceive Q q))"

definition work_task_clear :: "'p \<Rightarrow> ('p, 'h, 'q) work_state \<Rightarrow> ('p, 'h, 'q) work_state" where
  "work_task_clear p st = st\<lparr>works := (works st)(p := works st p
     \<lparr>wk_is_pending := wk_is_pending (works st p) XOR WORK_ITEM_IS_PENDING_BIT_MASK\<rparr>)\<rparr>"

section \<open>The contract of the queue\<close>

text \<open>\<open>n\<close> turns of the worker: take an item, clear its flag.\<close>

fun dispatch :: "('s \<Rightarrow> ('p \<times> 's) option) \<Rightarrow> ('p \<Rightarrow> 's \<Rightarrow> 's) \<Rightarrow> nat \<Rightarrow> 's \<Rightarrow> 'p list \<times> 's" where
  "dispatch receive clear 0 s = ([], s)"
| "dispatch receive clear (Suc n) s =
     (case receive s of None \<Rightarrow> ([], s)
      | Some (p, s') \<Rightarrow> (let (ps, s'') = dispatch receive clear n (clear p s') in (p # ps, s'')))"

locale fifo =
  fixes ok :: "'p option \<Rightarrow> 's \<Rightarrow> bool"
    and queued :: "'s \<Rightarrow> 'p list"
    and pending :: "'p \<Rightarrow> 's \<Rightarrow> bool"
    and submit :: "'p \<Rightarrow> 's \<Rightarrow> (bool \<times> 's) faulty"
    and receive :: "'s \<Rightarrow> ('p \<times> 's) option"
    and clear :: "'p \<Rightarrow> 's \<Rightarrow> 's"
  assumes pending_iff: "ok t s \<Longrightarrow> pending p s \<longleftrightarrow> p \<in> set (queued s) \<or> t = Some p"
    and submit_ok: "ok t s \<Longrightarrow> \<not> pending p s \<Longrightarrow>
      \<exists>s'. submit p s = Inr (True, s') \<and> ok t s' \<and> queued s' = queued s @ [p]"
    and receive_empty: "ok None s \<Longrightarrow> queued s = [] \<Longrightarrow> receive s = None"
    and receive_ok: "ok None s \<Longrightarrow> queued s = p # ps \<Longrightarrow>
      \<exists>s'. receive s = Some (p, s') \<and> ok (Some p) s' \<and> queued s' = ps"
    and clear_ok: "ok (Some p) s \<Longrightarrow> ok None (clear p s) \<and> queued (clear p s) = queued s"
begin

text \<open>The worker serves the items in the order in which they were submitted, and no other.\<close>

lemma dispatch_in_order:
  assumes "ok None s" and "queued s = ps"
  shows "\<exists>s'. dispatch receive clear (length ps + k) s = (ps, s') \<and> ok None s' \<and> queued s' = []"
  using assms
proof (induction ps arbitrary: s)
  case Nil
  then show ?case using receive_empty by (cases k) simp_all
next
  case (Cons p ps)
  from receive_ok [OF Cons.prems] obtain s1 where
    s1: "receive s = Some (p, s1)" "ok (Some p) s1" "queued s1 = ps" by blast
  from clear_ok [OF s1(2)] s1(3) have "ok None (clear p s1)" "queued (clear p s1) = ps" by simp_all
  from Cons.IH [OF this] s1(1) show ?case by auto
qed

text \<open>After it was served an item can be submitted again.\<close>

lemma served_not_pending:
  assumes "ok None s" and "queued s = p # ps" and "p \<notin> set ps"
  shows "\<exists>s'. receive s = Some (p, s') \<and> pending p s' \<and> \<not> pending p (clear p s')"
proof -
  from receive_ok [OF assms(1,2)] obtain s1 where
    s1: "receive s = Some (p, s1)" "ok (Some p) s1" "queued s1 = ps" by blast
  with clear_ok [OF s1(2)] assms(3) show ?thesis
    using pending_iff [OF s1(2), of p] pending_iff [of None "clear p s1" p] by auto
qed

end

section \<open>The work queue keeps the contract\<close>

definition work_queued :: "('q \<Rightarrow> 'p list) \<Rightarrow> ('p, 'h, 'q) work_state \<Rightarrow> 'p list" where
  "work_queued items st = (case work_q st of None \<Rightarrow> [] | Some q \<Rightarrow> items q)"

definition work_queue_ok ::
  "('p, 'q) rtos_queue \<Rightarrow> ('q \<Rightarrow> 'p list) \<Rightarrow> ('q \<Rightarrow> nat) \<Rightarrow> 'p option \<Rightarrow> ('p, 'h, 'q) work_state \<Rightarrow> bool" where
  "work_queue_ok Q items cap taken st \<longleftrightarrow> queue_laws Q items cap \<and>
     finite (UNIV :: 'p set) \<and> card (UNIV :: 'p set) \<le> DEFAULT_QUEUE_SIZE \<and>
     (\<exists>q. work_q st = Some q \<and> cap q = DEFAULT_QUEUE_SIZE) \<and>
     distinct (work_queued items st) \<and>
     (\<forall>p. wk_is_pending (works st p) = of_bool (p \<in> set (work_queued items st) \<or> taken = Some p)) \<and>
     (\<forall>p. taken = Some p \<longrightarrow> p \<notin> set (work_queued items st))"

lemma pending_mask [simp]: "WORK_ITEM_IS_PENDING_BIT_MASK = 1"
  by (simp add: WORK_ITEM_IS_PENDING_BIT_MASK_def WORK_ITEM_IS_PENDING_BIT_def)

lemma pending_bits [simp]:
  "(of_bool b AND 1 :: u32) = of_bool b" "(of_bool b OR 1 :: u32) = 1" "(1 XOR 1 :: u32) = 0"
  by (cases b; simp)+

lemma work_queue_okE:
  fixes st :: "('p, 'h, 'q) work_state"
  assumes "work_queue_ok Q items cap t st"
  obtains q where "queue_laws Q items cap" "work_q st = Some q" "cap q = DEFAULT_QUEUE_SIZE"
    "distinct (items q)" "\<forall>p. wk_is_pending (works st p) = of_bool (p \<in> set (items q) \<or> t = Some p)"
    "\<forall>p. t = Some p \<longrightarrow> p \<notin> set (items q)" "work_queued items st = items q"
    "finite (UNIV :: 'p set)" "card (UNIV :: 'p set) \<le> DEFAULT_QUEUE_SIZE"
  using assms by (auto simp: work_queue_ok_def work_queued_def)

lemma work_pending_iff:
  "work_queue_ok Q items cap t st \<Longrightarrow>
   k_work_is_pending p st \<longleftrightarrow> p \<in> set (work_queued items st) \<or> t = Some p"
  by (simp add: work_queue_ok_def k_work_is_pending_def)

lemma work_submit_ok:
  assumes ok: "work_queue_ok Q items cap t st" and new: "\<not> k_work_is_pending p st"
  shows "\<exists>st'. k_work_submit_to_queue Q p st = Inr (True, st') \<and> work_queue_ok Q items cap t st' \<and>
    work_queued items st' = work_queued items st @ [p]"
  using ok
proof (rule work_queue_okE)
  fix q
  assume q: "queue_laws Q items cap" "work_q st = Some q" "cap q = DEFAULT_QUEUE_SIZE" "distinct (items q)"
    "\<forall>p. wk_is_pending (works st p) = of_bool (p \<in> set (items q) \<or> t = Some p)"
    "\<forall>p. t = Some p \<longrightarrow> p \<notin> set (items q)" "work_queued items st = items q"
    "finite (UNIV :: 'a set)" "card (UNIV :: 'a set) \<le> DEFAULT_QUEUE_SIZE"
  have p: "p \<notin> set (items q)" "t \<noteq> Some p" using work_pending_iff [OF ok] new q(7) by auto
  then have "set (items q) \<subset> UNIV" by blast
  from psubset_card_mono [OF q(8) this] q(3,4,9) have "length (items q) < cap q" by (simp add: distinct_card)
  from queue_lawsD(2) [OF q(1) this] obtain q' where
    "xQueueSend Q p q = Some q'" "items q' = items q @ [p]" "cap q' = cap q" by blast
  with q p show ?thesis
    by (auto simp: k_work_submit_to_queue_def work_queue_ok_def work_queued_def)
qed

lemma work_receive_ok:
  assumes "work_queue_ok Q items cap None st"
  shows "work_queued items st = [] \<Longrightarrow> work_task_receive Q st = None"
    and "work_queued items st = p # ps \<Longrightarrow> \<exists>st'. work_task_receive Q st = Some (p, st') \<and>
      work_queue_ok Q items cap (Some p) st' \<and> work_queued items st' = ps"
proof -
  from assms obtain q where q: "queue_laws Q items cap" "work_q st = Some q" "work_queued items st = items q"
    by (rule work_queue_okE)
  show "work_task_receive Q st = None" if "work_queued items st = []"
    using queue_lawsD(3) [OF q(1)] that q by (simp add: work_task_receive_def)
  show "\<exists>st'. work_task_receive Q st = Some (p, st') \<and> work_queue_ok Q items cap (Some p) st' \<and>
      work_queued items st' = ps" if "work_queued items st = p # ps"
    using queue_lawsD(4) [OF q(1), of q p ps] that q assms
    by (auto simp: work_task_receive_def work_queue_ok_def work_queued_def)
qed

lemma work_clear_ok:
  assumes "work_queue_ok Q items cap (Some p) st"
  shows "work_queue_ok Q items cap None (work_task_clear p st) \<and>
    work_queued items (work_task_clear p st) = work_queued items st"
  using assms by (auto simp: work_task_clear_def work_queue_ok_def work_queued_def)

interpretation wq: fifo "work_queue_ok Q items cap" "work_queued items" k_work_is_pending
  "k_work_submit_to_queue Q" "work_task_receive Q" work_task_clear
  by unfold_locales (rule work_pending_iff work_submit_ok work_receive_ok work_clear_ok; assumption)+

end
