(* ===== verification/Zperf_Upload_Frame.thy ===== *)
theory Zperf_Upload_Frame
  imports Zperf_Tcp_Uploader
begin

text \<open>
  What an upload leaves alone. \<open>silent\<close> relates two states between which no callback was called;
  \<open>udp_frame\<close> and \<open>tcp_frame\<close> add that everything beyond the uploader's own fields is unchanged, which
  is what lets the asynchronous uploads keep their contexts and their queue while one runs.
\<close>

section \<open>Silence\<close>

fun is_callback :: "io_event \<Rightarrow> bool" where
  "is_callback (Ev_callback f s r u) = True"
| "is_callback _ = False"

definition silent :: "('w, 'z) io_state_scheme \<Rightarrow> ('w, 'y) io_state_scheme \<Rightarrow> bool" where
  "silent st st' \<longleftrightarrow> (\<exists>evs. trace st' = trace st @ evs \<and> filter is_callback evs = [])"

definition udp_frame :: "('w, 'z) udp_uploader_scheme \<Rightarrow> ('w, 'z) udp_uploader_scheme \<Rightarrow> bool" where
  "udp_frame st st' \<longleftrightarrow> silent st st' \<and> udp_uploader.more st' = udp_uploader.more st"

definition tcp_frame :: "('w, 'z) tcp_uploader_scheme \<Rightarrow> ('w, 'z) tcp_uploader_scheme \<Rightarrow> bool" where
  "tcp_frame st st' \<longleftrightarrow> silent st st' \<and> tcp_uploader.more st' = tcp_uploader.more st"

lemma silent_refl [simp]: "silent st st"
  by (simp add: silent_def)

lemma silent_trans: "silent a b \<Longrightarrow> silent b c \<Longrightarrow> silent a c"
  by (auto simp: silent_def)

lemma silent_update:
  "trace st' = trace st @ evs \<Longrightarrow> filter is_callback evs = [] \<Longrightarrow> silent st st'"
  by (auto simp: silent_def)

lemma silent_same: "trace st' = trace st \<Longrightarrow> silent st st'"
  by (simp add: silent_def)

lemma udp_frame_refl [simp]: "udp_frame st st"
  by (simp add: udp_frame_def)

lemma udp_frame_trans: "udp_frame a b \<Longrightarrow> udp_frame b c \<Longrightarrow> udp_frame a c"
  by (auto simp: udp_frame_def elim: silent_trans)

lemma tcp_frame_refl [simp]: "tcp_frame st st"
  by (simp add: tcp_frame_def)

lemma tcp_frame_trans: "tcp_frame a b \<Longrightarrow> tcp_frame b c \<Longrightarrow> tcp_frame a c"
  by (auto simp: tcp_frame_def elim: silent_trans)

lemma udp_frame_more: "io_state.more st' = io_state.more st \<Longrightarrow> silent st st' \<Longrightarrow> udp_frame st st'"
  by (cases st; cases st') (simp add: udp_frame_def)

lemma tcp_frame_more: "io_state.more st' = io_state.more st \<Longrightarrow> silent st st' \<Longrightarrow> tcp_frame st st'"
  by (cases st; cases st') (simp add: tcp_frame_def)

section \<open>The upload socket\<close>

lemma upload_sock_create_frame:
  assumes "upload_sock_create P peer tos proto st = (r, st')"
  shows "io_state.more st' = io_state.more st \<and> silent st st'"
  using assms
  by (cases peer)
    (auto simp: upload_sock_create_def io_defs config_defs Let_def intro: silent_update split: prod.splits if_splits)

lemma prepare_upload_sock_frame:
  assumes "zperf_prepare_upload_sock P peer tos prio proto st = (r, st')"
  shows "io_state.more st' = io_state.more st \<and> silent st st'"
proof (cases "upload_sock_create P peer tos proto st")
  case (Pair x st1)
  note create = upload_sock_create_frame [OF Pair]
  then obtain evs where "trace st1 = trace st @ evs" "filter is_callback evs = []" by (auto simp: silent_def)
  with assms Pair create show ?thesis
    by (auto simp: zperf_prepare_upload_sock_def io_defs Let_def intro: silent_update
        split: sum.splits prod.splits if_splits)
qed

section \<open>The UDP upload\<close>

lemma udp_upload_iter_frame:
  "udp_upload_iter P sock port psize rate pd lp st = (r, st') \<Longrightarrow> udp_frame st st'"
  by (auto simp: udp_upload_iter_def udp_frame_def io_defs Let_def intro: silent_update split: prod.splits if_splits)

lemma udp_upload_loop_frame:
  assumes "udp_upload_loop P sock port psize rate pd endt lp st = Some (r, st')"
  shows "udp_frame st st'"
  using assms
  by (induction rule: udp_upload_loop_induct) (auto dest: udp_upload_iter_frame elim: udp_frame_trans)

lemma upload_fin_attempt_frame:
  "upload_fin_attempt P sock nb secs usecs psize stats st = (r, stats', st') \<Longrightarrow> udp_frame st st'"
  by (auto simp: upload_fin_attempt_def udp_frame_def io_defs Let_def intro: silent_update split: prod.splits if_splits)

lemma upload_fin_loop_frame:
  "upload_fin_loop k P sock nb secs usecs psize ret stats st = (r, stats', st') \<Longrightarrow> udp_frame st st'"
proof (induction k arbitrary: ret stats st)
  case (Suc k)
  obtain r1 stats1 st1 where att: "upload_fin_attempt P sock nb secs usecs psize stats st = (r1, stats1, st1)"
    using prod_cases3 by blast
  with Suc.prems Suc.IH upload_fin_attempt_frame [OF att] show ?case
    by (auto split: if_splits elim: udp_frame_trans)
qed simp

lemma upload_drain_frame:
  assumes "upload_drain P sock n st = Some st'"
  shows "udp_frame st st'"
proof -
  let ?Q = "\<lambda>(((P0, sock0), n0), st) st'. udp_frame st st'"
  have recv: "udp_frame st st1" if "zsock_recv P0 s0 n0 True st = (r, bs, st1)"
    for P0 :: "'a platform" and s0 n0 r bs and st st1 :: "('a, 'b) udp_uploader_scheme"
    using that by (auto simp: zsock_recv_def udp_frame_def intro: silent_update split: prod.splits)
  have "?Q (((P, sock), n), st) st'"
    by (rule upload_drain.raw_induct [of ?Q, OF _ assms])
      (auto split: prod.splits if_splits dest: recv intro: udp_frame_trans)
  then show ?thesis by simp
qed

lemma zperf_upload_fin_frame:
  assumes "zperf_upload_fin P sock nb endt psize res st = Some (ret, res', st')"
  shows "udp_frame st st'"
proof -
  obtain r1 stats1 st1 where
    "upload_fin_loop 2 P sock nb (k_ticks_to_ms_ceil32 P (ucast endt) div 1000)
       (k_ticks_to_us_ceil32 P (ucast endt) - k_ticks_to_ms_ceil32 P (ucast endt) div 1000 * USEC_PER_SEC) psize 0
       (replicate (sizeof_udp_datagram + sizeof_server_hdr) 0) st = (r1, stats1, st1)"
    using prod_cases3 by blast
  with assms upload_fin_loop_frame [OF this] show ?thesis
    by (auto simp: zperf_upload_fin_def Let_def split: if_splits dest: upload_drain_frame elim: udp_frame_trans)
qed

lemma ticks_frame: "udp_frame st (snd (k_uptime_ticks P st))"
  by (simp add: k_uptime_ticks_def udp_frame_def silent_same split: prod.split)

lemma udp_upload_frame:
  assumes "udp_upload P sock port ms psize rate res st = Some (Inr (ret, res', st'))"
  shows "udp_frame st st'"
proof -
  obtain d where d: "zperf_packet_duration psize rate = Inr d"
    using assms by (auto simp: udp_upload_def split: sum.splits)
  obtain t st1 where tick: "k_uptime_ticks P st = (t, st1)" by fastforce
  let ?st2 = "st1\<lparr>sample_packet := replicate sizeof_sample_packet (of_char CHR ''z'')\<rparr>"
  have f2: "udp_frame st ?st2"
    using ticks_frame [of st P] tick by (simp add: udp_frame_def silent_def)
  obtain r st3 where loop: "udp_upload_loop P sock port (udp_packet_size psize) rate (k_us_to_ticks_ceil32 P d)
      (ucast t + k_ms_to_ticks_ceil64 P (ucast ms))
      \<lparr>lp_delay = k_us_to_ticks_ceil32 P d, lp_last = ucast t, lp_nb = 0\<rparr> ?st2 = Some (r, st3)"
    using assms by (auto simp: udp_upload_def d tick Let_def split: option.splits prod.splits)
  note f3 = udp_frame_trans [OF f2 udp_upload_loop_frame [OF loop]]
  obtain t' st4 where tick': "k_uptime_ticks P st3 = (t', st4)" by fastforce
  have f4: "udp_frame st st4" using udp_frame_trans [OF f3 ticks_frame [of st3 P]] tick' by simp
  show ?thesis
    using assms f3 f4
    by (auto simp: udp_upload_def d tick loop [simplified] tick' Let_def split: option.splits prod.splits sum.splits if_splits
        dest: zperf_upload_fin_frame elim: udp_frame_trans)
qed

lemma zperf_udp_upload_frame:
  assumes "zperf_udp_upload P (Some prm) (Some res) st = Some (Inr (ret, r, st'))"
  shows "udp_frame st st' \<and> r \<noteq> None"
proof -
  have close: "udp_frame st2 (zsock_close P sock st2)" for sock and st2 :: "('a, 'b) udp_uploader_scheme"
    by (simp add: zsock_close_def udp_frame_def silent_update [of _ _ "[Ev_close sock]"])
  obtain sock st1 where prep: "zperf_prepare_upload_sock P (up_peer_addr prm) (uint (up_tos prm)) (up_priority prm)
      IPPROTO_UDP st = (sock, st1)" by fastforce
  from prepare_upload_sock_frame [OF prep] have "udp_frame st st1" by (blast intro: udp_frame_more)
  with assms prep show ?thesis
    by (auto simp: zperf_udp_upload_def split: sockaddr.splits if_splits option.splits sum.splits prod.splits
        dest!: udp_upload_frame intro: udp_frame_trans close)
qed

section \<open>The TCP upload\<close>

lemma sendall_frame:
  assumes "sendall P sock buf st = Some (Inr (ret, st'))"
  shows "tcp_frame st st'"
proof -
  have send: "tcp_frame st st1" if "zsock_send P sock d st = (n, st1)"
    for d n and st st1 :: "('a, 'b) tcp_uploader_scheme"
    using that by (auto simp: zsock_send_def tcp_frame_def intro: silent_update split: prod.splits)
  from assms show ?thesis
    by (induction rule: sendall_induct) (auto dest: send elim: tcp_frame_trans)
qed

lemma tcp_upload_iter_frame:
  assumes "tcp_upload_iter P sock psize lp st = Some (Inr (brk, lp', st'))"
  shows "tcp_frame st st'"
proof -
  have yield: "tcp_frame st (k_yield P st1)" if "tcp_frame st st1" for st1
    using that by (simp add: k_yield_def tcp_frame_def silent_def)
  from assms show ?thesis
    by (auto simp: tcp_upload_iter_def split: option.splits sum.splits prod.splits if_splits
        dest: sendall_frame intro: yield)
qed

lemma tcp_upload_loop_frame:
  assumes "tcp_upload_loop P sock psize endp lp st = Some (Inr (lp', st'))"
  shows "tcp_frame st st'"
proof -
  have expired: "tcp_frame st st1" if "sys_timepoint_expired P endp st = (b, st1)"
    for b and st st1 :: "('a, 'b) tcp_uploader_scheme"
    using that by (auto simp: sys_timepoint_expired_def k_uptime_ticks_def tcp_frame_def Let_def silent_def
        split: prod.splits)
  from assms show ?thesis
    by (induction rule: tcp_upload_loop_induct)
      (auto dest!: tcp_upload_iter_frame expired intro: tcp_frame_trans)
qed

lemma tcp_upload_frame:
  assumes "tcp_upload P sock ms n res st = Some (Inr (ret, res', st'))"
  shows "tcp_frame st st'"
proof -
  obtain t w where tick: "xTaskGetTickCount P (world st) = (t, w)" by fastforce
  obtain t' w' where tick': "xTaskGetTickCount P w = (t', w')" by fastforce
  let ?st = "st\<lparr>world := w', tcp_sample_packet := tcp_fill_packet\<rparr>"
  obtain lp st4 where loop: "tcp_upload_loop P sock (tcp_packet_size n) (ucast t + ucast (pdMS_TO_TICKS P ms))
      \<lparr>tl_nb = 0, tl_errors = 0, tl_alloc = 0, tl_ret = 0\<rparr> ?st = Some (Inr (lp, st4))"
    using assms by (auto simp: tcp_upload_def sys_timepoint_calc_def k_uptime_ticks_def tick tick' Let_def
        split: option.splits sum.splits)
  then have "st' = st4\<lparr>world := snd (xTaskGetTickCount P (world st4))\<rparr>"
    using assms by (auto simp: tcp_upload_def sys_timepoint_calc_def k_uptime_ticks_def tick tick' Let_def
        split: prod.splits)
  with tcp_upload_loop_frame [OF loop] show ?thesis by (simp add: tcp_frame_def silent_def)
qed

lemma zperf_tcp_upload_frame:
  assumes "zperf_tcp_upload P (Some prm) (Some res) st = Some (Inr (ret, r, st'))"
  shows "tcp_frame st st' \<and> r \<noteq> None"
proof -
  have close: "tcp_frame st2 (zsock_close P sock st3)" if "tcp_frame st2 st3" for sock and st2 st3 :: "('a, 'b) tcp_uploader_scheme"
    using that by (auto simp: zsock_close_def tcp_frame_def silent_def)
  have opt: "tcp_frame st2 st3" if "zsock_setsockopt P sock o' st2 = (e, st3)"
    for sock o' e and st2 st3 :: "('a, 'b) tcp_uploader_scheme"
    using that by (auto simp: zsock_setsockopt_def tcp_frame_def intro: silent_update split: prod.splits)
  obtain sock st1 where prep: "zperf_prepare_upload_sock P (up_peer_addr prm) (uint (up_tos prm)) (up_priority prm)
      IPPROTO_TCP st = (sock, st1)" by fastforce
  from prepare_upload_sock_frame [OF prep] have "tcp_frame st st1" by (blast intro: tcp_frame_more)
  with assms prep show ?thesis
    by (auto simp: zperf_tcp_upload_def Let_def split: if_splits option.splits sum.splits prod.splits
        dest!: tcp_upload_frame opt intro: tcp_frame_trans close)
qed

end
