(* ===== verification/Zperf_Async.thy ===== *)
theory Zperf_Async
  imports Zephyr_Work Zperf_Upload_Frame
begin

text \<open>
  The asynchronous uploads: \<open>zperf_udp_upload_async\<close> and \<open>zperf_tcp_upload_async\<close> fill the context of
  their protocol and submit its work item to the queue of \<^verbatim>\<open>zperf_common.c\<close>; the worker thread
  \<open>_work_task\<close> of \<^verbatim>\<open>zephyr/work.c\<close> takes the items and runs the upload.

  The step relation \<open>async_step\<close> interleaves calls of the two functions with the worker, which is
  between two of its steps whenever it has read or written what the callers also touch: it takes an
  item, clears its flag, reports the start, runs the upload and reports the result. A label says
  which step submitted or took an item. \<open>Async_faulted\<close> is where a fault ends the run.
\<close>

section \<open>State\<close>

text \<open>
  The two static contexts \<open>udp_async_upload_ctx\<close> and \<open>tcp_async_upload_ctx\<close> are known by the address
  of the work item in them.
\<close>

datatype work_item = Udp_upload_work | Tcp_upload_work

text \<open>There are no other work items: the type can be enumerated, and quantifiers over it compute.\<close>

instantiation work_item :: enum
begin

definition enum_work_item :: "work_item list" where
  "enum_work_item = [Udp_upload_work, Tcp_upload_work]"

definition enum_all_work_item :: "(work_item \<Rightarrow> bool) \<Rightarrow> bool" where
  "enum_all_work_item A \<longleftrightarrow> A Udp_upload_work \<and> A Tcp_upload_work"

definition enum_ex_work_item :: "(work_item \<Rightarrow> bool) \<Rightarrow> bool" where
  "enum_ex_work_item A \<longleftrightarrow> A Udp_upload_work \<or> A Tcp_upload_work"

instance
proof
  have univ: "(UNIV :: work_item set) = {Udp_upload_work, Tcp_upload_work}" using work_item.exhaust by blast
  then show "UNIV = set (enum_class.enum :: work_item list)" unfolding enum_work_item_def by simp
  show "distinct (enum_class.enum :: work_item list)" by (simp add: enum_work_item_def)
  fix A :: "work_item \<Rightarrow> bool"
  show "enum_class.enum_all A = Ball UNIV A" unfolding univ by (simp add: enum_all_work_item_def)
  show "enum_class.enum_ex A = Bex UNIV A" unfolding univ by (simp add: enum_ex_work_item_def)
qed

end

lemma UNIV_work_item: "UNIV = {Udp_upload_work, Tcp_upload_work}"
  unfolding UNIV_enum enum_work_item_def by simp

datatype upload_handler = Udp_upload_async_work | Tcp_upload_async_work

record zperf_async_upload_context =
  ac_param :: zperf_upload_params
  ac_callback :: "zperf_callback option"
  ac_user_data :: user_data

record ('w, 'q) async_state = "'w tcp_uploader" +
  upload_work :: "(work_item, upload_handler, 'q) work_state"
  upload_ctx :: "work_item \<Rightarrow> zperf_async_upload_context"

section \<open>The calls\<close>

definition zperf_async_work_submit ::
  "(work_item, 'q) rtos_queue \<Rightarrow> work_item \<Rightarrow> ('w, 'q, 'z) async_state_scheme \<Rightarrow> (bool \<times> ('w, 'q, 'z) async_state_scheme) faulty" where
  "zperf_async_work_submit Q p st =
     (case k_work_submit_to_queue Q p (upload_work st) of
        Inl f \<Rightarrow> Inl f
      | Inr (queued, ws) \<Rightarrow> Inr (queued, st\<lparr>upload_work := ws\<rparr>))"

text \<open>The code that the two functions share; the returned code is \<open>None\<close> while the caller blocks.\<close>

definition upload_async ::
  "(work_item, 'q) rtos_queue \<Rightarrow> work_item \<Rightarrow> zperf_upload_params option \<Rightarrow> zperf_callback option \<Rightarrow> user_data \<Rightarrow>
   ('w, 'q, 'z) async_state_scheme \<Rightarrow> (int option \<times> ('w, 'q, 'z) async_state_scheme) faulty" where
  "upload_async Q p param callback user_data st =
     (case (param, callback) of
        (Some prm, Some cb) \<Rightarrow>
          if k_work_is_pending p (upload_work st) then Inr (Some (- EBUSY), st)
          else let st1 = st\<lparr>upload_ctx := (upload_ctx st)(p :=
                     \<lparr>ac_param = prm, ac_callback = callback, ac_user_data = user_data\<rparr>)\<rparr>
               in (case zperf_async_work_submit Q p st1 of
                     Inl f \<Rightarrow> Inl f
                   | Inr (queued, st2) \<Rightarrow> Inr (if queued then Some 0 else None, st2))
      | _ \<Rightarrow> Inr (Some (- EINVAL), st))"

definition zperf_udp_upload_async where
  "zperf_udp_upload_async Q = upload_async Q Udp_upload_work"

definition zperf_tcp_upload_async where
  "zperf_tcp_upload_async Q = upload_async Q Tcp_upload_work"

section \<open>The handlers\<close>

text \<open>A callback of the context is called without a test for \<open>NULL\<close>.\<close>

definition upload_callback ::
  "zperf_async_upload_context \<Rightarrow> zperf_status \<Rightarrow> zperf_results option \<Rightarrow>
   ('w, 'z) io_state_scheme \<Rightarrow> ('w, 'z) io_state_scheme faulty" where
  "upload_callback ctx status res st =
     (case ac_callback ctx of None \<Rightarrow> Inl Null_pointer
      | Some cb \<Rightarrow> Inr (call_session_cb (Some cb) status res (ac_user_data ctx) st))"

text \<open>
  The context a handler works on: the UDP handler always takes the static UDP context, the TCP handler
  the one that contains the work item it is given.
\<close>

fun handler_ctx :: "upload_handler \<Rightarrow> work_item \<Rightarrow> work_item" where
  "handler_ctx Udp_upload_async_work p = Udp_upload_work"
| "handler_ctx Tcp_upload_async_work p = p"

text \<open>The upload itself; \<open>junk\<close> is what the uninitialised \<open>struct zperf_results\<close> on the stack holds.\<close>

fun handler_upload ::
  "upload_handler \<Rightarrow> 'w platform \<Rightarrow> zperf_upload_params \<Rightarrow> zperf_results \<Rightarrow> ('w, 'q) async_state \<Rightarrow>
   (int \<times> zperf_results option \<times> ('w, 'q) async_state) faulty option" where
  "handler_upload Udp_upload_async_work P prm junk st = zperf_udp_upload P (Some prm) (Some junk) st"
| "handler_upload Tcp_upload_async_work P prm junk st = zperf_tcp_upload P (Some prm) (Some junk) st"

definition upload_report ::
  "zperf_async_upload_context \<Rightarrow> int \<Rightarrow> zperf_results option \<Rightarrow> ('w, 'q) async_state \<Rightarrow>
   ('w, 'q) async_state faulty" where
  "upload_report ctx ret result st =
     (if ret < 0 then upload_callback ctx ZPERF_SESSION_ERROR None st
      else upload_callback ctx ZPERF_SESSION_FINISHED result st)"

text \<open>The whole handler, without a call in between.\<close>

definition upload_async_work ::
  "upload_handler \<Rightarrow> 'w platform \<Rightarrow> work_item \<Rightarrow> zperf_results \<Rightarrow> ('w, 'q) async_state \<Rightarrow>
   ('w, 'q) async_state faulty option" where
  "upload_async_work h P work junk st =
     (let c = handler_ctx h work in
      case upload_callback (upload_ctx st c) ZPERF_SESSION_STARTED None st of
        Inl f \<Rightarrow> Some (Inl f)
      | Inr st1 \<Rightarrow>
          (case handler_upload h P (ac_param (upload_ctx st1 c)) junk st1 of
             None \<Rightarrow> None
           | Some (Inl f) \<Rightarrow> Some (Inl f)
           | Some (Inr (ret, result, st2)) \<Rightarrow> Some (upload_report (upload_ctx st2 c) ret result st2)))"

definition udp_upload_async_work where
  "udp_upload_async_work P = upload_async_work Udp_upload_async_work P"

definition tcp_upload_async_work where
  "tcp_upload_async_work P = upload_async_work Tcp_upload_async_work P"

section \<open>Initialisation\<close>

definition zperf_udp_uploader_init ::
  "('w, 'q, 'z) async_state_scheme \<Rightarrow> ('w, 'q, 'z) async_state_scheme" where
  "zperf_udp_uploader_init st =
     st\<lparr>upload_work := k_work_init Udp_upload_work Udp_upload_async_work (upload_work st)\<rparr>"

definition zperf_tcp_uploader_init ::
  "('w, 'q, 'z) async_state_scheme \<Rightarrow> ('w, 'q, 'z) async_state_scheme" where
  "zperf_tcp_uploader_init st =
     st\<lparr>upload_work := k_work_init Tcp_upload_work Tcp_upload_async_work (upload_work st)\<rparr>"

text \<open>The part of \<open>zperf_init\<close> that prepares the uploads.\<close>

definition zperf_init_uploads ::
  "(work_item, 'q) rtos_queue \<Rightarrow> ('w, 'q) async_state \<Rightarrow> ('w, 'q) async_state faulty" where
  "zperf_init_uploads Q st =
     (case k_work_queue_init Q (upload_work st) of
        Inl f \<Rightarrow> Inl f
      | Inr ws \<Rightarrow> Inr (zperf_tcp_uploader_init (zperf_udp_uploader_init (st\<lparr>upload_work := ws\<rparr>))))"

text \<open>Static data is zero before \<open>zperf_init\<close>.\<close>

definition async_static :: "'w \<Rightarrow> ('w, 'q) async_state" where
  "async_static w =
     \<lparr>world = w, trace = [], sample_packet = replicate sizeof_sample_packet 0,
      tcp_sample_packet = replicate PACKET_SIZE_MAX 0,
      upload_work = \<lparr>works = (\<lambda>_. \<lparr>wk_handler = None, wk_context = None, wk_is_pending = 0\<rparr>), work_q = None\<rparr>,
      upload_ctx = (\<lambda>_. \<lparr>ac_param = \<lparr>up_peer_addr = Sockaddr_other 0, up_duration_ms = 0, up_rate_kbps = 0,
        up_packet_size = 0, up_tos = 0, up_tcp_nodelay = 0, up_priority = 0\<rparr>, ac_callback = None, ac_user_data = 0\<rparr>)\<rparr>"

section \<open>Interleaving\<close>

datatype worker_pc =
    Worker_idle
  | Worker_taken work_item
  | Worker_calling work_item
  | Worker_uploading upload_handler work_item
  | Worker_reporting work_item int "zperf_results option"
  | Async_faulted

datatype async_label = Submitted work_item | Taken work_item | Internal

inductive async_step ::
  "'w platform \<Rightarrow> (work_item, 'q) rtos_queue \<Rightarrow> worker_pc \<times> ('w, 'q) async_state \<Rightarrow> async_label \<Rightarrow>
   worker_pc \<times> ('w, 'q) async_state \<Rightarrow> bool"
  for P Q where
  call: "pc \<noteq> Async_faulted \<Longrightarrow> upload_async Q p param cb ud st = Inr (r, st') \<Longrightarrow>
    async_step P Q (pc, st) (if r = Some 0 then Submitted p else Internal) (pc, st')"
| call_fault: "pc \<noteq> Async_faulted \<Longrightarrow> upload_async Q p param cb ud st = Inl f \<Longrightarrow>
    async_step P Q (pc, st) Internal (Async_faulted, st)"
| take_item: "work_task_receive Q (upload_work st) = Some (p, ws) \<Longrightarrow>
    async_step P Q (Worker_idle, st) (Taken p) (Worker_taken p, st\<lparr>upload_work := ws\<rparr>)"
| clear: "async_step P Q (Worker_taken p, st) Internal
    (Worker_calling p, st\<lparr>upload_work := work_task_clear p (upload_work st)\<rparr>)"
| start: "wk_handler (works (upload_work st) p) = Some h \<Longrightarrow> wk_context (works (upload_work st) p) = Some w \<Longrightarrow>
    upload_callback (upload_ctx st (handler_ctx h w)) ZPERF_SESSION_STARTED None st = Inr st' \<Longrightarrow>
    async_step P Q (Worker_calling p, st) Internal (Worker_uploading h (handler_ctx h w), st')"
| start_fault: "wk_handler (works (upload_work st) p) = None \<or>
      (\<exists>h w f. wk_handler (works (upload_work st) p) = Some h \<and> wk_context (works (upload_work st) p) = Some w \<and>
         upload_callback (upload_ctx st (handler_ctx h w)) ZPERF_SESSION_STARTED None st = Inl f) \<Longrightarrow>
    async_step P Q (Worker_calling p, st) Internal (Async_faulted, st)"
| run: "handler_upload h P (ac_param (upload_ctx st c)) junk st = Some (Inr (ret, result, st')) \<Longrightarrow>
    async_step P Q (Worker_uploading h c, st) Internal (Worker_reporting c ret result, st')"
| run_fault: "handler_upload h P (ac_param (upload_ctx st c)) junk st = Some (Inl f) \<Longrightarrow>
    async_step P Q (Worker_uploading h c, st) Internal (Async_faulted, st)"
| report: "upload_report (upload_ctx st c) ret result st = Inr st' \<Longrightarrow>
    async_step P Q (Worker_reporting c ret result, st) Internal (Worker_idle, st')"
| report_fault: "upload_report (upload_ctx st c) ret result st = Inl f \<Longrightarrow>
    async_step P Q (Worker_reporting c ret result, st) Internal (Async_faulted, st)"

inductive async_reachable ::
  "'w platform \<Rightarrow> (work_item, 'q) rtos_queue \<Rightarrow> worker_pc \<times> ('w, 'q) async_state \<Rightarrow> bool"
  for P Q where
  init: "zperf_init_uploads Q (async_static w) = Inr st \<Longrightarrow> async_reachable P Q (Worker_idle, st)"
| step: "async_reachable P Q s \<Longrightarrow> async_step P Q s l s' \<Longrightarrow> async_reachable P Q s'"

inductive_cases async_stepE: "async_step P Q (pc, st) l s'"

section \<open>The invariant\<close>

lemma handler_upload_frame:
  assumes "handler_upload h P prm junk st = Some (Inr (ret, r, st'))"
  shows "upload_work st' = upload_work st" and "upload_ctx st' = upload_ctx st" and "silent st st'" and "r \<noteq> None"
proof -
  have "upload_work st' = upload_work st \<and> upload_ctx st' = upload_ctx st \<and> silent st st' \<and> r \<noteq> None"
  proof (cases h)
    case Udp_upload_async_work
    with assms zperf_udp_upload_frame [of P prm junk st ret r st'] show ?thesis
      by (cases st; cases st') (simp add: udp_frame_def)
  next
    case Tcp_upload_async_work
    with assms zperf_tcp_upload_frame [of P prm junk st ret r st'] show ?thesis
      by (cases st; cases st') (simp add: tcp_frame_def)
  qed
  then show "upload_work st' = upload_work st" and "upload_ctx st' = upload_ctx st" and "silent st st'" and "r \<noteq> None"
    by simp_all
qed

text \<open>The item whose flag the worker has still to clear, and the contexts the worker will use.\<close>

fun taken_item :: "worker_pc \<Rightarrow> work_item option" where
  "taken_item (Worker_taken p) = Some p"
| "taken_item _ = None"

fun worker_uses :: "worker_pc \<Rightarrow> work_item set" where
  "worker_uses (Worker_taken p) = {p}"
| "worker_uses (Worker_calling p) = {p}"
| "worker_uses (Worker_uploading h c) = {c}"
| "worker_uses (Worker_reporting c ret r) = {c}"
| "worker_uses _ = {}"

fun handler_of :: "work_item \<Rightarrow> upload_handler" where
  "handler_of Udp_upload_work = Udp_upload_async_work"
| "handler_of Tcp_upload_work = Tcp_upload_async_work"

lemma handler_ctx_of [simp]: "handler_ctx (handler_of p) p = p"
  by (cases p) simp_all

definition async_inv ::
  "(work_item, 'q) rtos_queue \<Rightarrow> ('q \<Rightarrow> work_item list) \<Rightarrow> ('q \<Rightarrow> nat) \<Rightarrow> worker_pc \<times> ('w, 'q) async_state \<Rightarrow> bool" where
  "async_inv Q items cap = (\<lambda>(pc, st).
     work_queue_ok Q items cap (taken_item pc) (upload_work st) \<and>
     (\<forall>p. wk_handler (works (upload_work st) p) = Some (handler_of p)) \<and>
     (\<forall>p \<in> set (work_queued items (upload_work st)) \<union> worker_uses pc.
        wk_context (works (upload_work st) p) = Some p \<and> ac_callback (upload_ctx st p) \<noteq> None))"

lemma submit_works:
  assumes "k_work_submit_to_queue Q p ws = Inr (b, ws')"
  shows "wk_handler (works ws' x) = wk_handler (works ws x)"
    and "wk_context (works ws' x) = (if x = p then Some p else wk_context (works ws x))"
  using assms by (auto simp: k_work_submit_to_queue_def Let_def split: option.splits)

lemma receive_works: "work_task_receive Q ws = Some (p, ws') \<Longrightarrow> works ws' = works ws"
  by (auto simp: work_task_receive_def split: option.splits)

lemma clear_works [simp]:
  "wk_handler (works (work_task_clear p ws) x) = wk_handler (works ws x)"
  "wk_context (works (work_task_clear p ws) x) = wk_context (works ws x)"
  by (simp_all add: work_task_clear_def)

lemma async_inv_init:
  assumes laws: "queue_laws Q items cap" and init: "zperf_init_uploads Q (async_static w) = Inr st"
  shows "async_inv Q items cap (Worker_idle, st)"
proof -
  from init obtain q where q: "xQueueCreate Q DEFAULT_QUEUE_SIZE = Some q"
    by (auto simp: zperf_init_uploads_def k_work_queue_init_def split: option.splits)
  with queue_lawsD(1) [OF laws q] init laws show ?thesis
    by (auto simp: async_inv_def zperf_init_uploads_def k_work_queue_init_def zperf_udp_uploader_init_def
        zperf_tcp_uploader_init_def k_work_init_def async_static_def work_queue_ok_def work_queued_def
        UNIV_work_item DEFAULT_QUEUE_SIZE_def elim: handler_of.elims) (metis work_item.exhaust)
qed

text \<open>What a call does in a state that satisfies the invariant.\<close>

lemma upload_async_busy:
  "k_work_is_pending p (upload_work st) \<Longrightarrow> upload_async Q p (Some prm) (Some cb) ud st = Inr (Some (- EBUSY), st)"
  by (simp add: upload_async_def)

lemma upload_async_accepted:
  assumes inv: "async_inv Q items cap (pc, st)" and free: "\<not> k_work_is_pending p (upload_work st)"
  shows "\<exists>ws. upload_async Q p (Some prm) (Some cb) ud st =
      Inr (Some 0, st\<lparr>upload_ctx := (upload_ctx st)(p := \<lparr>ac_param = prm, ac_callback = Some cb, ac_user_data = ud\<rparr>),
        upload_work := ws\<rparr>) \<and>
    work_queued items ws = work_queued items (upload_work st) @ [p] \<and>
    async_inv Q items cap (pc, st\<lparr>upload_ctx := (upload_ctx st)(p := \<lparr>ac_param = prm, ac_callback = Some cb,
      ac_user_data = ud\<rparr>), upload_work := ws\<rparr>)"
proof -
  from inv have ok: "work_queue_ok Q items cap (taken_item pc) (upload_work st)" by (simp add: async_inv_def)
  from wq.submit_ok [OF ok free] obtain ws where ws: "k_work_submit_to_queue Q p (upload_work st) = Inr (True, ws)"
    "work_queue_ok Q items cap (taken_item pc) ws" "work_queued items ws = work_queued items (upload_work st) @ [p]"
    by blast
  have "upload_async Q p (Some prm) (Some cb) ud st = Inr (Some 0, st\<lparr>upload_ctx := (upload_ctx st)(p :=
      \<lparr>ac_param = prm, ac_callback = Some cb, ac_user_data = ud\<rparr>), upload_work := ws\<rparr>)"
    using ws(1) free by (simp add: upload_async_def zperf_async_work_submit_def)
  moreover have "async_inv Q items cap (pc, st\<lparr>upload_ctx := (upload_ctx st)(p := \<lparr>ac_param = prm,
      ac_callback = Some cb, ac_user_data = ud\<rparr>), upload_work := ws\<rparr>)"
    using inv ws submit_works [OF ws(1)] by (auto simp: async_inv_def)
  ultimately show ?thesis using ws(3) by blast
qed

lemma upload_async_cases:
  assumes inv: "async_inv Q items cap (pc, st)"
  obtains (refused) e where "upload_async Q p param cb ud st = Inr (Some e, st)" "e < 0"
    | (accepted) st' where "upload_async Q p param cb ud st = Inr (Some 0, st')" "p \<notin> set (work_queued items (upload_work st))"
        "work_queued items (upload_work st') = work_queued items (upload_work st) @ [p]" "async_inv Q items cap (pc, st')"
proof (cases "\<exists>prm f. param = Some prm \<and> cb = Some f \<and> \<not> k_work_is_pending p (upload_work st)")
  case True
  then obtain prm f where prm: "param = Some prm" "cb = Some f" and free: "\<not> k_work_is_pending p (upload_work st)" by blast
  have "p \<notin> set (work_queued items (upload_work st))"
    using free inv by (auto simp: async_inv_def work_pending_iff)
  with upload_async_accepted [OF inv free, of prm f ud] prm accepted show thesis by auto
next
  case False
  then have "upload_async Q p param cb ud st \<in> {Inr (Some (- EINVAL), st), Inr (Some (- EBUSY), st)}"
    by (auto simp: upload_async_def split: option.splits)
  with refused show thesis by (auto simp: EINVAL_def EBUSY_def)
qed

section \<open>The abstract queue\<close>

text \<open>
  What the uploads promise: the accepted items form a queue without duplicates, and the worker takes
  its head.
\<close>

fun upload_queue :: "work_item list \<Rightarrow> async_label \<Rightarrow> work_item list option" where
  "upload_queue ps (Submitted p) = (if p \<in> set ps then None else Some (ps @ [p]))"
| "upload_queue ps (Taken p) = (case ps of [] \<Rightarrow> None | x # xs \<Rightarrow> if x = p then Some xs else None)"
| "upload_queue ps Internal = Some ps"

lemma upload_callback_frame:
  assumes "upload_callback ctx status r (st :: ('w, 'q) async_state) = Inr st'"
  shows "upload_work st' = upload_work st" and "upload_ctx st' = upload_ctx st"
  using assms by (auto simp: upload_callback_def call_session_cb_def split: option.splits)

lemma upload_report_frame:
  assumes "upload_report ctx ret r st = Inr st'"
  shows "upload_work st' = upload_work st" and "upload_ctx st' = upload_ctx st"
  using assms by (auto simp: upload_report_def dest: upload_callback_frame split: if_splits)

lemma upload_callback_fault: "upload_callback ctx s r st = Inl f \<Longrightarrow> ac_callback ctx = None"
  by (simp add: upload_callback_def split: option.splits)

lemma async_step_simulates:
  assumes inv: "async_inv Q items cap s" and step: "async_step P Q s l s'"
  shows "upload_queue (work_queued items (upload_work (snd s))) l = Some (work_queued items (upload_work (snd s'))) \<and>
    async_inv Q items cap s'"
  using step inv
proof (induction rule: async_step.induct)
  case (call pc p param cb ud st r st')
  from call(3) show ?case
  proof (cases rule: upload_async_cases [where p = p and param = param and cb = cb and ud = ud])
    case (refused e)
    with call show ?thesis by auto
  next
    case (accepted st1)
    with call show ?thesis by auto
  qed
next
  case (call_fault pc p param cb ud st f)
  from call_fault(3) show ?case
    by (cases rule: upload_async_cases [where p = p and param = param and cb = cb and ud = ud])
      (use call_fault in auto)
next
  case (take_item st p ws)
  from take_item(2) have ok: "work_queue_ok Q items cap None (upload_work st)" by (simp add: async_inv_def)
  show ?case
  proof (cases "work_queued items (upload_work st)")
    case Nil
    with wq.receive_empty [OF ok] take_item(1) show ?thesis by simp
  next
    case (Cons x xs)
    with wq.receive_ok [OF ok Cons] take_item receive_works [OF take_item(1)] show ?thesis
      by (auto simp: async_inv_def)
  qed
next
  case (clear p st)
  then have ok: "work_queue_ok Q items cap (Some p) (upload_work st)" by (simp add: async_inv_def)
  from wq.clear_ok [OF ok] clear show ?case by (simp add: async_inv_def)
next
  case (start st p h w st')
  with upload_callback_frame [OF start(3)] show ?case by (auto simp: async_inv_def)
next
  case (start_fault st p)
  then show ?case by (auto simp: async_inv_def dest!: upload_callback_fault)
next
  case (run h st c junk ret result st')
  with handler_upload_frame(1,2) [OF run(1)] show ?case by (simp add: async_inv_def)
next
  case (run_fault h st c junk f)
  then show ?case by (simp add: async_inv_def)
next
  case (report st c ret result st')
  with upload_report_frame [OF report(1)] show ?case by (simp add: async_inv_def)
next
  case (report_fault st c ret result f)
  then show ?case by (simp add: async_inv_def)
qed

lemma async_reachable_inv:
  assumes "queue_laws Q items cap" and "async_reachable P Q s"
  shows "async_inv Q items cap s"
  using assms(2)
proof (induction rule: async_reachable.induct)
  case (init w st)
  with assms(1) show ?case by (rule async_inv_init)
next
  case (step s l s')
  with async_step_simulates show ?case by blast
qed

end
