(* ===== verification/Zperf_Async_Properties.thy ===== *)
theory Zperf_Async_Properties
  imports Zperf_Async Zperf_Tcp_Upload_Properties
begin

text \<open>
  What the asynchronous uploads guarantee, over every interleaving of calls with the worker: the
  accepted uploads are a queue, a call is answered at once, an upload reports its start and its end;
  and where the reports go when a second upload is accepted while one runs.
\<close>

section \<open>Runs\<close>

inductive async_run ::
  "'w platform \<Rightarrow> (work_item, 'q) rtos_queue \<Rightarrow> worker_pc \<times> ('w, 'q) async_state \<Rightarrow> async_label list \<Rightarrow>
   worker_pc \<times> ('w, 'q) async_state \<Rightarrow> bool"
  for P Q where
  nil: "async_run P Q s [] s"
| snoc: "async_run P Q s ls s' \<Longrightarrow> async_step P Q s' l s'' \<Longrightarrow> async_run P Q s (ls @ [l]) s''"

lemma async_run_reachable: "async_run P Q s ls s' \<Longrightarrow> async_reachable P Q s \<Longrightarrow> async_reachable P Q s'"
  by (induction rule: async_run.induct) (auto intro: async_reachable.step)

fun submitted_of :: "async_label \<Rightarrow> work_item list" where
  "submitted_of (Submitted p) = [p]"
| "submitted_of _ = []"

fun taken_of :: "async_label \<Rightarrow> work_item list" where
  "taken_of (Taken p) = [p]"
| "taken_of _ = []"

definition submitted :: "async_label list \<Rightarrow> work_item list" where
  "submitted ls = concat (map submitted_of ls)"

definition taken :: "async_label list \<Rightarrow> work_item list" where
  "taken ls = concat (map taken_of ls)"

lemma upload_queue_step: "upload_queue xs l = Some ys \<Longrightarrow> xs @ submitted_of l = taken_of l @ ys"
  by (cases l) (auto split: if_splits list.splits)

section \<open>A concrete queue and a concrete run\<close>

definition demo_queue :: "(work_item, work_item list \<times> nat) rtos_queue" where
  "demo_queue =
     \<lparr>xQueueCreate = (\<lambda>n. Some ([], n)),
      xQueueSend = (\<lambda>x (xs, n). if length xs < n then Some (xs @ [x], n) else None),
      xQueueReceive = (\<lambda>(xs, n). case xs of [] \<Rightarrow> None | y # ys \<Rightarrow> Some (y, (ys, n)))\<rparr>"

lemma demo_queue_laws: "queue_laws demo_queue fst snd"
  by (auto simp: queue_laws_def demo_queue_def split: list.splits)

text \<open>An upload to an address of no known family: it is refused as soon as it runs.\<close>

definition demo_bad_params :: zperf_upload_params where
  "demo_bad_params = demo_params\<lparr>up_peer_addr := Sockaddr_other 0\<rparr>"

abbreviation demo_async_init :: "(demo_world, work_item list \<times> nat) async_state" where
  "demo_async_init \<equiv> projr (zperf_init_uploads demo_queue (async_static demo_start))"

definition demo_async_bad :: "(demo_world, work_item list \<times> nat) async_state" where
  "demo_async_bad = (async_static demo_start)
     \<lparr>upload_ctx := \<lambda>_. \<lparr>ac_param = demo_bad_params, ac_callback = Some 7, ac_user_data = 8\<rparr>\<rparr>"

lemma demo_init: "zperf_init_uploads demo_queue (async_static demo_start) = Inr demo_async_init"
  by (simp add: zperf_init_uploads_def k_work_queue_init_def demo_queue_def)

lemma demo_submitted:
  "\<exists>st. async_step demo_platform demo_queue (Worker_idle, demo_async_init) (Submitted Udp_upload_work) (Worker_idle, st) \<and>
     work_queued fst (upload_work st) = [Udp_upload_work] \<and>
     upload_ctx st Udp_upload_work = \<lparr>ac_param = demo_bad_params, ac_callback = Some 7, ac_user_data = 8\<rparr>"
proof -
  have inv: "async_inv demo_queue fst snd (Worker_idle, demo_async_init)"
    using demo_queue_laws demo_init by (rule async_inv_init)
  then have empty: "work_queued fst (upload_work demo_async_init) = []"
    by (simp add: zperf_init_uploads_def k_work_queue_init_def demo_queue_def zperf_udp_uploader_init_def
        zperf_tcp_uploader_init_def k_work_init_def work_queued_def)
  with inv have "\<not> k_work_is_pending Udp_upload_work (upload_work demo_async_init)"
    using work_pending_iff [of demo_queue fst snd None "upload_work demo_async_init" Udp_upload_work]
    by (simp add: async_inv_def)
  from upload_async_accepted [OF inv this, of demo_bad_params 7 8] obtain ws where
    "upload_async demo_queue Udp_upload_work (Some demo_bad_params) (Some 7) 8 demo_async_init =
      Inr (Some 0, demo_async_init\<lparr>upload_ctx := (upload_ctx demo_async_init)(Udp_upload_work :=
        \<lparr>ac_param = demo_bad_params, ac_callback = Some 7, ac_user_data = 8\<rparr>), upload_work := ws\<rparr>)"
    "work_queued fst ws = [Udp_upload_work]" using empty by auto
  with async_step.call [OF _ this(1), of Worker_idle demo_platform] show ?thesis by auto
qed

lemma demo_reporting:
  "\<exists>st. async_reachable demo_platform demo_queue (Worker_reporting Udp_upload_work (- EINVAL) (Some results_zero), st) \<and>
     work_queued fst (upload_work st) = []"
proof -
  from demo_submitted obtain st1 where
    s1: "async_step demo_platform demo_queue (Worker_idle, demo_async_init) (Submitted Udp_upload_work) (Worker_idle, st1)"
    "work_queued fst (upload_work st1) = [Udp_upload_work]"
    "upload_ctx st1 Udp_upload_work = \<lparr>ac_param = demo_bad_params, ac_callback = Some 7, ac_user_data = 8\<rparr>" by blast
  have r1: "async_reachable demo_platform demo_queue (Worker_idle, st1)"
    using async_reachable.init [OF demo_init] s1(1) by (rule async_reachable.step)
  note inv1 = async_reachable_inv [OF demo_queue_laws r1]
  then have ok: "work_queue_ok demo_queue fst snd None (upload_work st1)" by (simp add: async_inv_def)
  from wq.receive_ok [OF ok s1(2)] obtain ws where
    ws: "work_task_receive demo_queue (upload_work st1) = Some (Udp_upload_work, ws)" "work_queued fst ws = []"
    "work_queue_ok demo_queue fst snd (Some Udp_upload_work) ws" by blast
  let ?st2 = "st1\<lparr>upload_work := ws\<rparr>"
  let ?st3 = "?st2\<lparr>upload_work := work_task_clear Udp_upload_work ws\<rparr>"
  have r3: "async_reachable demo_platform demo_queue (Worker_calling Udp_upload_work, ?st3)"
    using async_reachable.step [OF async_reachable.step [OF r1 async_step.take_item [OF ws(1)]] async_step.clear] by simp
  have "wk_handler (works (upload_work ?st3) Udp_upload_work) = Some Udp_upload_async_work"
    "wk_context (works (upload_work ?st3) Udp_upload_work) = Some Udp_upload_work"
    using async_reachable_inv [OF demo_queue_laws r3] by (auto simp: async_inv_def)
  from async_reachable.step [OF r3 async_step.start [OF this]] s1(3)
  have r4: "async_reachable demo_platform demo_queue (Worker_uploading Udp_upload_async_work Udp_upload_work,
      call_session_cb (Some 7) ZPERF_SESSION_STARTED None 8 ?st3)"
    by (simp add: upload_callback_def)
  show ?thesis
    using async_reachable.step [OF r4 async_step.run [where junk = results_zero]] s1(3) ws(2) wq.clear_ok [OF ws(3)]
    by (force simp: zperf_udp_upload_def demo_bad_params_def call_session_cb_def)
qed

section \<open>Properties\<close>

text \<open>
  C13. The asynchronous uploads refine a queue without duplicates: in every reachable state each step
  of a caller or of the worker is a step of the abstract queue on the waiting items.
\<close>

theorem async_refines_queue:
  assumes "queue_laws Q items cap" and "async_reachable P Q (pc, st)" and "async_step P Q (pc, st) l (pc', st')"
  shows "upload_queue (work_queued items (upload_work st)) l = Some (work_queued items (upload_work st'))"
  using async_step_simulates [OF async_reachable_inv [OF assms(1,2)] assms(3)] by simp

theorem async_refines_queue_witness:
  "\<exists>st. upload_queue (work_queued fst (upload_work demo_async_init)) (Submitted Udp_upload_work) =
     Some (work_queued fst (upload_work (st :: (demo_world, work_item list \<times> nat) async_state))) \<and>
     work_queued fst (upload_work st) = [Udp_upload_work]"
proof -
  from demo_submitted obtain st where step: "async_step demo_platform demo_queue (Worker_idle, demo_async_init)
      (Submitted Udp_upload_work) (Worker_idle, st)" "work_queued fst (upload_work st) = [Udp_upload_work]" by blast
  from async_refines_queue [OF demo_queue_laws async_reachable.init [OF demo_init] step(1)] step(2)
  show ?thesis by blast
qed

text \<open>
  C14. Every accepted upload is taken by the worker exactly once and in the order of acceptance: at any
  moment of any run the accepted ones are those taken so far followed by those that still wait.
\<close>

theorem async_uploads_in_order:
  assumes "queue_laws Q items cap" and "zperf_init_uploads Q (async_static w) = Inr st0"
    and "async_run P Q (Worker_idle, st0) ls (pc, st)"
  shows "submitted ls = taken ls @ work_queued items (upload_work st)"
proof -
  have init: "async_reachable P Q (Worker_idle, st0)" using assms(2) by (rule async_reachable.init)
  have "submitted ls = taken ls @ work_queued items (upload_work (snd s'))"
    if "async_run P Q s ls s'" "s = (Worker_idle, st0)" for s s' ls
    using that
  proof (induction rule: async_run.induct)
    case (nil s)
    with async_inv_init [OF assms(1,2)] assms show ?case
      by (auto simp: submitted_def taken_def zperf_init_uploads_def k_work_queue_init_def zperf_udp_uploader_init_def
          zperf_tcp_uploader_init_def k_work_init_def work_queued_def dest: queue_lawsD(1) split: option.splits)
  next
    case (snoc s ls s' l s'')
    with init have "async_inv Q items cap s'"
      using async_reachable_inv [OF assms(1)] async_run_reachable by blast
    from async_step_simulates [OF this snoc.hyps(2)] snoc show ?case
      by (auto simp: submitted_def taken_def dest!: upload_queue_step)
  qed
  from this [OF assms(3)] show ?thesis by simp
qed

theorem async_uploads_in_order_witness:
  "\<exists>st. submitted [Submitted Udp_upload_work] = taken [Submitted Udp_upload_work] @ work_queued fst (upload_work st) \<and>
     work_queued fst (upload_work (st :: (demo_world, work_item list \<times> nat) async_state)) = [Udp_upload_work]"
proof -
  from demo_submitted obtain st where step: "async_step demo_platform demo_queue (Worker_idle, demo_async_init)
      (Submitted Udp_upload_work) (Worker_idle, st)" "work_queued fst (upload_work st) = [Udp_upload_work]" by blast
  from async_run.snoc [OF async_run.nil step(1)]
  have "async_run demo_platform demo_queue (Worker_idle, demo_async_init) [Submitted Udp_upload_work] (Worker_idle, st)"
    by simp
  from async_uploads_in_order [OF demo_queue_laws demo_init this] step(2) show ?thesis by blast
qed

text \<open>
  C15. A request for an asynchronous upload is answered at once, it never blocks on the queue and never
  fails: \<open>-EBUSY\<close> and no change if an upload of that protocol waits or has just been taken, else 0,
  with the request stored and appended to the queue.
\<close>

theorem async_upload_answered:
  assumes "queue_laws Q items cap" and "async_reachable P Q (pc, st)"
  shows "\<exists>r st'. upload_async Q p (Some prm) (Some cb) ud st = Inr (Some r, st') \<and>
    (if p \<in> set (work_queued items (upload_work st)) \<or> pc = Worker_taken p then r = - EBUSY \<and> st' = st
     else r = 0 \<and> upload_ctx st' p = \<lparr>ac_param = prm, ac_callback = Some cb, ac_user_data = ud\<rparr> \<and>
       work_queued items (upload_work st') = work_queued items (upload_work st) @ [p] \<and> trace st' = trace st)"
proof -
  have inv: "async_inv Q items cap (pc, st)" using assms by (rule async_reachable_inv)
  then have pend: "k_work_is_pending p (upload_work st) \<longleftrightarrow>
      p \<in> set (work_queued items (upload_work st)) \<or> pc = Worker_taken p"
    using work_pending_iff [of Q items cap "taken_item pc" "upload_work st" p]
    by (cases pc) (auto simp: async_inv_def)
  show ?thesis
  proof (cases "k_work_is_pending p (upload_work st)")
    case True
    then show ?thesis using pend upload_async_busy [OF True] by auto
  next
    case False
    with pend upload_async_accepted [OF inv False, of prm cb ud] show ?thesis by auto
  qed
qed

theorem async_upload_answered_witness:
  "\<exists>r st'. upload_async demo_queue Tcp_upload_work (Some demo_params) (Some 7) 8 demo_async_init = Inr (Some r, st') \<and>
     r \<in> {0, - EBUSY}"
  using async_upload_answered [OF demo_queue_laws async_reachable.init [OF demo_init],
      of Tcp_upload_work demo_params 7 8]
  by (auto split: if_splits)

text \<open>
  C27. An upload that runs undisturbed reports to the callback of its context exactly twice: its start
  before anything else, and at its end either an error or its results.
\<close>

theorem async_upload_reports:
  assumes "upload_async_work h P work junk st = Some (Inr st')"
    and "ac_callback (upload_ctx st (handler_ctx h work)) = Some cb"
  shows "\<exists>evs status r. let ud = ac_user_data (upload_ctx st (handler_ctx h work)) in
    trace st' = trace st @ Ev_callback cb ZPERF_SESSION_STARTED None ud # evs @ [Ev_callback cb status r ud] \<and>
    filter is_callback evs = [] \<and>
    (status = ZPERF_SESSION_ERROR \<and> r = None \<or> status = ZPERF_SESSION_FINISHED \<and> r \<noteq> None)"
proof -
  let ?c = "handler_ctx h work"
  let ?ctx = "upload_ctx st ?c"
  let ?st1 = "st\<lparr>trace := trace st @ [Ev_callback cb ZPERF_SESSION_STARTED None (ac_user_data ?ctx)]\<rparr>"
  obtain ret r st2 where up: "handler_upload h P (ac_param ?ctx) junk ?st1 = Some (Inr (ret, r, st2))"
    and rep: "upload_report (upload_ctx st2 ?c) ret r st2 = Inr st'"
    using assms by (auto simp: upload_async_work_def upload_callback_def call_session_cb_def Let_def
        split: option.splits sum.splits)
  note frame = handler_upload_frame [OF up]
  then have ctx: "upload_ctx st2 ?c = ?ctx" by simp
  from frame(3) obtain evs where "trace st2 = trace ?st1 @ evs" "filter is_callback evs = []"
    by (auto simp: silent_def)
  with rep frame(4) show ?thesis
    unfolding ctx using assms(2)
    by (auto simp: upload_report_def upload_callback_def call_session_cb_def Let_def split: if_splits)
qed

theorem async_upload_reports_witness:
  "\<exists>st' evs status r. upload_async_work Udp_upload_async_work demo_platform Udp_upload_work results_zero demo_async_bad =
       Some (Inr st') \<and>
     trace st' = Ev_callback 7 ZPERF_SESSION_STARTED None 8 # evs @ [Ev_callback 7 status r 8] \<and>
     filter is_callback evs = []"
proof -
  obtain st' where run:
    "upload_async_work Udp_upload_async_work demo_platform Udp_upload_work results_zero demo_async_bad = Some (Inr st')"
    by (simp add: upload_async_work_def upload_callback_def call_session_cb_def upload_report_def zperf_udp_upload_def
        demo_async_bad_def demo_bad_params_def EINVAL_def)
  from async_upload_reports [OF run, of 7] have "\<exists>evs status r.
      trace st' = Ev_callback 7 ZPERF_SESSION_STARTED None 8 # evs @ [Ev_callback 7 status r 8] \<and>
      filter is_callback evs = []"
    by (auto simp: demo_async_bad_def async_static_def Let_def)
  with run show ?thesis by blast
qed

text \<open>
  C29. The pending flag is cleared before the upload runs, so a second request is accepted while the
  first upload is under way, and it overwrites the context: the result of the first upload is then
  reported to the callback of the second.
\<close>

theorem async_upload_report_redirected:
  assumes "queue_laws Q items cap" and "async_reachable P Q (Worker_reporting p ret (Some res), st)"
    and "work_queued items (upload_work st) = []"
  shows "\<exists>st1 st2. upload_async Q p (Some prm) (Some cb) ud st = Inr (Some 0, st1) \<and>
    async_step P Q (Worker_reporting p ret (Some res), st1) Internal (Worker_idle, st2) \<and>
    trace st2 = trace st @ [if ret < 0 then Ev_callback cb ZPERF_SESSION_ERROR None ud
      else Ev_callback cb ZPERF_SESSION_FINISHED (Some res) ud]"
proof -
  have inv: "async_inv Q items cap (Worker_reporting p ret (Some res), st)" using assms(1,2) by (rule async_reachable_inv)
  then have "\<not> k_work_is_pending p (upload_work st)"
    using work_pending_iff [of Q items cap None "upload_work st" p] assms(3) by (simp add: async_inv_def)
  from upload_async_accepted [OF inv this, of prm cb ud] obtain ws where
    acc: "upload_async Q p (Some prm) (Some cb) ud st = Inr (Some 0, st\<lparr>upload_ctx := (upload_ctx st)(p :=
      \<lparr>ac_param = prm, ac_callback = Some cb, ac_user_data = ud\<rparr>), upload_work := ws\<rparr>)" (is "_ = Inr (_, ?st1)")
    by blast
  let ?ev = "if ret < 0 then Ev_callback cb ZPERF_SESSION_ERROR None ud
    else Ev_callback cb ZPERF_SESSION_FINISHED (Some res) ud"
  have "upload_report (upload_ctx ?st1 p) ret (Some res) ?st1 = Inr (?st1\<lparr>trace := trace st @ [?ev]\<rparr>)"
    by (simp add: upload_report_def upload_callback_def call_session_cb_def)
  from async_step.report [OF this, of P Q] acc show ?thesis by (intro exI conjI) auto
qed

theorem async_upload_report_redirected_witness:
  "\<exists>st st1 st2. async_reachable demo_platform demo_queue
       (Worker_reporting Udp_upload_work (- EINVAL) (Some results_zero), st) \<and>
     upload_async demo_queue Udp_upload_work (Some demo_params) (Some 9) 10 st = Inr (Some 0, st1) \<and>
     async_step demo_platform demo_queue (Worker_reporting Udp_upload_work (- EINVAL) (Some results_zero), st1)
       Internal (Worker_idle, st2) \<and>
     trace st2 = trace st @ [Ev_callback 9 ZPERF_SESSION_ERROR None 10]"
proof -
  from demo_reporting obtain st where
    st: "async_reachable demo_platform demo_queue (Worker_reporting Udp_upload_work (- EINVAL) (Some results_zero), st)"
    "work_queued fst (upload_work st) = []" by blast
  from async_upload_report_redirected [OF demo_queue_laws st, of demo_params 9 10]
  obtain st1 st2 where "upload_async demo_queue Udp_upload_work (Some demo_params) (Some 9) 10 st = Inr (Some 0, st1)"
    "async_step demo_platform demo_queue (Worker_reporting Udp_upload_work (- EINVAL) (Some results_zero), st1)
       Internal (Worker_idle, st2)"
    "trace st2 = trace st @ [Ev_callback 9 ZPERF_SESSION_ERROR None 10]"
    by (auto simp: EINVAL_def)
  with st(1) show ?thesis by blast
qed

end
