(* ===== verification/Zephyr_Net_Parse.thy ===== *)
theory Zephyr_Net_Parse
  imports Zephyr_Net_Ip Zperf_Cstring
begin

text \<open>
  The address parser of \<^verbatim>\<open>zephyr/net/net_ip.c\<close>. The text is a block of memory, a list of characters
  that holds a C string with its terminating null character; \<open>str_len\<close> is the length the caller
  passes. A read outside of the block, and a write outside of the local buffer \<open>ipaddr\<close>, is the fault
  \<open>Out_of_bounds\<close>.

  Every operation returns whether it succeeded and the address structure, which the code writes even
  on some of the failing paths. That \<open>inet_pton\<close> does not write when it fails is lwIP's documented
  behaviour and built in here.
\<close>

section \<open>Memory\<close>

abbreviation NUL :: char where "NUL \<equiv> CHR 0x00"

definition NET_IPV4_ADDR_LEN :: nat where "NET_IPV4_ADDR_LEN = length ''xxx.xxx.xxx.xxx'' + 1"

text \<open>A constant of the C library's network headers.\<close>

definition INET6_ADDRSTRLEN :: nat where "INET6_ADDRSTRLEN = 46"

text \<open>\<open>for (i = 0; i < len; i++) if (!str[i]) { len = i; break; }\<close> on the memory from \<open>off\<close>.\<close>

fun scan_len :: "char list \<Rightarrow> nat \<Rightarrow> nat faulty" where
  "scan_len mem 0 = Inr 0"
| "scan_len [] (Suc len) = Inl Out_of_bounds"
| "scan_len (c # mem) (Suc len) =
     (if c = NUL then Inr 0 else case scan_len mem len of Inl f \<Rightarrow> Inl f | Inr n \<Rightarrow> Inr (Suc n))"

text \<open>\<open>memchr(str, c, len)\<close>: the index of the first \<open>c\<close>.\<close>

definition memchr :: "char list \<Rightarrow> char \<Rightarrow> nat \<Rightarrow> nat option" where
  "memchr mem c len = find_index (\<lambda>x. x = c) (take len mem)"

text \<open>
  \<open>memcpy(ipaddr, mem + off, n); ipaddr[n] = '\0';\<close> with a buffer of \<open>cap\<close> characters; the result is
  the C string in the buffer.
\<close>

definition copy_cstr :: "nat \<Rightarrow> char list \<Rightarrow> nat \<Rightarrow> nat \<Rightarrow> string faulty" where
  "copy_cstr cap mem off n =
     (if off + n \<le> length mem \<and> n < cap then Inr (takeWhile (\<lambda>c. c \<noteq> NUL) (take n (drop off mem)))
      else Inl Out_of_bounds)"

section \<open>The parser\<close>

text \<open>\<open>(unsigned long)(unsigned short)tmp != tmp\<close> is the range test.\<close>

definition convert_port :: "string \<Rightarrow> u16 option" where
  "convert_port buf =
     (let (tmp, endptr) = strtoul 10 buf
      in if (endptr = buf \<and> tmp = 0) \<or> \<not> (buf \<noteq> [] \<and> endptr = []) \<or> ucast (ucast tmp :: u16) \<noteq> tmp then None
         else Some (ucast tmp))"

text \<open>
  The port field, which has the same place in both structures, and is 0 in a structure the caller has
  cleared.
\<close>

fun sa_port :: "sockaddr \<Rightarrow> u16" where
  "sa_port (Sockaddr_in p a) = p"
| "sa_port (Sockaddr_in6 p a) = p"
| "sa_port (Sockaddr_other f) = 0"

definition parse_ipv4 ::
  "'w platform \<Rightarrow> char list \<Rightarrow> nat \<Rightarrow> bool \<Rightarrow> sockaddr \<Rightarrow> (bool \<times> sockaddr) faulty" where
  "parse_ipv4 P str str_len has_port addr =
     (case scan_len str (min NET_IPV4_ADDR_LEN str_len) of
        Inl f \<Rightarrow> Inl f
      | Inr len \<Rightarrow>
          (case (if has_port then memchr str CHR '':'' len else Some len) of
             None \<Rightarrow> Inr (False, addr)
           | Some ptr \<Rightarrow>
               let end' = min len ptr in
               (case copy_cstr (NET_IPV4_ADDR_LEN + 1) str 0 end' of
                  Inl f \<Rightarrow> Inl f
                | Inr ipaddr \<Rightarrow>
                    let (ret, a) = net_addr_pton4 P ipaddr (net_sin_addr P addr) in
                    if ret < 0 then Inr (False, addr)
                    else let addr1 = Sockaddr_in (sa_port addr) a in
                    if \<not> has_port then Inr (True, addr1)
                    else (case copy_cstr (NET_IPV4_ADDR_LEN + 1) str (ptr + 1) (str_len - end') of
                            Inl f \<Rightarrow> Inl f
                          | Inr buf \<Rightarrow>
                              (case convert_port buf of
                                 None \<Rightarrow> Inr (False, addr1)
                               | Some port \<Rightarrow> Inr (True, Sockaddr_in (htons port) a))))))"

definition parse_ipv6 ::
  "'w platform \<Rightarrow> char list \<Rightarrow> nat \<Rightarrow> bool \<Rightarrow> sockaddr \<Rightarrow> (bool \<times> sockaddr) faulty" where
  "parse_ipv6 P str str_len has_port addr =
     (case scan_len str (min INET6_ADDRSTRLEN str_len) of
        Inl f \<Rightarrow> Inl f
      | Inr len \<Rightarrow>
          (case (if has_port then memchr str CHR '']'' len else Some len) of
             None \<Rightarrow> Inr (False, addr)
           | Some ptr \<Rightarrow>
               let end' = (if has_port then min len (ptr - 1) else len) in
               (case copy_cstr (INET6_ADDRSTRLEN + 1) str (if has_port then 1 else 0) end' of
                  Inl f \<Rightarrow> Inl f
                | Inr ipaddr \<Rightarrow>
                    let (ret, a) = net_addr_pton6 P ipaddr (net_sin6_addr P addr) in
                    if ret < 0 then Inr (False, addr)
                    else let addr1 = Sockaddr_in6 (sa_port addr) a in
                    if \<not> has_port then Inr (True, addr1)
                    else if ptr + 1 < str_len then
                      if length str \<le> ptr + 1 then Inl Out_of_bounds
                      else if str ! (ptr + 1) = CHR '':'' then
                        (case scan_len (drop (ptr + 2) str) (str_len - end' - 1 - 2) of
                           Inl f \<Rightarrow> Inl f
                         | Inr len' \<Rightarrow>
                             (case copy_cstr (INET6_ADDRSTRLEN + 1) str (ptr + 2) len' of
                                Inl f \<Rightarrow> Inl f
                              | Inr buf \<Rightarrow>
                                  (case convert_port buf of
                                     None \<Rightarrow> Inr (False, addr1)
                                   | Some port \<Rightarrow> Inr (True, Sockaddr_in6 (htons port) a))))
                      else Inr (True, addr1)
                    else Inr (True, addr1))))"

text \<open>\<open>for (count = i = 0; i < str_len && str[i]; i++) if (str[i] == ':') count++;\<close>\<close>

fun count_colons :: "char list \<Rightarrow> nat \<Rightarrow> nat faulty" where
  "count_colons mem 0 = Inr 0"
| "count_colons [] (Suc len) = Inl Out_of_bounds"
| "count_colons (c # mem) (Suc len) =
     (if c = NUL then Inr 0
      else case count_colons mem len of Inl f \<Rightarrow> Inl f | Inr n \<Rightarrow> Inr (if c = CHR '':'' then Suc n else n))"

text \<open>\<open>None\<close> for the text is a null pointer.\<close>

definition net_ipaddr_parse ::
  "'w platform \<Rightarrow> char list option \<Rightarrow> nat \<Rightarrow> sockaddr \<Rightarrow> (bool \<times> sockaddr) faulty" where
  "net_ipaddr_parse P str_opt str_len addr =
     (case str_opt of
        None \<Rightarrow> Inr (False, addr)
      | Some str \<Rightarrow>
          if str_len = 0 then Inr (False, addr)
          else (case str of
                  [] \<Rightarrow> Inl Out_of_bounds
                | c # _ \<Rightarrow>
                    if c = NUL then Inr (False, addr)
                    else if c = CHR ''['' then parse_ipv6 P str str_len True addr
                    else (case count_colons str str_len of
                            Inl f \<Rightarrow> Inl f
                          | Inr count \<Rightarrow>
                              if count = 1 then parse_ipv4 P str str_len True addr
                              else (case parse_ipv4 P str str_len False addr of
                                      Inl f \<Rightarrow> Inl f
                                    | Inr (ok, addr1) \<Rightarrow>
                                        if \<not> ok then parse_ipv6 P str str_len False addr1
                                        else Inr (True, addr1)))))"

section \<open>C strings\<close>

text \<open>The memory of a C string; its characters are not null.\<close>

definition cstr :: "string \<Rightarrow> char list" where
  "cstr s = s @ [NUL]"

lemma takeWhile_no_nul [simp]: "NUL \<notin> set s \<Longrightarrow> takeWhile (\<lambda>c. c \<noteq> NUL) s = s"
  by (induction s) auto

lemma takeWhile_cstr [simp]: "NUL \<notin> set s \<Longrightarrow> takeWhile (\<lambda>c. c \<noteq> NUL) (s @ NUL # r) = s"
  by (induction s) auto

lemma scan_len_cstr: "NUL \<notin> set s \<Longrightarrow> n \<le> length s \<Longrightarrow> scan_len (s @ r) n = Inr n"
  by (induction s n rule: scan_len.induct) auto

lemma count_colons_cstr:
  "NUL \<notin> set s \<Longrightarrow> count_colons (s @ r) (length s) = Inr (length (filter (\<lambda>c. c = CHR '':'') s))"
  by (induction s) auto

lemma find_index_split: "c \<notin> set h \<Longrightarrow> find_index (\<lambda>x. x = c) (h @ c # r) = Some (length h)"
  by (induction h) auto

lemma memchr_split:
  assumes "c \<notin> set h"
  shows "memchr (h @ c # r) c n = (if length h < n then Some (length h) else None)"
proof (cases "length h < n")
  case True
  then obtain k where "n - length h = Suc k" by (metis Suc_diff_Suc)
  with True assms show ?thesis by (simp add: memchr_def find_index_split)
next
  case False
  with assms show ?thesis
    by (auto simp: memchr_def find_index_None_iff dest: in_set_takeD)
qed

section \<open>What the parser accepts\<close>

lemma NET_IPV4_ADDR_LEN_eq [simp]: "NET_IPV4_ADDR_LEN = 16"
  by (simp add: NET_IPV4_ADDR_LEN_def)

text \<open>The reference for a text \<open>host:port\<close>, in terms of its two parts.\<close>

definition host_port4 :: "'w platform \<Rightarrow> string \<Rightarrow> string \<Rightarrow> sockaddr \<Rightarrow> (bool \<times> sockaddr) faulty" where
  "host_port4 P host port addr =
     (if 16 \<le> length host then Inr (False, addr)
      else case net_addr_pton4 P host (net_sin_addr P addr) of (ret, a) \<Rightarrow>
        if ret < 0 then Inr (False, addr)
        else if 16 \<le> length port then Inl Out_of_bounds
        else case convert_port port of None \<Rightarrow> Inr (False, Sockaddr_in (sa_port addr) a)
          | Some n \<Rightarrow> Inr (True, Sockaddr_in (htons n) a))"

definition host_port6 :: "'w platform \<Rightarrow> string \<Rightarrow> string \<Rightarrow> sockaddr \<Rightarrow> (bool \<times> sockaddr) faulty" where
  "host_port6 P host port addr =
     (if 45 \<le> length host then Inr (False, addr)
      else case net_addr_pton6 P host (net_sin6_addr P addr) of (ret, a) \<Rightarrow>
        if ret < 0 then Inr (False, addr)
        else if 47 \<le> length port then Inl Out_of_bounds
        else case convert_port port of None \<Rightarrow> Inr (False, Sockaddr_in6 (sa_port addr) a)
          | Some n \<Rightarrow> Inr (True, Sockaddr_in6 (htons n) a))"

lemma parse_ipv4_host_port:
  assumes "NUL \<notin> set h" and "NUL \<notin> set p" and "CHR '':'' \<notin> set h"
  shows "parse_ipv4 P (cstr (h @ CHR '':'' # p)) (length (h @ CHR '':'' # p)) True addr = host_port4 P h p addr"
proof -
  let ?s = "h @ CHR '':'' # p"
  have len: "scan_len (cstr ?s) (min 16 (length ?s)) = Inr (min 16 (length ?s))"
    unfolding cstr_def using assms by (intro scan_len_cstr) auto
  have ptr: "memchr (cstr ?s) CHR '':'' (min 16 (length ?s)) = (if length h < 16 then Some (length h) else None)"
    using memchr_split [OF assms(3), of "p @ [NUL]"] by (auto simp: cstr_def)
  have host: "copy_cstr 17 (cstr ?s) 0 (length h) = Inr h" if "length h < 16"
    using that assms(1) by (simp add: copy_cstr_def cstr_def)
  have port: "copy_cstr 17 (cstr ?s) (Suc (length h)) (Suc (length p)) = (if length p < 16 then Inr p else Inl Out_of_bounds)"
    using assms(2) by (simp add: copy_cstr_def cstr_def)
  show ?thesis
    using len ptr host port
    by (auto simp: parse_ipv4_def host_port4_def not_less split: prod.split option.split)
qed

lemma parse_ipv6_host_port:
  assumes "NUL \<notin> set h" and "NUL \<notin> set p" and "CHR '']'' \<notin> set h"
  shows "parse_ipv6 P (cstr (CHR ''['' # h @ CHR '']'' # CHR '':'' # p)) (length (CHR ''['' # h @ CHR '']'' # CHR '':'' # p))
      True addr = host_port6 P h p addr"
proof -
  let ?s = "CHR ''['' # h @ CHR '']'' # CHR '':'' # p"
  have len: "scan_len (cstr ?s) (min INET6_ADDRSTRLEN (length ?s)) = Inr (min 46 (length ?s))"
    unfolding cstr_def INET6_ADDRSTRLEN_def using assms by (intro scan_len_cstr) auto
  have ptr: "memchr (cstr ?s) CHR '']'' (min 46 (length ?s)) = (if length h < 45 then Some (Suc (length h)) else None)"
    using memchr_split [of "CHR '']''" "CHR ''['' # h" "CHR '':'' # p @ [NUL]"] assms(3) by (auto simp: cstr_def)
  have host: "copy_cstr (INET6_ADDRSTRLEN + 1) (cstr ?s) 1 (length h) = Inr h" if "length h < 45"
    using that assms(1) by (simp add: copy_cstr_def cstr_def INET6_ADDRSTRLEN_def)
  have rest: "drop (Suc (length h) + 2) (cstr ?s) = p @ [NUL]" "cstr ?s ! (Suc (length h) + 1) = CHR '':''"
    by (simp_all add: cstr_def nth_append)
  have plen: "scan_len (drop (Suc (length h) + 2) (cstr ?s)) (length p) = Inr (length p)"
    unfolding rest using assms(2) by (intro scan_len_cstr) auto
  have port: "copy_cstr (INET6_ADDRSTRLEN + 1) (cstr ?s) (Suc (length h) + 2) (length p) =
      (if length p < 47 then Inr p else Inl Out_of_bounds)"
    using assms(2) unfolding copy_cstr_def rest by (simp add: cstr_def INET6_ADDRSTRLEN_def)
  show ?thesis
    unfolding parse_ipv6_def len
    using ptr host plen port rest(2)
    by (auto simp: host_port6_def not_less Let_def split: prod.split option.split) (simp_all add: cstr_def)
qed

lemma length_show_nat: "0 < k \<Longrightarrow> n < 10 ^ k \<Longrightarrow> length (show_nat n) \<le> k"
proof (induction n arbitrary: k rule: show_nat.induct)
  case (1 n)
  show ?case
  proof (cases "n < 10")
    case True
    with 1(2) show ?thesis by (simp add: show_nat.simps [of n])
  next
    case False
    with 1(2,3) obtain j where k: "k = Suc j" "0 < j" by (cases k; cases "k - 1") auto
    with 1(3) have "n div 10 < 10 ^ j" by (simp add: div_less_iff_less_mult mult.commute)
    with 1(1) False k show ?thesis by (simp add: show_nat.simps [of n])
  qed
qed

lemma convert_port_show_nat:
  assumes "n < 65536"
  shows "convert_port (show_nat n) = Some (of_nat n)"
proof -
  have "strtoul 10 (show_nat n) = (of_nat n, [])"
    using strtoul_show_nat [of n "[]"] assms by simp
  moreover have "ucast (of_nat n :: u32) = (of_nat n :: u16)" "ucast (of_nat n :: u16) = (of_nat n :: u32)"
    using assms by (simp_all add: word_unat_eq_iff unsigned_ucast_eq unsigned_of_nat take_bit_eq_mod)
  moreover have "[] \<noteq> show_nat n" by (metis show_nat_not_Nil)
  ultimately show ?thesis by (simp add: convert_port_def)
qed

lemma show_nat_plain: "c \<in> set (show_nat n) \<Longrightarrow> c \<noteq> NUL \<and> c \<noteq> CHR '':''"
  using show_nat_digits [of n] by (auto simp: is_digit_def digit_value_def Let_def)

lemma net_ipaddr_parse4:
  assumes "NUL \<notin> set h" and "NUL \<notin> set p" and "CHR '':'' \<notin> set h" and "CHR '':'' \<notin> set p" and "take 1 h \<noteq> ''[''"
  shows "net_ipaddr_parse P (Some (cstr (h @ '':'' @ p))) (length (h @ '':'' @ p)) addr = host_port4 P h p addr"
proof -
  let ?s = "h @ CHR '':'' # p"
  obtain c r where c: "cstr ?s = c # r" "c \<noteq> NUL" "c \<noteq> CHR ''[''"
    using assms by (cases h) (auto simp: cstr_def)
  have "NUL \<notin> set ?s" using assms by auto
  from count_colons_cstr [OF this, of "[NUL]"]
  have "count_colons (cstr ?s) (length ?s) = Inr (length (filter (\<lambda>c. c = CHR '':'') ?s))" by (simp add: cstr_def)
  moreover have "filter (\<lambda>c. c = CHR '':'') h = []" "filter (\<lambda>c. c = CHR '':'') p = []"
    using assms(3,4) by (auto simp: filter_empty_conv)
  ultimately have count: "count_colons (cstr ?s) (length ?s) = Inr 1" by simp
  show ?thesis
    using parse_ipv4_host_port [OF assms(1-3), of P addr] c count by (simp add: net_ipaddr_parse_def)
qed

lemma net_ipaddr_parse6:
  assumes "NUL \<notin> set h" and "NUL \<notin> set p" and "CHR '']'' \<notin> set h"
  shows "net_ipaddr_parse P (Some (cstr (''['' @ h @ '']:'' @ p))) (length (''['' @ h @ '']:'' @ p)) addr = host_port6 P h p addr"
  using parse_ipv6_host_port [OF assms, of P addr] by (simp add: net_ipaddr_parse_def cstr_def)

end
