(* ===== verification/Zephyr_Net_Parse_Properties.thy ===== *)
theory Zephyr_Net_Parse_Properties
  imports Zephyr_Net_Parse Zperf_Demo_Platform
begin

text \<open>What the address parser accepts, on which texts it overruns its buffer, and that it reads back what is printed.\<close>

text \<open>
  C19. On a text \<open>host:port\<close> and on a text \<open>[host]:port\<close> the parser does what its two parts say: the
  host must fit its buffer and be an address, the port a number below 65536. It never reads outside
  of the text; it writes outside of its local buffer exactly when the host is an address and the port
  has 16 characters or more (47 for IPv6).
\<close>

theorem net_parse_host_port:
  assumes "NUL \<notin> set h" and "NUL \<notin> set p"
  shows "(CHR '':'' \<notin> set h \<and> CHR '':'' \<notin> set p \<and> take 1 h \<noteq> ''['' \<longrightarrow>
      net_ipaddr_parse P (Some (cstr (h @ '':'' @ p))) (length (h @ '':'' @ p)) addr = host_port4 P h p addr) \<and>
    (CHR '']'' \<notin> set h \<longrightarrow>
      net_ipaddr_parse P (Some (cstr (''['' @ h @ '']:'' @ p))) (length (''['' @ h @ '']:'' @ p)) addr = host_port6 P h p addr)"
  using net_ipaddr_parse4 [OF assms] net_ipaddr_parse6 [OF assms] by blast

theorem net_parse_host_port_witness:
  "net_ipaddr_parse demo_platform (Some (cstr ''192.168.0.1:1234567890123456'')) (length ''192.168.0.1:1234567890123456'')
     (Sockaddr_other 0) = Inl Out_of_bounds"
  using net_parse_host_port [of "''192.168.0.1''" "''1234567890123456''" demo_platform "Sockaddr_other 0"]
  by (simp add: host_port4_def net_addr_pton4_def demo_platform_def)

text \<open>
  C20. Writing an address and a port and parsing the text gives them back: if the host is the text of
  an address, the parsed structure holds that address and the printed port number in network order.
\<close>

theorem net_parse_round_trip:
  assumes "n < 65536" and "NUL \<notin> set h"
  shows "(CHR '':'' \<notin> set h \<and> take 1 h \<noteq> ''['' \<and> length h < 16 \<and> inet_pton4 P h 0 = (1, a) \<longrightarrow>
      net_ipaddr_parse P (Some (cstr (h @ '':'' @ show_nat n))) (length (h @ '':'' @ show_nat n)) (Sockaddr_other 0) =
        Inr (True, Sockaddr_in (htons (of_nat n)) a)) \<and>
    (CHR '']'' \<notin> set h \<and> length h < 45 \<and> inet_pton6 P h IPV6_ANY_ADDR = (1, a6) \<longrightarrow>
      net_ipaddr_parse P (Some (cstr (''['' @ h @ '']:'' @ show_nat n))) (length (''['' @ h @ '']:'' @ show_nat n)) (Sockaddr_other 0) =
        Inr (True, Sockaddr_in6 (htons (of_nat n)) a6))"
proof -
  have port: "length (show_nat n) \<le> 5" "NUL \<notin> set (show_nat n)" "CHR '':'' \<notin> set (show_nat n)"
    using length_show_nat [of 5 n] show_nat_plain [of _ n] assms(1) by (simp, blast+)
  show ?thesis
  proof (intro conjI impI; elim conjE)
    assume "CHR '':'' \<notin> set h" "take 1 h \<noteq> ''[''" "length h < 16" "inet_pton4 P h 0 = (1, a)"
    with net_ipaddr_parse4 [OF assms(2) port(2), of P "Sockaddr_other 0"] port assms(1)
    show "net_ipaddr_parse P (Some (cstr (h @ '':'' @ show_nat n))) (length (h @ '':'' @ show_nat n)) (Sockaddr_other 0) =
        Inr (True, Sockaddr_in (htons (of_nat n)) a)"
      by (simp add: host_port4_def net_addr_pton4_def net_sin_addr_def convert_port_show_nat)
  next
    assume "CHR '']'' \<notin> set h" "length h < 45" "inet_pton6 P h IPV6_ANY_ADDR = (1, a6)"
    with net_ipaddr_parse6 [OF assms(2) port(2), of P "Sockaddr_other 0"] port assms(1)
    show "net_ipaddr_parse P (Some (cstr (''['' @ h @ '']:'' @ show_nat n))) (length (''['' @ h @ '']:'' @ show_nat n)) (Sockaddr_other 0) =
        Inr (True, Sockaddr_in6 (htons (of_nat n)) a6)"
      by (simp add: host_port6_def net_addr_pton6_def net_sin6_addr_def convert_port_show_nat)
  qed
qed

theorem net_parse_round_trip_witness:
  "net_ipaddr_parse demo_platform (Some (cstr (''192.168.0.2'' @ '':'' @ show_nat 5001))) (length (''192.168.0.2'' @ '':'' @ show_nat 5001))
     (Sockaddr_other 0) = Inr (True, Sockaddr_in (htons 5001) 0x0200A8C0)"
  using net_parse_round_trip [of 5001 "''192.168.0.2''" demo_platform "0x0200A8C0"]
  by (simp add: demo_platform_def)

end
