(* ===== verification/Zperf_Shell_Text.thy ===== *)
theory Zperf_Shell_Text
  imports Zperf_Types Zperf_Cstring
begin

text \<open>
  The text side of \<^verbatim>\<open>zperf_shell.c\<close>: numbers printed with a unit, numbers read with a unit, the
  argument of an option, and the reports the callbacks print. What a function prints is the string it
  returns.

  A \<open>shell_status_t\<close> is an enumeration without negative members, hence an unsigned word: a negated
  status is a large number, and a comparison \<open>< 0\<close> of a status never holds.
\<close>

section \<open>Status codes and tables\<close>

type_synonym shell_status = u32

definition kStatus_SHELL_Success :: shell_status where "kStatus_SHELL_Success = 0"

definition kStatus_SHELL_Error :: shell_status where "kStatus_SHELL_Error = 1"

definition TIME_US :: "u32 list" where "TIME_US = [60 * 1000 * 1000, 1000 * 1000, 1000, 0]"
definition TIME_US_UNIT :: "string list" where "TIME_US_UNIT = [''m'', ''s'', ''ms'', ''us'']"
definition KBPS :: "u32 list" where "KBPS = [1024, 0]"
definition KBPS_UNIT :: "string list" where "KBPS_UNIT = [''Mbps'', ''Kbps'']"
definition K_DIV :: "u32 list" where "K_DIV = [1024 * 1024, 1024, 0]"
definition K_UNIT :: "string list" where "K_UNIT = [''M'', ''K'', '''']"

abbreviation NL :: string where "NL \<equiv> [CHR 0x0A]"
abbreviation TAB :: string where "TAB \<equiv> [CHR 0x09]"

text \<open>The conversions \<open>%u\<close> and \<open>%d\<close> of \<open>printf\<close>.\<close>

definition fmt_u :: "u32 \<Rightarrow> string" where "fmt_u v = show_nat (unat v)"

definition fmt_d :: "int \<Rightarrow> string" where
  "fmt_d v = (if v < 0 then ''-'' @ show_nat (nat (- v)) else show_nat (nat v))"

section \<open>Numbers with units\<close>

text \<open>The arrays end with the divisor 0, so the search stops inside them.\<close>

fun print_number :: "u32 \<Rightarrow> u32 list \<Rightarrow> string list \<Rightarrow> string faulty" where
  "print_number value (divisor # divisors) (unit # units) =
     (if value < divisor then print_number value divisors units
      else if divisor \<noteq> 0 then
        let radix = value div divisor;
            dec = (value mod divisor) * 100 div divisor
        in Inr (fmt_u radix @ ''.'' @ (if dec < 10 then ''0'' else '''') @ fmt_u dec @ '' '' @ unit)
      else Inr (fmt_u value @ '' '' @ unit))"
| "print_number value _ _ = Inl Out_of_bounds"

definition tolower :: "char \<Rightarrow> char" where
  "tolower c = (let n = of_char c :: nat in if 65 \<le> n \<and> n \<le> 90 then char_of (n + 32) else c)"

text \<open>\<open>strncasecmp(a, b, 1) == 0\<close>\<close>

definition same_initial :: "string \<Rightarrow> string \<Rightarrow> bool" where
  "same_initial a b \<longleftrightarrow> map tolower (take 1 a) = map tolower (take 1 b)"

text \<open>The divisor at which \<open>do { cmp = ... } while (cmp != 0 && *++divisor != 0U)\<close> stops.\<close>

fun unit_divisor :: "string \<Rightarrow> u32 list \<Rightarrow> string list \<Rightarrow> u32 faulty" where
  "unit_divisor suffix (d # ds) (u # us) =
     (if same_initial suffix u then Inr d
      else case ds of [] \<Rightarrow> Inl Out_of_bounds
        | d' # _ \<Rightarrow> if d' = 0 then Inr 0 else unit_divisor suffix ds us)"
| "unit_divisor suffix _ _ = Inl Out_of_bounds"

text \<open>The result is a \<open>long\<close>, the word read as signed; the product is unsigned and wraps.\<close>

definition parse_number :: "string \<Rightarrow> u32 list \<Rightarrow> string list \<Rightarrow> u32 faulty" where
  "parse_number string divisors units =
     (let (dec, suffix) = strtoul 10 string in
      case unit_divisor suffix divisors units of
        Inl f \<Rightarrow> Inl f
      | Inr divisor \<Rightarrow> Inr (if divisor = 0 then dec else dec * divisor))"

text \<open>\<open>(parse_number(...) + 1023) / 1024\<close> on \<open>long\<close>: the sum must not overflow, the division truncates.\<close>

definition rate_kbps_of :: "u32 \<Rightarrow> u32 faulty" where
  "rate_kbps_of n =
     (if 2 ^ 31 \<le> sint n + 1023 then Inl Signed_overflow
      else let x = sint n + 1023 in Inr (word_of_int (if x < 0 then - ((- x) div 1024) else x div 1024)))"

section \<open>Option arguments\<close>

text \<open>
  \<open>parse_arg\<close> reads the number that follows the two characters of \<open>argv[i]\<close>, or is the next argument;
  it returns the number, or a negated status, and the new index.
\<close>

definition parse_arg :: "nat \<Rightarrow> string list \<Rightarrow> shell_status \<times> nat" where
  "parse_arg i argv =
     (let str0 = drop 2 (argv ! i) in
      if str0 = [] \<and> length argv \<le> i + 1 then (- 1, i)
      else let (str, i') = (if str0 = [] then (argv ! (i + 1), i + 1) else (str0, i));
               (res, endptr, erange) = strtol (if take 2 str = ''0x'' then 16 else 10) str
           in (if erange \<or> endptr = str then - kStatus_SHELL_Error else word_of_int res, i'))"

section \<open>Reports\<close>

text \<open>Bits in a time in microseconds, as kbit/s; 64-bit arithmetic.\<close>

definition rate_in_kbps :: "u64 \<Rightarrow> u32 \<Rightarrow> u32" where
  "rate_in_kbps bytes time_us =
     (if time_us \<noteq> 0 then ucast ((bytes * 8 * ucast USEC_PER_SEC) div (ucast time_us * 1024)) else 0)"

text \<open>Strings printed one after the other, up to the first fault.\<close>

fun print_all :: "string faulty list \<Rightarrow> string faulty" where
  "print_all [] = Inr []"
| "print_all (Inl f # ps) = Inl f"
| "print_all (Inr s # ps) = (case print_all ps of Inl f \<Rightarrow> Inl f | Inr t \<Rightarrow> Inr (s @ t))"

definition print_time :: "u32 \<Rightarrow> string faulty" where
  "print_time v = print_number v TIME_US TIME_US_UNIT"

definition print_rate :: "u32 \<Rightarrow> string faulty" where
  "print_rate v = print_number v KBPS KBPS_UNIT"

definition udp_session_cb_text :: "zperf_status \<Rightarrow> zperf_results option \<Rightarrow> string faulty" where
  "udp_session_cb_text status result =
     (case status of
        ZPERF_SESSION_STARTED \<Rightarrow> Inr (''New session started.'' @ NL)
      | ZPERF_SESSION_FINISHED \<Rightarrow>
          (case result of None \<Rightarrow> Inl Null_pointer
           | Some r \<Rightarrow> print_all
               [Inr (''End of session!'' @ NL @ '' duration:'' @ TAB @ TAB), print_time (time_in_us r), Inr NL,
                Inr ('' received packets:'' @ TAB @ fmt_u (nb_packets_rcvd r) @ NL),
                Inr ('' nb packets lost:'' @ TAB @ fmt_u (nb_packets_lost r) @ NL),
                Inr ('' nb packets outorder:'' @ TAB @ fmt_u (nb_packets_outorder r) @ NL),
                Inr ('' jitter:'' @ TAB @ TAB @ TAB), print_time (jitter_in_us r), Inr NL,
                Inr ('' rate:'' @ TAB @ TAB @ TAB),
                print_rate (rate_in_kbps (ucast (total_len r)) (time_in_us r)), Inr NL])
      | ZPERF_SESSION_ERROR \<Rightarrow> Inr (''UDP session error.'' @ NL))"

definition tcp_session_cb_text :: "zperf_status \<Rightarrow> zperf_results option \<Rightarrow> string faulty" where
  "tcp_session_cb_text status result =
     (case status of
        ZPERF_SESSION_STARTED \<Rightarrow> Inr (''New TCP session started.'' @ NL)
      | ZPERF_SESSION_FINISHED \<Rightarrow>
          (case result of None \<Rightarrow> Inl Null_pointer
           | Some r \<Rightarrow> print_all
               [Inr (''TCP session ended'' @ NL @ '' Duration:'' @ TAB @ TAB), print_time (time_in_us r), Inr NL,
                Inr ('' rate:'' @ TAB @ TAB @ TAB),
                print_rate (rate_in_kbps (ucast (total_len r)) (time_in_us r)), Inr NL])
      | ZPERF_SESSION_ERROR \<Rightarrow> Inr (''TCP session error.'' @ NL))"

text \<open>The rate the client computes from what it sent.\<close>

definition client_rate :: "zperf_results \<Rightarrow> u32" where
  "client_rate r = rate_in_kbps (ucast (nb_packets_sent r) * ucast (packet_size r)) (client_time_in_us r)"

definition shell_udp_upload_print_stats :: "zperf_results \<Rightarrow> string faulty" where
  "shell_udp_upload_print_stats r =
     (let rate = rate_in_kbps (ucast (total_len r)) (time_in_us r) in
      if \<not> CONFIG_NET_UDP then Inr []
      else print_all
       [Inr (''-'' @ NL @ ''Upload completed!'' @ NL),
        Inr (if rate = 0 then ''LAST PACKET NOT RECEIVED!!!'' @ NL else []),
        Inr (''Statistics:'' @ TAB @ TAB @ ''server'' @ TAB @ ''(client)'' @ NL @ ''Duration:'' @ TAB @ TAB),
        print_time (time_in_us r), Inr (TAB @ ''(''), print_time (client_time_in_us r), Inr ('')'' @ NL),
        Inr (''Num packets:'' @ TAB @ TAB @ fmt_u (nb_packets_rcvd r) @ TAB @ ''('' @ fmt_u (nb_packets_sent r) @ '')'' @ NL),
        Inr (''Num packets out order:'' @ TAB @ fmt_u (nb_packets_outorder r) @ NL),
        Inr (''Num packets lost:'' @ TAB @ fmt_u (nb_packets_lost r) @ NL),
        Inr (''Jitter:'' @ TAB @ TAB @ TAB), print_time (jitter_in_us r), Inr NL,
        Inr (''Rate:'' @ TAB @ TAB @ TAB), print_rate rate, Inr (TAB @ ''(''), print_rate (client_rate r), Inr ('')'' @ NL)])"

definition shell_tcp_upload_print_stats :: "zperf_results \<Rightarrow> string faulty" where
  "shell_tcp_upload_print_stats r =
     (if \<not> CONFIG_NET_TCP then Inr []
      else print_all
       [Inr (''-'' @ NL @ ''Upload completed!'' @ NL @ ''Duration:'' @ TAB), print_time (client_time_in_us r), Inr NL,
        Inr (''Num packets:'' @ TAB @ fmt_u (nb_packets_sent r) @ NL),
        Inr (''Num errors:'' @ TAB @ fmt_u (nb_packets_errors r) @ '' (retry or fail)'' @ NL),
        Inr (''Rate:'' @ TAB @ TAB), print_rate (client_rate r), Inr NL])"

definition udp_upload_cb_text :: "zperf_status \<Rightarrow> zperf_results option \<Rightarrow> string faulty" where
  "udp_upload_cb_text status result =
     (case status of
        ZPERF_SESSION_STARTED \<Rightarrow> Inr []
      | ZPERF_SESSION_FINISHED \<Rightarrow>
          (case result of None \<Rightarrow> Inl Null_pointer | Some r \<Rightarrow> shell_udp_upload_print_stats r)
      | ZPERF_SESSION_ERROR \<Rightarrow> Inr (''UDP upload failed'' @ NL))"

definition tcp_upload_cb_text :: "zperf_status \<Rightarrow> zperf_results option \<Rightarrow> string faulty" where
  "tcp_upload_cb_text status result =
     (case status of
        ZPERF_SESSION_STARTED \<Rightarrow> Inr []
      | ZPERF_SESSION_FINISHED \<Rightarrow>
          (case result of None \<Rightarrow> Inl Null_pointer | Some r \<Rightarrow> shell_tcp_upload_print_stats r)
      | ZPERF_SESSION_ERROR \<Rightarrow> Inr (''TCP upload failed'' @ NL))"

end
