(* ===== verification/Zperf_Shell.thy ===== *)
theory Zperf_Shell
  imports Zperf_Async Zperf_Udp_Receiver Zperf_Tcp_Receiver Zephyr_Net_Parse Zperf_Shell_Text
begin

text \<open>
  The commands of \<^verbatim>\<open>zperf_shell.c\<close>: parsing of options, addresses and numbers, the upload and
  download commands, the start of the shell and \<open>shell_task\<close>, which runs the command the program was
  started with.

  The arguments of a command are the list of its strings; the entry after the last is a null pointer
  and everything beyond is out of bounds. What is printed is collected in \<open>sh_out\<close>. A command returns
  a status and a new state, or a fault, or \<open>None\<close> if an upload it runs never ends. The download
  commands also take the state of the server they control.
\<close>

section \<open>State\<close>

record ('w, 'q) shell_state = "('w, 'q) async_state" +
  sh_out :: string
  in6_addr_my :: in6_addr
  in6_addr_dst :: in6_addr
  in4_addr_my :: in_addr
  in4_addr_dst :: in_addr
  shell_ipv6 :: in6_addr
  shell_ipv4 :: in_addr

definition emit :: "string \<Rightarrow> ('w, 'q) shell_state \<Rightarrow> ('w, 'q) shell_state" where
  "emit s st = st\<lparr>sh_out := sh_out st @ s\<rparr>"

text \<open>The shell's callbacks and its null handle, by number.\<close>

definition UDP_SESSION_CB :: zperf_callback where "UDP_SESSION_CB = 1"
definition TCP_SESSION_CB :: zperf_callback where "TCP_SESSION_CB = 2"
definition UDP_UPLOAD_CB :: zperf_callback where "UDP_UPLOAD_CB = 3"
definition TCP_UPLOAD_CB :: zperf_callback where "TCP_UPLOAD_CB = 4"
definition SHELL_HANDLE :: user_data where "SHELL_HANDLE = 0"

section \<open>Arguments\<close>

definition argv_at :: "string list \<Rightarrow> nat \<Rightarrow> string option faulty" where
  "argv_at argv i =
     (if i < length argv then Inr (Some (argv ! i)) else if i = length argv then Inr None else Inl Out_of_bounds)"

text \<open>An argument that is read as a string.\<close>

definition arg_str :: "string list \<Rightarrow> nat \<Rightarrow> string faulty" where
  "arg_str argv i = fbind (argv_at argv i) (\<lambda>a. case a of None \<Rightarrow> Inl Null_pointer | Some s \<Rightarrow> Inr s)"

section \<open>Addresses\<close>

text \<open>The status, what is printed, and the port and address fields of the structure.\<close>

definition parse_ipv6_addr ::
  "'w platform \<Rightarrow> string option \<Rightarrow> string \<Rightarrow> u16 \<times> in6_addr \<Rightarrow> shell_status \<times> string \<times> u16 \<times> in6_addr" where
  "parse_ipv6_addr P host port addr =
     (case host of
        None \<Rightarrow> (- kStatus_SHELL_Error, [], addr)
      | Some h \<Rightarrow>
          let (ret, a) = net_addr_pton6 P h (snd addr) in
          if ret < 0 then (- kStatus_SHELL_Error, ''Invalid IPv6 address '' @ h @ NL, fst addr, a)
          else let p = htons (ucast (fst (strtoul 10 port))) in
               if p = 0 then (- kStatus_SHELL_Error, ''Invalid port '' @ port @ NL, p, a)
               else (kStatus_SHELL_Success, [], p, a))"

definition parse_ipv4_addr ::
  "'w platform \<Rightarrow> string option \<Rightarrow> string \<Rightarrow> u16 \<times> in_addr \<Rightarrow> shell_status \<times> string \<times> u16 \<times> in_addr" where
  "parse_ipv4_addr P host port addr =
     (case host of
        None \<Rightarrow> (- kStatus_SHELL_Error, [], addr)
      | Some h \<Rightarrow>
          let (ret, a) = net_addr_pton4 P h (snd addr) in
          if ret < 0 then (- kStatus_SHELL_Error, ''Invalid IPv4 address '' @ h @ NL, fst addr, a)
          else let p = htons (ucast (fst (strtoul 10 port))) in
               if p = 0 then (- kStatus_SHELL_Error, ''Invalid port '' @ port @ NL, p, a)
               else (kStatus_SHELL_Success, [], p, a))"

definition net_sprint_ipv4_addr :: "'w platform \<Rightarrow> in_addr \<Rightarrow> string" where
  "net_sprint_ipv4_addr P a = ip4addr_ntoa P a"

definition net_sprint_ipv6_addr :: "'w platform \<Rightarrow> in6_addr \<Rightarrow> string" where
  "net_sprint_ipv6_addr P a = ip6addr_ntoa P a"

text \<open>
  \<open>zperf_bind_host\<close>: the result of \<open>net_ipaddr_parse\<close> is a truth value, so that \<open>ret < 0\<close> never holds
  and the address of the structure is used whether or not the text was one.
\<close>

definition zperf_bind_host :: "'w platform \<Rightarrow> string list \<Rightarrow> zperf_download_params \<Rightarrow>
   (int \<times> string \<times> zperf_download_params) faulty" where
  "zperf_bind_host P argv param =
     fbind (if 2 \<le> length argv then fbind (arg_str argv 1) (\<lambda>s. Inr (ucast (fst (strtoul 10 s))))
            else Inr (of_nat DEF_PORT)) (\<lambda>port.
     let param1 = param\<lparr>dp_port := port\<rparr> in
     if 3 \<le> length argv then
       fbind (arg_str argv 2) (\<lambda>addr_str.
       fbind (net_ipaddr_parse P (Some (cstr addr_str)) (length addr_str) (Sockaddr_other 0)) (\<lambda>(ok, addr).
       let ret = (if ok then 1 else 0 :: int) in
       if ret < 0 then Inr (ret, ''Cannot parse address '' @ [CHR 0x22] @ addr_str @ [CHR 0x22] @ NL, param1)
       else Inr (0, [], param1\<lparr>dp_addr := memcpy_sockaddr P (dp_addr param1) addr\<rparr>)))
     else Inr (0, [], param1))"

section \<open>The option loop\<close>

record upload_opts =
  uo_tos :: u8
  uo_tcp_nodelay :: int
  uo_async :: bool
  uo_cnt :: nat

lemma parse_arg_index: "parse_arg i argv = (r, i') \<Longrightarrow> i \<le> i'"
  by (auto simp: parse_arg_def Let_def split: if_splits prod.splits)

text \<open>
  The loop over the options, which both upload commands have; \<open>Inl\<close> is the message of an early return.
  \<open>CONFIG_NET_CONTEXT_PRIORITY\<close> is not defined, hence no option \<open>-p\<close>.
\<close>

function upload_options :: "bool \<Rightarrow> string list \<Rightarrow> nat \<Rightarrow> upload_opts \<Rightarrow> string + upload_opts" where
  "upload_options is_udp argv i opts =
     (if length argv \<le> i \<or> take 1 (argv ! i) \<noteq> ''-'' then Inr opts
      else let c = take 1 (drop 1 (argv ! i)) in
      if c = ''S'' then
        (case parse_arg i argv of (v, i') \<Rightarrow>
           if sint v < 0 \<or> 255 < sint v then Inl (''Parse error: '' @ argv ! i' @ NL)
           else upload_options is_udp argv (Suc i') (opts\<lparr>uo_tos := word_of_int (sint v), uo_cnt := uo_cnt opts + 2\<rparr>))
      else if c = ''a'' then upload_options is_udp argv (Suc i) (opts\<lparr>uo_async := True, uo_cnt := uo_cnt opts + 1\<rparr>)
      else if c = ''n'' then
        if is_udp then Inl (''UDP does not support -n option'' @ NL)
        else upload_options is_udp argv (Suc i) (opts\<lparr>uo_tcp_nodelay := 1, uo_cnt := uo_cnt opts + 1\<rparr>)
      else Inl (''Unrecognized argument: '' @ argv ! i @ NL))"
  by pat_completeness auto
termination
  by (relation "measure (\<lambda>(is_udp, argv, i, opts). length argv - i)")
    (auto dest!: parse_arg_index [OF sym])

declare upload_options.simps [simp del]

section \<open>Numbers\<close>

text \<open>
  Duration, packet size and rate, the arguments from \<open>k\<close> on; \<open>argc\<close> is the wrapped difference of the
  number of arguments and of counted options, \<open>start\<close> the latter.
\<close>

definition upload_numbers :: "string list \<Rightarrow> nat \<Rightarrow> u32 \<Rightarrow> nat \<Rightarrow> (u32 \<times> u16 \<times> u32) faulty" where
  "upload_numbers argv start argc k =
     fbind (if of_nat k < argc then fbind (arg_str argv (start + k)) (\<lambda>s. Inr (MSEC_PER_SEC * fst (strtoul 10 s)))
            else Inr (MSEC_PER_SEC * 1)) (\<lambda>duration_ms.
     fbind (if of_nat (k + 1) < argc then
              fbind (arg_str argv (start + (k + 1))) (\<lambda>s. fbind (parse_number s K_DIV K_UNIT) (\<lambda>n. Inr (ucast n)))
            else Inr 256) (\<lambda>size.
     fbind (if of_nat (k + 2) < argc then
              fbind (arg_str argv (start + (k + 2))) (\<lambda>s. fbind (parse_number s K_DIV K_UNIT) rate_kbps_of)
            else Inr 10) (\<lambda>rate_kbps.
     Inr (duration_ms, size, rate_kbps))))"

section \<open>Uploads\<close>

text \<open>What \<open>execute_upload\<close> prints before it starts, and the line on the duration of a packet.\<close>

definition upload_banner :: "zperf_upload_params \<Rightarrow> string faulty" where
  "upload_banner param =
     print_all [Inr (''Duration:'' @ TAB), print_time (up_duration_ms param * USEC_PER_MSEC), Inr NL,
       Inr (''Packet size:'' @ TAB @ fmt_u (ucast (up_packet_size param)) @ '' bytes'' @ NL),
       Inr (''Rate:'' @ TAB @ TAB @ fmt_u (up_rate_kbps param) @ '' kbps'' @ NL), Inr (''Starting...'' @ NL)]"

definition udp_upload_banner :: "zperf_upload_params \<Rightarrow> string faulty" where
  "udp_upload_banner param =
     fbind (zperf_packet_duration (ucast (up_packet_size param)) (up_rate_kbps param)) (\<lambda>packet_duration.
     print_all [Inr (''Rate:'' @ TAB @ TAB), print_rate (up_rate_kbps param), Inr NL,
       Inr (if 1000 < packet_duration then ''Packet duration '' @ fmt_u (packet_duration div 1000) @ '' ms'' @ NL
            else ''Packet duration '' @ fmt_u packet_duration @ '' us'' @ NL)])"

text \<open>An asynchronous upload: only the request.\<close>

definition execute_async ::
  "(work_item, 'q) rtos_queue \<Rightarrow> work_item \<Rightarrow> zperf_upload_params \<Rightarrow> zperf_callback \<Rightarrow> string \<Rightarrow> ('w, 'q) shell_state \<Rightarrow>
   (shell_status \<times> ('w, 'q) shell_state) faulty option" where
  "execute_async Q p param cb name st =
     (case upload_async Q p (Some param) (Some cb) SHELL_HANDLE st of
        Inl f \<Rightarrow> Some (Inl f)
      | Inr (None, st1) \<Rightarrow> None
      | Inr (Some ret, st1) \<Rightarrow>
          Some (Inr (if ret < 0
            then (word_of_int ret, emit (''Failed to start '' @ name @ '' async upload ('' @ fmt_d ret @ '')'' @ NL) st1)
            else (kStatus_SHELL_Success, st1))))"

text \<open>A synchronous one: the result of the upload, and its statistics.\<close>

definition execute_sync ::
  "(int \<times> zperf_results option \<times> ('w, 'q) shell_state) faulty option \<Rightarrow> (zperf_results \<Rightarrow> string faulty) \<Rightarrow> string \<Rightarrow>
   (shell_status \<times> ('w, 'q) shell_state) faulty option" where
  "execute_sync upload stats name =
     (case upload of
        None \<Rightarrow> None
      | Some (Inl f) \<Rightarrow> Some (Inl f)
      | Some (Inr (ret, results, st1)) \<Rightarrow>
          if ret < 0 then Some (Inr (word_of_int ret, emit (name @ '' upload failed ('' @ fmt_d ret @ '')'' @ NL) st1))
          else (case results of
                  None \<Rightarrow> Some (Inl Null_pointer)
                | Some r \<Rightarrow> Some (fbind (stats r) (\<lambda>t. Inr (kStatus_SHELL_Success, emit t st1)))))"

definition execute_upload ::
  "'w platform \<Rightarrow> (work_item, 'q) rtos_queue \<Rightarrow> zperf_upload_params \<Rightarrow> bool \<Rightarrow> bool \<Rightarrow> ('w, 'q) shell_state \<Rightarrow>
   (shell_status \<times> ('w, 'q) shell_state) faulty option" where
  "execute_upload P Q param is_udp async st =
     (case upload_banner param of
        Inl f \<Rightarrow> Some (Inl f)
      | Inr t \<Rightarrow>
          let st1 = emit t st in
          if is_udp \<and> CONFIG_NET_UDP then
            (case udp_upload_banner param of
               Inl f \<Rightarrow> Some (Inl f)
             | Inr t' \<Rightarrow>
                 let st2 = emit t' st1 in
                 if async then execute_async Q Udp_upload_work param UDP_UPLOAD_CB ''UDP'' st2
                 else execute_sync (zperf_udp_upload P (Some param) (Some results_zero) st2)
                        shell_udp_upload_print_stats ''UDP'')
          else
            let st2 = (if \<not> CONFIG_NET_UDP then emit (''UDP not supported'' @ NL) st1 else st1) in
            if \<not> is_udp \<and> CONFIG_NET_TCP then
              if async then execute_async Q Tcp_upload_work param TCP_UPLOAD_CB ''TCP'' st2
              else execute_sync (zperf_tcp_upload P (Some param) (Some results_zero) st2)
                     shell_tcp_upload_print_stats ''TCP''
            else Some (Inr (kStatus_SHELL_Success,
              if \<not> CONFIG_NET_TCP then emit (''TCP not supported'' @ NL) st2 else st2)))"

text \<open>
  Lines 859 to 904: the peer address from the host and port arguments. \<open>Inl\<close> is what is printed before
  the return of an error. The statuses of \<open>parse_ipv4_addr\<close> and, with IPv6 alone, of \<open>parse_ipv6_addr\<close>
  are compared with \<open>< 0\<close>, as unsigned words.
\<close>

definition upload_peer ::
  "'w platform \<Rightarrow> string option \<Rightarrow> string \<Rightarrow> string + (string \<times> sockaddr)" where
  "upload_peer P host port =
     (let msg = ''Please specify the IP address of the remote server.'' @ NL;
          (s6, t6, p6, a6) = parse_ipv6_addr P host port (0, IPV6_ANY_ADDR);
          (s4, t4, p4, a4) = parse_ipv4_addr P host port (0, 0);
          peer6 = copy_sockaddr_in6_to_sockaddr_storage (Sockaddr_in6 p6 a6);
          peer4 = copy_sockaddr_in_to_sockaddr_storage (Sockaddr_in p4 a4)
      in if CONFIG_NET_IPV6 \<and> \<not> CONFIG_NET_IPV4 then
           if s6 < 0 then Inl (t6 @ msg)
           else Inr (t6 @ ''Connecting to '' @ net_sprint_ipv6_addr P a6 @ NL, peer6)
         else if CONFIG_NET_IPV4 \<and> \<not> CONFIG_NET_IPV6 then
           if s4 < 0 then Inl (t4 @ msg)
           else Inr (t4 @ ''Connecting to '' @ net_sprint_ipv4_addr P a4 @ NL, peer4)
         else if CONFIG_NET_IPV6 \<and> CONFIG_NET_IPV4 then
           if s6 \<noteq> kStatus_SHELL_Success then
             if s4 < 0 then Inl (t6 @ t4 @ msg)
             else Inr (t6 @ t4 @ ''Connecting to ipv4 '' @ net_sprint_ipv4_addr P a4 @ NL, peer4)
           else Inr (t6 @ ''Connecting to ipv6 '' @ net_sprint_ipv6_addr P a6 @ NL, peer6)
         else Inr ([], Sockaddr_other 0))"

definition upload_param :: "upload_opts \<Rightarrow> int \<Rightarrow> sockaddr \<Rightarrow> u32 \<times> u16 \<times> u32 \<Rightarrow> zperf_upload_params" where
  "upload_param opts priority peer = (\<lambda>(duration_ms, size, rate_kbps).
     \<lparr>up_peer_addr = peer, up_duration_ms = duration_ms, up_rate_kbps = rate_kbps, up_packet_size = size,
      up_tos = uo_tos opts, up_tcp_nodelay = uo_tcp_nodelay opts, up_priority = priority\<rparr>)"

definition no_opts :: upload_opts where
  "no_opts = \<lparr>uo_tos = 0, uo_tcp_nodelay = 0, uo_async = False, uo_cnt = 0\<rparr>"

text \<open>
  \<open>upload_prepare\<close> is \<open>shell_cmd_upload\<close> up to the call of \<open>execute_upload\<close>: either the text printed
  before the return of an error, or the printed text, the parameters and the flag \<open>async\<close>.
\<close>

definition upload_prepare ::
  "'w platform \<Rightarrow> bool \<Rightarrow> string list \<Rightarrow> (string + (string \<times> zperf_upload_params \<times> bool)) faulty" where
  "upload_prepare P is_udp argv =
     (case upload_options is_udp argv 1 no_opts of
        Inl msg \<Rightarrow> Inr (Inl msg)
      | Inr opts \<Rightarrow>
          let start = uo_cnt opts; argc = of_nat (length argv) - of_nat start :: u32 in
          if argc < 2 then Inr (Inl (''Not enough parameters.'' @ NL @ ''help''))
          else
            fbind (if 2 < argc then fbind (arg_str argv (start + 2)) (\<lambda>s. Inr (s, ''Remote port is '' @ s @ NL))
                   else Inr (DEF_PORT_STR, [])) (\<lambda>(port_str, t).
            fbind (argv_at argv (start + 1)) (\<lambda>host.
            case upload_peer P host port_str of
              Inl msg \<Rightarrow> Inr (Inl (t @ msg))
            | Inr (t', peer) \<Rightarrow>
                fbind (upload_numbers argv start argc 3) (\<lambda>nums.
                Inr (Inr (t @ t', upload_param opts (- 1) peer nums, uo_async opts))))))"

definition shell_cmd_upload ::
  "'w platform \<Rightarrow> (work_item, 'q) rtos_queue \<Rightarrow> bool \<Rightarrow> string list \<Rightarrow> ('w, 'q) shell_state \<Rightarrow>
   (shell_status \<times> ('w, 'q) shell_state) faulty option" where
  "shell_cmd_upload P Q is_udp argv st =
     (case upload_prepare P is_udp argv of
        Inl f \<Rightarrow> Some (Inl f)
      | Inr (Inl msg) \<Rightarrow> Some (Inr (- kStatus_SHELL_Error, emit msg st))
      | Inr (Inr (t, param, async)) \<Rightarrow> execute_upload P Q param is_udp async (emit t st))"

definition cmd_tcp_upload where "cmd_tcp_upload P Q = shell_cmd_upload P Q False"
definition cmd_udp_upload where "cmd_udp_upload P Q = shell_cmd_upload P Q True"

text \<open>\<open>shell_cmd_upload2\<close> takes the configured peer of the family it is given; its \<open>priority\<close> stays 0.\<close>

definition upload2_prepare ::
  "'w platform \<Rightarrow> bool \<Rightarrow> string list \<Rightarrow> ('w, 'q) shell_state \<Rightarrow>
   (string + (string \<times> zperf_upload_params \<times> bool)) faulty" where
  "upload2_prepare P is_udp argv st =
     (case upload_options is_udp argv 1 no_opts of
        Inl msg \<Rightarrow> Inr (Inl msg)
      | Inr opts \<Rightarrow>
          let start = uo_cnt opts; argc = of_nat (length argv) - of_nat start :: u32 in
          if argc < 2 then Inr (Inl (''Not enough parameters.'' @ NL @ ''help''))
          else
            fbind (arg_str argv (start + 1)) (\<lambda>fam.
            let peer =
              (if fam \<noteq> ''v4'' then
                 if net_ipv6_is_addr_unspecified (in6_addr_dst st) then Inl (''Invalid destination IPv6 address.'' @ NL)
                 else Inr (''Connecting to '' @ net_sprint_ipv6_addr P (in6_addr_dst st) @ NL,
                   copy_sockaddr_in6_to_sockaddr_storage (Sockaddr_in6 (htons (of_nat DEF_PORT)) (in6_addr_dst st)))
               else
                 if net_ipv4_is_addr_unspecified (in4_addr_dst st) then Inl (''Invalid destination IPv4 address.'' @ NL)
                 else Inr (''Connecting to '' @ net_sprint_ipv4_addr P (in4_addr_dst st) @ NL,
                   copy_sockaddr_in_to_sockaddr_storage (Sockaddr_in (htons (of_nat DEF_PORT)) (in4_addr_dst st))))
            in case peer of
                 Inl msg \<Rightarrow> Inr (Inl msg)
               | Inr (t, addr) \<Rightarrow>
                   fbind (upload_numbers argv start argc 2) (\<lambda>nums.
                   Inr (Inr (t @ ''packet size '' @ fmt_u (ucast (fst (snd nums))) @ NL,
                     upload_param opts 0 addr nums, uo_async opts)))))"

definition shell_cmd_upload2 ::
  "'w platform \<Rightarrow> (work_item, 'q) rtos_queue \<Rightarrow> bool \<Rightarrow> string list \<Rightarrow> ('w, 'q) shell_state \<Rightarrow>
   (shell_status \<times> ('w, 'q) shell_state) faulty option" where
  "shell_cmd_upload2 P Q is_udp argv st =
     (case upload2_prepare P is_udp argv st of
        Inl f \<Rightarrow> Some (Inl f)
      | Inr (Inl msg) \<Rightarrow> Some (Inr (- kStatus_SHELL_Error, emit msg st))
      | Inr (Inr (t, param, async)) \<Rightarrow> execute_upload P Q param is_udp async (emit t st))"

definition cmd_tcp_upload2 where "cmd_tcp_upload2 P Q = shell_cmd_upload2 P Q False"
definition cmd_udp_upload2 where "cmd_udp_upload2 P Q = shell_cmd_upload2 P Q True"

section \<open>The other commands\<close>

definition setip_ipv6 ::
  "'w platform \<Rightarrow> string list \<Rightarrow> string \<Rightarrow> shell_status \<Rightarrow> ('w, 'q) shell_state \<Rightarrow>
   (shell_status \<times> ('w, 'q) shell_state) faulty" where
  "setip_ipv6 P argv failure fail_status st =
     (if length argv \<noteq> 3 then Inr (- kStatus_SHELL_Error, emit ''help'' st)
      else fbind (argv_at argv 1) (\<lambda>host. fbind (arg_str argv 2) (\<lambda>prefix.
        let (ret, a, st1) = zperf_get_ipv6_addr P host prefix (shell_ipv6 st) st;
            st2 = st1\<lparr>shell_ipv6 := a\<rparr>
        in Inr (if ret < 0 then (fail_status, emit failure st2)
                else (kStatus_SHELL_Success, emit (''Setting IP address '' @ net_sprint_ipv6_addr P a @ NL) st2)))))"

definition setip_ipv4 ::
  "'w platform \<Rightarrow> string list \<Rightarrow> string \<Rightarrow> ('w, 'q) shell_state \<Rightarrow> (shell_status \<times> ('w, 'q) shell_state) faulty" where
  "setip_ipv4 P argv failure st =
     (if length argv \<noteq> 2 then Inr (- kStatus_SHELL_Error, emit ''help'' st)
      else fbind (argv_at argv 1) (\<lambda>host.
        let (ret, a, st1) = zperf_get_ipv4_addr P host (shell_ipv4 st) st;
            st2 = st1\<lparr>shell_ipv4 := a\<rparr>
        in Inr (if ret < 0 then (- kStatus_SHELL_Error, emit failure st2)
                else (kStatus_SHELL_Success, emit (''Setting IP address '' @ net_sprint_ipv4_addr P a @ NL) st2))))"

definition cmd_setip ::
  "'w platform \<Rightarrow> string list \<Rightarrow> ('w, 'q) shell_state \<Rightarrow> (shell_status \<times> ('w, 'q) shell_state) faulty" where
  "cmd_setip P argv st =
     (if CONFIG_NET_IPV6 \<and> \<not> CONFIG_NET_IPV4 then
        setip_ipv6 P argv (''Unable to set IPv6 address (IPv4 disabled)'' @ NL) kStatus_SHELL_Success st
      else if CONFIG_NET_IPV4 \<and> \<not> CONFIG_NET_IPV6 then
        setip_ipv4 P argv (''Unable to set IPv4 address (IPv6 disabled)'' @ NL) st
      else if CONFIG_NET_IPV6 \<and> CONFIG_NET_IPV4 then
        fbind (arg_str argv 1) (\<lambda>host.
          let (ret, a) = net_addr_pton6 P host (shell_ipv6 st); st1 = st\<lparr>shell_ipv6 := a\<rparr>
          in if ret < 0 then setip_ipv4 P argv (''Unable to set IPv4 address'' @ NL) st1
             else setip_ipv6 P argv (''Unable to set IPv6 address'' @ NL) (- kStatus_SHELL_Error) st1)
      else Inr (kStatus_SHELL_Success, st))"

definition cmd_tcp :: "('w, 'q) shell_state \<Rightarrow> shell_status \<times> ('w, 'q) shell_state" where
  "cmd_tcp st = (- kStatus_SHELL_Error,
     emit (if CONFIG_NET_TCP then ''help''
           else ''TCP support is not enabled. Set CONFIG_NET_TCP=y in your config file.'' @ NL) st)"

definition cmd_udp :: "('w, 'q) shell_state \<Rightarrow> shell_status \<times> ('w, 'q) shell_state" where
  "cmd_udp st = (- kStatus_SHELL_Error,
     emit (if CONFIG_NET_UDP then ''help''
           else ''UDP support is not enabled. Set CONFIG_NET_UDP=y in your config file.'' @ NL) st)"

definition cmd_connectap :: "('w, 'q) shell_state \<Rightarrow> shell_status \<times> ('w, 'q) shell_state" where
  "cmd_connectap st = (kStatus_SHELL_Success, emit (''Zephyr has not been built with Wi-Fi support.'' @ NL) st)"

definition ZPERF_VERSION :: string where "ZPERF_VERSION = ''1.1''"

text \<open>\<open>CONFIG_WIFI\<close> is not defined; the other three parts of the text are.\<close>

definition CONFIG_TEXT :: string where "CONFIG_TEXT = ''unified ethernet ipv4 ipv6''"

definition cmd_version :: "('w, 'q) shell_state \<Rightarrow> shell_status \<times> ('w, 'q) shell_state" where
  "cmd_version st = (kStatus_SHELL_Success, emit (''Version: '' @ ZPERF_VERSION @ NL @ ''Config: '' @ CONFIG_TEXT @ NL) st)"

definition download_params_zero :: zperf_download_params where
  "download_params_zero = \<lparr>dp_port = 0, dp_addr = Sockaddr_other 0\<rparr>"

text \<open>
  What both download commands do with the code of the download function; \<open>ret\<close> is the \<open>int\<close> the status
  of \<open>zperf_bind_host\<close> is converted to.
\<close>

definition download_answer ::
  "string \<Rightarrow> int \<Rightarrow> u16 \<Rightarrow> ('w, 'q) shell_state \<Rightarrow> shell_status \<times> ('w, 'q) shell_state" where
  "download_answer name ret port st =
     (if ret = - EALREADY then (- kStatus_SHELL_Error, emit (name @ '' server already started!'' @ NL) st)
      else if ret < 0 then (- kStatus_SHELL_Error, emit (''Failed to start '' @ name @ '' server!'' @ NL) st)
      else (kStatus_SHELL_Success, emit (name @ '' server started on port '' @ fmt_u (ucast port) @ NL) st))"

definition cmd_udp_download ::
  "'w platform \<Rightarrow> 's rtos \<Rightarrow> string list \<Rightarrow> ('w, 'q) shell_state \<times> ('w, 's) udp_server \<Rightarrow>
   (shell_status \<times> ('w, 'q) shell_state \<times> ('w, 's) udp_server) faulty" where
  "cmd_udp_download P R argv = (\<lambda>(st, srv).
     if CONFIG_NET_UDP then
       fbind (zperf_bind_host P argv download_params_zero) (\<lambda>(ret, t, param).
         let st1 = emit t st in
         if ret < 0 then Inr (- kStatus_SHELL_Error, emit (''Unable to bind host.'' @ NL @ ''help'') st1, srv)
         else fbind (zperf_udp_download P R (Some param) (Some UDP_SESSION_CB) SHELL_HANDLE srv) (\<lambda>(ret, srv').
           let st2 = (if 0 \<le> ret then k_yield P st1 else st1);
               (status, st3) = download_answer ''UDP'' ret (dp_port param) st2
           in Inr (status, st3, srv')))
     else Inr (- kStatus_SHELL_Error, st, srv))"

definition cmd_udp_download_stop ::
  "('w, 'q) shell_state \<times> ('w, 's) udp_server \<Rightarrow> shell_status \<times> ('w, 'q) shell_state \<times> ('w, 's) udp_server" where
  "cmd_udp_download_stop = (\<lambda>(st, srv).
     let (ret, srv') = zperf_udp_download_stop srv in
     if ret < 0 then (- kStatus_SHELL_Error, emit (''UDP server not running!'' @ NL) st, srv')
     else (kStatus_SHELL_Success, emit (''UDP server stopped'' @ NL) st, srv'))"

definition cmd_tcp_download ::
  "'w platform \<Rightarrow> 's rtos \<Rightarrow> string list \<Rightarrow> ('w, 'q) shell_state \<times> ('w, 's) tcp_server \<Rightarrow>
   (shell_status \<times> ('w, 'q) shell_state \<times> ('w, 's) tcp_server) faulty" where
  "cmd_tcp_download P R argv = (\<lambda>(st, srv).
     if CONFIG_NET_TCP then
       fbind (zperf_bind_host P argv download_params_zero) (\<lambda>(ret, t, param).
         let st1 = emit t st in
         if ret < 0 then Inr (- kStatus_SHELL_Error, emit (''Unable to bind host.'' @ NL @ ''help'') st1, srv)
         else fbind (zperf_tcp_download P R (Some param) (Some TCP_SESSION_CB) SHELL_HANDLE srv) (\<lambda>(ret, srv').
           let (status, st3) = download_answer ''TCP'' ret (dp_port param) st1
           in Inr (status, st3, srv')))
     else Inr (- kStatus_SHELL_Error, st, srv))"

text \<open>Here the error code itself is negated and returned.\<close>

definition cmd_tcp_download_stop ::
  "('w, 'q) shell_state \<times> ('w, 's) tcp_server \<Rightarrow> shell_status \<times> ('w, 'q) shell_state \<times> ('w, 's) tcp_server" where
  "cmd_tcp_download_stop = (\<lambda>(st, srv).
     let (ret, srv') = zperf_tcp_download_stop srv in
     if ret < 0 then (word_of_int (- ret), emit (''TCP server not running!'' @ NL) st, srv')
     else (kStatus_SHELL_Success, emit (''TCP server stopped'' @ NL) st, srv'))"

section \<open>Start and dispatch\<close>

definition zperf_shell_init :: "'w platform \<Rightarrow> ('w, 'q) shell_state \<Rightarrow> ('w, 'q) shell_state" where
  "zperf_shell_init P st =
     st\<lparr>in6_addr_my := snd (net_addr_pton6 P MY_IP6ADDR (in6_addr_my st)),
       in6_addr_dst := snd (net_addr_pton6 P DST_IP6ADDR (in6_addr_dst st)),
       in4_addr_my := snd (net_addr_pton4 P MY_IP4ADDR (in4_addr_my st)),
       in4_addr_dst := snd (net_addr_pton4 P DST_IP4ADDR (in4_addr_dst st))\<rparr>"

abbreviation SPACES :: string where "SPACES \<equiv> replicate 34 CHR '' ''"

definition helpmessage :: string where
  "helpmessage = ''Usage:'' @ NL @ '' '' @
     SPACES @ ''udp_upload <address> <port> <duration> <packet size> <baud rate> - udp upload'' @ NL @ '' '' @
     SPACES @ ''tcp_upload <address> <port> <duration> <packet size> <baud rate> - tcp upload'' @ NL @ '' '' @
     SPACES @ ''udp_download <port> <address> '' @ NL @ '' '' @
     SPACES @ ''tcp_download <port> <address> '' @ NL"

record ('w, 'q, 's) system =
  sys_shell :: "('w, 'q) shell_state"
  sys_udp :: "('w, 's) udp_server"
  sys_tcp :: "('w, 's) tcp_server"

text \<open>\<open>shell_task\<close> up to its final idle loop; \<open>args\<close> is the command line with the program's name.\<close>

definition shell_task ::
  "'w platform \<Rightarrow> (work_item, 'q) rtos_queue \<Rightarrow> 's rtos \<Rightarrow> string list \<Rightarrow> ('w, 'q, 's) system \<Rightarrow>
   ('w, 'q, 's) system faulty option" where
  "shell_task P Q R args sys =
     (let print = (\<lambda>t. sys\<lparr>sys_shell := emit t (sys_shell sys)\<rparr>);
          upload = (\<lambda>is_udp argv.
            map_option (\<lambda>r. fbind r (\<lambda>(status, st). Inr (sys\<lparr>sys_shell := st\<rparr>)))
              (shell_cmd_upload P Q is_udp argv (sys_shell sys)))
      in if length args = 1 then Some (Inr (print helpmessage))
         else (case args of
                 cmd0 # cmd # rest \<Rightarrow>
                   let argv = cmd # rest in
                   if cmd = ''udp_upload'' then upload True argv
                   else if cmd = ''tcp_upload'' then upload False argv
                   else if cmd = ''udp_download'' then
                     Some (fbind (cmd_udp_download P R argv (sys_shell sys, sys_udp sys)) (\<lambda>(status, st, srv).
                       Inr (sys\<lparr>sys_shell := st, sys_udp := srv\<rparr>)))
                   else if cmd = ''tcp_download'' then
                     Some (fbind (cmd_tcp_download P R argv (sys_shell sys, sys_tcp sys)) (\<lambda>(status, st, srv).
                       Inr (sys\<lparr>sys_shell := st, sys_tcp := srv\<rparr>)))
                   else Some (Inr (print (''Unknown command'' @ NL @ helpmessage)))
               | _ \<Rightarrow> Some (Inl Out_of_bounds)))"

end
