(* ===== verification/Zperf_Shell_Properties.thy ===== *)
theory Zperf_Shell_Properties
  imports Zperf_Shell
begin

text \<open>
  What the shell does with its arguments: the parameters it builds, what it prints of a number, and
  the arguments it handles wrongly.
\<close>

section \<open>Helper lemmas\<close>

lemma kStatus_error [simp]: "kStatus_SHELL_Error \<noteq> 0" "kStatus_SHELL_Success = 0"
  by (simp_all add: kStatus_SHELL_Error_def kStatus_SHELL_Success_def)

lemma status_not_negative [simp]: "\<not> (s :: shell_status) < 0"
  by simp

lemma config_both [simp]: "CONFIG_NET_IPV4" "CONFIG_NET_IPV6" "CONFIG_NET_UDP" "CONFIG_NET_TCP"
  by (simp_all add: config_defs)

text \<open>With both families enabled the address of an upload is always one of the two.\<close>

lemma upload_peer_family:
  "\<exists>t p a. upload_peer P host port = Inr (t, Sockaddr_in p a) \<or> (\<exists>a6. upload_peer P host port = Inr (t, Sockaddr_in6 p a6))"
  by (auto simp: upload_peer_def Let_def copy_sockaddr_in_to_sockaddr_storage_def
      copy_sockaddr_in6_to_sockaddr_storage_def split: prod.split)

lemma upload_prepareE:
  assumes "upload_prepare P is_udp argv = Inr (Inr (t, prm, async))"
  obtains opts host port_str t' peer nums where "upload_options is_udp argv 1 no_opts = Inr opts"
    "upload_peer P host port_str = Inr (t', peer)" "prm = upload_param opts (- 1) peer nums"
proof -
  from assms obtain opts where opts: "upload_options is_udp argv 1 no_opts = Inr opts"
    by (auto simp: upload_prepare_def split: sum.split_asm)
  from assms obtain host port_str t0 where peer: "(case upload_peer P host port_str of
        Inl msg \<Rightarrow> Inr (Inl (t0 @ msg))
      | Inr (t', peer) \<Rightarrow>
          fbind (upload_numbers argv (uo_cnt opts) (of_nat (length argv) - of_nat (uo_cnt opts)) 3) (\<lambda>nums.
          Inr (Inr (t0 @ t', upload_param opts (- 1) peer nums, uo_async opts)))) = Inr (Inr (t, prm, async))"
    by (auto simp: upload_prepare_def opts [unfolded One_nat_def] Let_def fbind_Inr_iff split: if_split_asm)
  then obtain t' addr nums where "upload_peer P host port_str = Inr (t', addr)" "prm = upload_param opts (- 1) addr nums"
    by (cases "upload_peer P host port_str") (auto simp: fbind_Inr_iff)
  with opts show thesis by (rule that)
qed

lemma no_opts_fields [simp]: "uo_tos no_opts = 0" "uo_tcp_nodelay no_opts = 0" "\<not> uo_async no_opts" "uo_cnt no_opts = 0"
  by (simp_all add: no_opts_def)

lemma upload_options_wf:
  assumes "upload_options is_udp argv i opts = Inr opts'" and "uo_tcp_nodelay opts \<in> {0, 1}"
    and "is_udp \<Longrightarrow> uo_tcp_nodelay opts = 0"
  shows "uo_tcp_nodelay opts' \<in> {0, 1} \<and> (is_udp \<longrightarrow> uo_tcp_nodelay opts' = 0)"
  using assms
proof (induction is_udp argv i opts rule: upload_options.induct)
  case (1 is_udp argv i opts)
  show ?case
  proof (cases "length argv \<le> i \<or> take 1 (argv ! i) \<noteq> ''-''")
    case True
    with 1(4-6) show ?thesis by (auto simp: upload_options.simps [of is_udp argv i opts])
  next
    case False
    define c where "c = take 1 (drop 1 (argv ! i))"
    note step = 1(4) [unfolded upload_options.simps [of is_udp argv i opts], folded c_def] False
    show ?thesis
    proof (cases "c = ''S''")
      case True
      obtain v i' where v: "parse_arg i argv = (v, i')" by fastforce
      with step True have "upload_options is_udp argv (Suc i') (opts\<lparr>uo_tos := word_of_int (sint v), uo_cnt := uo_cnt opts + 2\<rparr>) = Inr opts'"
        "\<not> (sint v < 0 \<or> 255 < sint v)"
        by (auto simp: c_def split: if_splits)
      with 1(1) [OF False refl True [unfolded c_def] v [symmetric] this(2)] 1(5,6) show ?thesis by auto
    next
      case S: False
      show ?thesis
      proof (cases "c = ''a''")
        case True
        with step S 1(2) [OF False refl S [unfolded c_def] True [unfolded c_def]] 1(5,6) show ?thesis by (auto simp: c_def)
      next
        case a: False
        show ?thesis
          using step S a 1(3) [OF False refl S [unfolded c_def] a [unfolded c_def]] 1(5,6)
          by (auto simp: c_def split: if_splits)
      qed
    qed
  qed
qed

section \<open>Numbers\<close>

lemma unit_divisor_K:
  "unit_divisor [] K_DIV K_UNIT = Inr 0" "unit_divisor ''K'' K_DIV K_UNIT = Inr 1024"
  "unit_divisor ''M'' K_DIV K_UNIT = Inr 1048576"
  by code_simp+

text \<open>The units a number can carry, with their factors.\<close>

definition unit_factors :: "(string \<times> nat) set" where
  "unit_factors = {([], 1), (''K'', 1024), (''M'', 1024 * 1024)}"

lemma parse_number_unit:
  assumes "(u, k) \<in> unit_factors" and "n < 2 ^ 32"
  shows "parse_number (show_nat n @ u) K_DIV K_UNIT = Inr (of_nat (n * k))"
proof -
  have dig: "\<not> is_digit 10 CHR ''K''" "\<not> is_digit 10 CHR ''M''" by code_simp+
  from assms(1) consider "u = []" "k = 1" | "u = ''K''" "k = 1024" | "u = ''M''" "k = 1048576"
    by (auto simp: unit_factors_def)
  then show ?thesis
    by cases (use strtoul_show_nat [OF assms(2), of u] dig in \<open>auto simp: parse_number_def unit_divisor_K\<close>)
qed

lemma sint_of_nat_small: "n < 2 ^ 31 \<Longrightarrow> sint (of_nat n :: u32) = int n"
  by (subst sint_eq_unat32) (simp_all add: sint_nonneg_iff unsigned_of_nat take_bit_nat_eq_self)

lemma ucast_of_nat_u16: "n < 65536 \<Longrightarrow> ucast (of_nat n :: u32) = (of_nat n :: u16)"
  by (simp add: word_unat_eq_iff unsigned_ucast_eq unsigned_of_nat take_bit_eq_mod)

lemma rate_kbps_of_small:
  assumes "n + 1023 < 2 ^ 31"
  shows "rate_kbps_of (of_nat n) = Inr (of_nat ((n + 1023) div 1024))"
proof -
  have "sint (of_nat n :: u32) = int n" using assms by (intro sint_of_nat_small) simp
  moreover have "(int n + 1023) div 1024 = int ((n + 1023) div 1024)" by (simp add: zdiv_int)
  ultimately show ?thesis using assms by (simp add: rate_kbps_of_def Let_def del: of_nat_div)
qed

text \<open>The reference for a printed time, in unbounded arithmetic.\<close>

definition two_digits :: "nat \<Rightarrow> string" where
  "two_digits n = (if n < 10 then ''0'' else []) @ show_nat n"

definition hundredths :: "nat \<Rightarrow> nat \<Rightarrow> string" where
  "hundredths n d = show_nat (n div d) @ ''.'' @ two_digits (n mod d * 100 div d)"

definition time_text :: "nat \<Rightarrow> string" where
  "time_text n =
     (if 60000000 \<le> n then hundredths n 60000000 @ '' m''
      else if 1000000 \<le> n then hundredths n 1000000 @ '' s''
      else if 1000 \<le> n then hundredths n 1000 @ '' ms''
      else show_nat n @ '' us'')"

lemma print_number_take:
  assumes "d \<le> v" and "0 < unat d" and "unat v mod unat d * 100 < 2 ^ 32"
  shows "print_number v (d # ds) (u # us) = Inr (hundredths (unat v) (unat d) @ '' '' @ u)"
proof -
  have "unat ((v mod d) * 100) = unat v mod unat d * 100"
    using assms(3) by (simp add: unat_word_ariths unat_mod)
  then have "unat ((v mod d) * 100 div d) = unat v mod unat d * 100 div unat d" by (simp add: unat_div)
  moreover have "((v mod d) * 100 div d < 10) = (unat ((v mod d) * 100 div d) < 10)" by (simp add: word_less_nat_alt)
  moreover have "d \<noteq> 0" "\<not> v < d" using assms(1,2) by auto
  ultimately show ?thesis
    by (simp add: hundredths_def two_digits_def fmt_u_def unat_div Let_def)
qed

section \<open>Concrete platforms\<close>

text \<open>Stacks that know one IPv4 address, and no address at all.\<close>

definition demo_v4 :: "demo_world platform" where
  "demo_v4 = demo_platform\<lparr>inet_pton6 := \<lambda>s a. (0, a), inet_pton4 := \<lambda>s a. (1, 0x0100A8C0)\<rparr>"

definition demo_no_addr :: "demo_world platform" where
  "demo_no_addr = demo_platform\<lparr>inet_pton6 := \<lambda>s a. (0, a), inet_pton4 := \<lambda>s a. (0, a)\<rparr>"

section \<open>Properties\<close>



text \<open>
  C30. The parameters an upload command builds are well formed: the peer is an IPv4 or an IPv6 address,
  \<open>TCP_NODELAY\<close> is 0 or 1 and never asked for with UDP, and no priority is set.
\<close>

theorem upload_params_wf:
  assumes "upload_prepare P is_udp argv = Inr (Inr (t, prm, async))"
  shows "(\<forall>f. up_peer_addr prm \<noteq> Sockaddr_other f) \<and> up_tcp_nodelay prm \<in> {0, 1} \<and>
    (is_udp \<longrightarrow> up_tcp_nodelay prm = 0) \<and> up_priority prm = - 1"
proof -
  from assms obtain opts host port_str t' peer nums where opts: "upload_options is_udp argv 1 no_opts = Inr opts"
    and peer: "upload_peer P host port_str = Inr (t', peer)" and prm: "prm = upload_param opts (- 1) peer nums"
    by (rule upload_prepareE)
  have "uo_tcp_nodelay opts \<in> {0, 1} \<and> (is_udp \<longrightarrow> uo_tcp_nodelay opts = 0)"
    using upload_options_wf [OF opts] by (simp add: no_opts_def)
  moreover have "up_tcp_nodelay prm = uo_tcp_nodelay opts" "up_priority prm = - 1" "up_peer_addr prm = peer"
    by (simp_all add: prm upload_param_def split: prod.split)
  moreover have "\<forall>f. peer \<noteq> Sockaddr_other f"
    using upload_peer_family [of P host port_str] peer by auto
  ultimately show ?thesis by simp
qed

theorem upload_params_wf_witness:
  "\<exists>t prm. upload_prepare demo_v4 True [''udp_upload'', ''192.168.0.1''] = Inr (Inr (t, prm, False)) \<and>
     up_tcp_nodelay prm = 0 \<and> up_priority prm = - 1"
proof -
  obtain t prm where run: "upload_prepare demo_v4 True [''udp_upload'', ''192.168.0.1''] = Inr (Inr (t, prm, False))"
  proof -
    have "upload_options True [''udp_upload'', ''192.168.0.1''] 1 no_opts = Inr no_opts"
      by (simp add: upload_options.simps)
    moreover have "\<exists>t p a. upload_peer demo_v4 (Some ''192.168.0.1'') DEF_PORT_STR = Inr (t, Sockaddr_in p a)"
      by (simp add: upload_peer_def parse_ipv6_addr_def net_addr_pton6_def demo_v4_def Let_def
          copy_sockaddr_in_to_sockaddr_storage_def split: prod.split)
    ultimately show thesis
      using that by (auto simp: upload_prepare_def argv_at_def upload_numbers_def upload_param_def Let_def)
  qed
  from upload_params_wf [OF run] run show ?thesis by blast
qed

text \<open>
  C39. A host that is no address is not refused: the failure of \<open>parse_ipv4_addr\<close> is tested as an
  unsigned number below zero, and the upload goes to address and port 0.
\<close>

theorem upload_bad_host_accepted:
  assumes "inet_pton6 P h IPV6_ANY_ADDR = (0, a6)" and "inet_pton4 P h 0 = (0, 0)"
  shows "\<exists>t. upload_peer P (Some h) port = Inr (t, Sockaddr_in 0 0)"
  using assms
  by (simp add: upload_peer_def parse_ipv6_addr_def parse_ipv4_addr_def net_addr_pton6_def net_addr_pton4_def
      copy_sockaddr_in_to_sockaddr_storage_def Let_def)

theorem upload_bad_host_accepted_witness:
  "\<exists>t. upload_peer demo_no_addr (Some ''nonsense'') ''5001'' = Inr (t, Sockaddr_in 0 0)"
  using upload_bad_host_accepted [of demo_no_addr "''nonsense''" IPV6_ANY_ADDR "''5001''"]
  by (simp add: demo_no_addr_def)

text \<open>
  C40. An option with its number attached, as in \<open>-S16\<close>, is counted as two arguments. When the options
  count for more arguments than there are, the difference wraps and the command reads outside of its
  arguments.
\<close>

theorem upload_options_overrun:
  assumes "upload_options is_udp argv 1 no_opts = Inr opts"
    and "length argv < uo_cnt opts" and "uo_cnt opts < 2 ^ 31"
  shows "upload_prepare P is_udp argv = Inl Out_of_bounds"
proof -
  let ?n = "length argv" and ?k = "uo_cnt opts"
  have "unat (of_nat ?n - of_nat ?k :: u32) = 2 ^ 32 - (?k - ?n)"
    using assms(2,3) by (rule unat_wrapped_diff)
  then have "\<not> of_nat ?n - of_nat ?k < (2 :: u32)" "(2 :: u32) < of_nat ?n - of_nat ?k"
    using assms(2,3) by (simp_all add: word_less_nat_alt)
  with assms(1,2) show ?thesis
    by (simp add: upload_prepare_def arg_str_def argv_at_def Let_def)
qed

theorem upload_options_overrun_witness:
  "upload_prepare demo_platform True [''udp_upload'', ''-S1'', ''-S2''] = Inl Out_of_bounds"
proof -
  have "upload_options True [''udp_upload'', ''-S1'', ''-S2''] 1 no_opts = Inr (no_opts\<lparr>uo_tos := 2, uo_cnt := 4\<rparr>)"
    by code_simp
  from upload_options_overrun [OF this, of demo_platform] show ?thesis by (simp add: no_opts_def)
qed

text \<open>
  C31. A time is printed as the reference says, in minutes, seconds, milliseconds or microseconds with
  two decimals, unless it is a minute or more and its seconds exceed 42.949672: there the product by
  100 overflows 32 bits.
\<close>

theorem print_time_correct:
  assumes "unat v < 60000000 \<or> unat v mod 60000000 \<le> 42949672"
  shows "print_time v = Inr (time_text (unat v))"
proof -
  note defs = print_time_def TIME_US_def TIME_US_UNIT_def time_text_def word_le_nat_alt word_less_nat_alt
  consider "60000000 \<le> unat v" | "unat v < 60000000" "1000000 \<le> unat v" | "unat v < 1000000" "1000 \<le> unat v"
    | "unat v < 1000" by linarith
  then show ?thesis
  proof cases
    case 1
    with assms print_number_take [of 60000000 v] show ?thesis by (simp add: defs)
  next
    case 2
    have "unat v mod 1000000 < 1000000" by simp
    then have "unat v mod 1000000 * 100 < 100000000" by linarith
    with 2 print_number_take [of 1000000 v] show ?thesis by (simp add: defs)
  next
    case 3
    have "unat v mod 1000 < 1000" by simp
    then have "unat v mod 1000 * 100 < 100000" by linarith
    with 3 print_number_take [of 1000 v] show ?thesis by (simp add: defs)
  next
    case 4
    then show ?thesis by (simp add: defs fmt_u_def)
  qed
qed

theorem print_time_correct_witness:
  "print_time 90500000 = Inr (time_text 90500000) \<and> print_time 110000000 = Inr ''1.11 m'' \<and> time_text 110000000 = ''1.83 m''"
proof -
  have digits: "char_of (48 :: nat) = CHR ''0''" "char_of (49 :: nat) = CHR ''1''" "char_of (51 :: nat) = CHR ''3''"
    "char_of (56 :: nat) = CHR ''8''" by code_simp+
  have "print_time 110000000 = Inr ''1.11 m''"
    by (simp add: digits print_time_def TIME_US_def TIME_US_UNIT_def fmt_u_def Let_def show_nat.simps)
  moreover have "time_text 110000000 = ''1.83 m''"
    by (simp add: digits time_text_def hundredths_def two_digits_def show_nat.simps)
  ultimately show ?thesis using print_time_correct [of 90500000] by simp
qed

end
