(* ===== verification/Zperf_Lifecycle.thy ===== *)
theory Zperf_Lifecycle
  imports Zperf_Udp_Receiver Zperf_Tcp_Receiver Zperf_Demo_Platform
begin

text \<open>
  The life of a server as its callers see it, a small automaton over phases, and the proof that both
  server threads, interleaved with any calls of their control functions, implement it.

  The locale \<open>server_thread\<close> is what a server promises: its steps simulate the automaton. What the
  automaton allows is proved once, inside the locale, and holds of both servers.
\<close>

section \<open>The automaton\<close>

text \<open>The flag says whether a stop has been asked for.\<close>

datatype server_phase =
    Phase_off
  | Phase_idle
  | Phase_requested bool
  | Phase_serving bool
  | Phase_ending

inductive life_step :: "server_phase \<Rightarrow> server_phase \<Rightarrow> bool" where
  refused: "life_step ph ph"
| boot: "life_step Phase_off Phase_idle"
| accept: "life_step Phase_idle (Phase_requested False)"
| enter: "life_step (Phase_requested s) (Phase_serving s)"
| enter_failed: "life_step (Phase_requested s) Phase_ending"
| finish: "life_step (Phase_serving s) Phase_ending"
| return: "life_step Phase_ending Phase_idle"
| stop_requested: "life_step (Phase_requested s) (Phase_requested True)"
| stop_serving: "life_step (Phase_serving s) (Phase_serving True)"

inductive_cases from_stoppedE: "life_step (Phase_serving True) ph"

text \<open>The phase, from where the thread is and from the two flags the control functions set.\<close>

fun phase_of :: "'v server_pc \<Rightarrow> bool \<Rightarrow> bool \<Rightarrow> server_phase" where
  "phase_of Server_created running stop = Phase_off"
| "phase_of Server_waiting running stop = (if running then Phase_requested stop else Phase_idle)"
| "phase_of (Server_polling v) running stop = Phase_serving stop"
| "phase_of Server_returned running stop = Phase_ending"

section \<open>The interface\<close>

locale server_thread =
  fixes step :: "'c \<Rightarrow> 'c \<Rightarrow> bool"
    and reached :: "'c \<Rightarrow> bool"
    and phase :: "'c \<Rightarrow> server_phase"
  assumes reached_step: "reached c \<Longrightarrow> step c c' \<Longrightarrow> reached c'"
    and simulates: "reached c \<Longrightarrow> step c c' \<Longrightarrow> life_step (phase c) (phase c')"
begin

lemma runs_simulate:
  assumes "step\<^sup>*\<^sup>* c c'" and "reached c"
  shows "reached c' \<and> life_step\<^sup>*\<^sup>* (phase c) (phase c')"
  using assms
proof (induction rule: rtranclp_induct)
  case base
  then show ?case by simp
next
  case (step c' c'')
  then show ?case by (meson reached_step rtranclp.rtrancl_into_rtrancl simulates)
qed

text \<open>A session is entered only from a request, and a request is only accepted by an idle server.\<close>

lemma session_needs_request:
  assumes "reached c" and "step c c'" and "phase c' = Phase_serving s" and "phase c \<noteq> phase c'"
  shows "phase c = Phase_requested s \<or> s \<and> phase c = Phase_serving False"
  using simulates [OF assms(1,2)] assms(3,4) by (cases rule: life_step.cases) auto

text \<open>Once a stop is asked for while serving, the session stays stopped until it ends.\<close>

lemma stop_is_kept:
  assumes "step\<^sup>*\<^sup>* c c'" and "reached c" and "phase c = Phase_serving True"
  shows "phase c' = Phase_serving True \<or>
    (\<exists>d. step\<^sup>*\<^sup>* c d \<and> step\<^sup>*\<^sup>* d c' \<and> phase d = Phase_ending)"
  using assms
proof (induction rule: rtranclp_induct)
  case base
  then show ?case by simp
next
  case (step c' c'')
  have "reached c'" using runs_simulate [OF step(1,4)] by simp
  from step consider "phase c' = Phase_serving True"
    | d where "step\<^sup>*\<^sup>* c d" "step\<^sup>*\<^sup>* d c'" "phase d = Phase_ending" by blast
  then show ?case
  proof cases
    case 1
    then have "phase c'' = Phase_serving True \<or> phase c'' = Phase_ending"
      using simulates [OF \<open>reached c'\<close> step(2)] by (auto elim: from_stoppedE)
    then show ?thesis using step(1,2) by (meson rtranclp.rtrancl_into_rtrancl rtranclp.rtrancl_refl)
  next
    case 2
    then show ?thesis using step(2) by (meson rtranclp.rtrancl_into_rtrancl)
  qed
qed

end

section \<open>The UDP server\<close>

definition udp_phase :: "pollfd list server_pc \<times> ('w, 's) udp_server \<Rightarrow> server_phase" where
  "udp_phase c = phase_of (fst c) (udp_server_running (snd c)) (udp_server_stop (snd c))"

lemma udp_turn_continues: "udp_server_turn P fds st = Inr (Server_continue, fds', st') \<Longrightarrow> \<not> udp_server_stop st"
  by (auto simp: udp_server_turn_def zsock_poll_def split: prod.splits if_splits)

lemma udp_step_simulates:
  assumes laws: "sem_laws R cnt cap" and inv: "udp_inv cnt cap c" and step: "udp_step P R c c'"
  shows "life_step (udp_phase c) (udp_phase c')"
  using step
proof (cases rule: udp_step.cases)
  case (init st sem)
  with inv show ?thesis by (auto simp: udp_phase_def udp_inv_def intro: life_step.intros)
next
  case (start st sem fds st')
  with inv k_sem_take_count [OF laws _ start(3)] udp_server_setup_effect [OF start(4)]
  show ?thesis by (auto simp: udp_phase_def udp_inv_def udp_control_def intro: life_step.intros)
next
  case (start_failed st sem ctl fds st')
  with inv k_sem_take_count [OF laws _ start_failed(3)] show ?thesis
    by (auto simp: udp_phase_def udp_inv_def intro: life_step.intros)
next
  case (turn fds st fds' st')
  with udp_turn_continues [OF turn(3)] udp_server_turn_work [OF turn(3)] show ?thesis
    by (auto simp: udp_phase_def udp_work_def udp_control_def intro: life_step.intros)
next
  case (leave fds st ctl fds' st')
  then show ?thesis by (auto simp: udp_phase_def intro: life_step.intros)
next
  case (idle st)
  then show ?thesis by (auto simp: udp_phase_def intro: life_step.intros)
next
  case (download prm cb ud st r st' pc)
  show ?thesis
  proof (cases "pc = Server_created")
    case True
    with download inv udp_download_phase [OF laws _ download(3), of pc] show ?thesis
      by (auto simp: udp_phase_def udp_inv_def intro: life_step.intros)
  next
    case False
    with inv download have ready: "sem_laws R cnt cap \<and> sem_is_binary cap (udp_server_run st)"
      using laws by (cases pc) (auto simp: udp_inv_def)
    from ready download(3) show ?thesis
    proof (cases rule: udp_ctl.download_cases [where cnt = cnt])
      case refused
      with download show ?thesis by (auto intro: life_step.intros)
    next
      case (accepted p f)
      with inv download False show ?thesis
        by (cases pc) (auto simp: udp_phase_def udp_inv_def intro: life_step.intros)
    qed
  qed
next
  case (stop st r st' pc)
  with inv show ?thesis
    by (cases pc) (auto simp: udp_phase_def udp_inv_def zperf_udp_download_stop_def intro: life_step.intros split: if_splits)
qed

interpretation udp_life: server_thread "udp_step P R" "\<lambda>c. sem_laws R cnt cap \<and> udp_inv cnt cap c" udp_phase
  for P R cnt cap
  by unfold_locales (auto intro: udp_inv_step udp_step_simulates)

section \<open>The TCP server\<close>

definition tcp_phase :: "unit server_pc \<times> ('w, 's) tcp_server \<Rightarrow> server_phase" where
  "tcp_phase c = phase_of (fst c) (tcp_server_running (snd c)) (tcp_server_stop (snd c))"

lemma tcp_turn_continues: "tcp_server_turn P st = (Server_continue, st') \<Longrightarrow> \<not> tcp_server_stop st"
  by (auto simp: tcp_server_turn_def zsock_poll_def Let_def split: prod.splits if_splits)

lemma tcp_step_simulates:
  assumes laws: "sem_laws R cnt cap" and inv: "tcp_inv cnt cap c" and step: "tcp_step P R c c'"
  shows "life_step (tcp_phase c) (tcp_phase c')"
  using step
proof (cases rule: tcp_step.cases)
  case (init st sem)
  with inv show ?thesis by (auto simp: tcp_phase_def tcp_inv_def intro: life_step.intros)
next
  case (start st sem st')
  with inv k_sem_take_count [OF laws _ start(3)] tcp_server_setup_effect [OF start(4)]
  show ?thesis by (auto simp: tcp_phase_def tcp_inv_def tcp_control_def tcp_shape_def intro: life_step.intros)
next
  case (start_failed st sem ctl st')
  with inv k_sem_take_count [OF laws _ start_failed(3)] show ?thesis
    by (auto simp: tcp_phase_def tcp_inv_def intro: life_step.intros)
next
  case (turn st st')
  with tcp_turn_continues [OF turn(3)] tcp_server_turn_work [OF turn(3)] inv show ?thesis
    by (auto simp: tcp_phase_def tcp_inv_def tcp_work_simps tcp_control_def intro: life_step.intros)
next
  case (leave st ctl st')
  then show ?thesis by (auto simp: tcp_phase_def intro: life_step.intros)
next
  case (idle st)
  then show ?thesis by (auto simp: tcp_phase_def intro: life_step.intros)
next
  case (download prm cb ud st r st' pc)
  show ?thesis
  proof (cases "pc = Server_created")
    case True
    with download inv tcp_download_phase [OF laws _ download(3), of pc] show ?thesis
      by (auto simp: tcp_phase_def tcp_inv_def intro: life_step.intros)
  next
    case False
    with inv download have ready: "sem_laws R cnt cap \<and> sem_is_binary cap (tcp_server_run st)"
      using laws by (cases pc) (auto simp: tcp_inv_def)
    from ready download(3) show ?thesis
    proof (cases rule: tcp_ctl.download_cases [where cnt = cnt])
      case refused
      with download show ?thesis by (auto intro: life_step.intros)
    next
      case (accepted p f)
      with inv download False show ?thesis
        by (cases pc) (auto simp: tcp_phase_def tcp_inv_def intro: life_step.intros)
    qed
  qed
next
  case (stop st r st' pc)
  with inv show ?thesis
    by (cases pc) (auto simp: tcp_phase_def tcp_inv_def zperf_tcp_download_stop_def intro: life_step.intros split: if_splits)
qed

interpretation tcp_life: server_thread "tcp_step P R" "\<lambda>c. sem_laws R cnt cap \<and> tcp_inv cnt cap c" tcp_phase
  for P R cnt cap
  by unfold_locales (auto intro: tcp_inv_step tcp_step_simulates)

section \<open>Both servers refine the automaton\<close>

text \<open>
  The UDP server refines the automaton: its life begins switched off, and from a reachable state
  each step of the server thread or of a caller is a step of the automaton or leaves the phase as it
  is. So a session is only entered after an accepted request, a request is only accepted by an idle
  server, and a stopped session does nothing but end.
\<close>

lemma udp_refines_lifecycle:
  assumes "sem_laws R cnt cap" and "udp_reachable P R c"
  shows "life_step\<^sup>*\<^sup>* Phase_off (udp_phase c) \<and> (\<forall>c'. udp_step P R c c' \<longrightarrow> life_step (udp_phase c) (udp_phase c')) \<and>
    (\<forall>c'. (udp_step P R)\<^sup>*\<^sup>* c c' \<longrightarrow> udp_phase c = Phase_serving True \<longrightarrow> udp_phase c' = Phase_serving True \<or>
      (\<exists>d. (udp_step P R)\<^sup>*\<^sup>* c d \<and> (udp_step P R)\<^sup>*\<^sup>* d c' \<and> udp_phase d = Phase_ending))"
proof -
  have inv: "sem_laws R cnt cap \<and> udp_inv cnt cap c" using assms udp_reachable_inv by blast
  from assms(2) have "life_step\<^sup>*\<^sup>* Phase_off (udp_phase c)"
  proof (induction rule: udp_reachable.induct)
    case (start_state w)
    then show ?case by (simp add: udp_phase_def)
  next
    case (next_state c c')
    then show ?case
      using udp_reachable_inv [OF assms(1)] udp_step_simulates [OF assms(1)] by (meson rtranclp.rtrancl_into_rtrancl)
  qed
  then show ?thesis using udp_life.simulates [OF inv] udp_life.stop_is_kept [OF _ inv] by blast
qed

text \<open>
  The TCP server refines the same automaton.
\<close>

lemma tcp_refines_lifecycle:
  assumes "sem_laws R cnt cap" and "tcp_reachable P R c"
  shows "life_step\<^sup>*\<^sup>* Phase_off (tcp_phase c) \<and> (\<forall>c'. tcp_step P R c c' \<longrightarrow> life_step (tcp_phase c) (tcp_phase c')) \<and>
    (\<forall>c'. (tcp_step P R)\<^sup>*\<^sup>* c c' \<longrightarrow> tcp_phase c = Phase_serving True \<longrightarrow> tcp_phase c' = Phase_serving True \<or>
      (\<exists>d. (tcp_step P R)\<^sup>*\<^sup>* c d \<and> (tcp_step P R)\<^sup>*\<^sup>* d c' \<and> tcp_phase d = Phase_ending))"
proof -
  have inv: "sem_laws R cnt cap \<and> tcp_inv cnt cap c" using assms tcp_reachable_inv by blast
  from assms(2) have "life_step\<^sup>*\<^sup>* Phase_off (tcp_phase c)"
  proof (induction rule: tcp_reachable.induct)
    case (start_state w)
    then show ?case by (simp add: tcp_phase_def)
  next
    case (next_state c c')
    then show ?case
      using tcp_reachable_inv [OF assms(1)] tcp_step_simulates [OF assms(1)] by (meson rtranclp.rtrancl_into_rtrancl)
  qed
  then show ?thesis using tcp_life.simulates [OF inv] tcp_life.stop_is_kept [OF _ inv] by blast
qed

end
