(* ===== verification/Zperf_System.thy ===== *)
theory Zperf_System
  imports Zperf_Shell
begin

text \<open>
  \<open>zperf_init\<close> of \<^verbatim>\<open>zperf_common.c\<close>, which puts the parts together, and the two functions of that file
  nothing calls. A machine is the shell with the uploads, the two servers, the threads that run them
  and the state of the FreeRTOS scheduler. The session table exists once in the program and once in
  each server here, where nothing runs yet; \<open>Zperf_Program\<close> runs the parts over one table.
\<close>

datatype task_function = Work_task | Udp_receiver_thread | Tcp_receiver_thread

record ('w, 'q, 's, 'h, 'k) machine = "('w, 'q, 's) system" +
  work_thread :: "'h k_thread"
  udp_thread :: "'h k_thread"
  tcp_thread :: "'h k_thread"
  scheduler :: 'k

type_synonym ('h, 'k) task_create = "(task_function, 'h, 'k) rtos_tasks"

text \<open>
  The handle field, to which the code assigns the address of \<open>handle\<close>, is overwritten by the creation
  of the thread.
\<close>

definition zperf_udp_receiver_init ::
  "('h, 'k) task_create \<Rightarrow> ('w, 'q, 's, 'h, 'k) machine \<Rightarrow> ('w, 'q, 's, 'h, 'k) machine faulty" where
  "zperf_udp_receiver_init K m =
     fbind (k_thread_create K (udp_thread m\<lparr>th_name := Some ''reciever''\<rparr>) Udp_receiver_thread (scheduler m))
       (\<lambda>(th, k). Inr (m\<lparr>udp_thread := th, scheduler := k\<rparr>))"

definition zperf_tcp_receiver_init ::
  "('h, 'k) task_create \<Rightarrow> ('w, 'q, 's, 'h, 'k) machine \<Rightarrow> ('w, 'q, 's, 'h, 'k) machine faulty" where
  "zperf_tcp_receiver_init K m =
     fbind (k_thread_create K (tcp_thread m\<lparr>th_name := Some ''reciever''\<rparr>) Tcp_receiver_thread (scheduler m))
       (\<lambda>(th, k). Inr (m\<lparr>tcp_thread := th, scheduler := k\<rparr>))"

text \<open>Both rows of the table are reset.\<close>

definition reset_sessions :: "('w, 'q, 's, 'h, 'k) machine \<Rightarrow> ('w, 'q, 's, 'h, 'k) machine" where
  "reset_sessions m =
     m\<lparr>sys_udp := sys_udp m\<lparr>sessions := zperf_session_init (sessions (sys_udp m))\<rparr>,
       sys_tcp := sys_tcp m\<lparr>sessions := zperf_session_init (sessions (sys_tcp m))\<rparr>\<rparr>"

definition zperf_init ::
  "'w platform \<Rightarrow> (work_item, 'q) rtos_queue \<Rightarrow> ('h, 'k) task_create \<Rightarrow> ('w, 'q, 's, 'h, 'k) machine \<Rightarrow>
   (int \<times> ('w, 'q, 's, 'h, 'k) machine) faulty" where
  "zperf_init P Q K m =
     fbind (k_work_queue_init Q (upload_work (sys_shell m))) (\<lambda>ws.
     fbind (k_work_queue_start K Work_task (work_thread m) (scheduler m)) (\<lambda>(th, k).
     let st = zperf_tcp_uploader_init (zperf_udp_uploader_init (sys_shell m\<lparr>upload_work := ws\<rparr>)) in
     fbind (zperf_udp_receiver_init K
       (m\<lparr>sys_shell := st, work_thread := k_thread_name_set th ''zperf_work_q'', scheduler := k\<rparr>)) (\<lambda>m1.
     fbind (zperf_tcp_receiver_init K m1) (\<lambda>m2.
     let m3 = reset_sessions m2 in
     Inr (0, if CONFIG_NET_SHELL then m3\<lparr>sys_shell := zperf_shell_init P (sys_shell m3)\<rparr> else m3)))))"

text \<open>Static data before \<open>zperf_init\<close>.\<close>

definition shell_static :: "'w \<Rightarrow> ('w, 'q) shell_state" where
  "shell_static w = async_state.extend (async_static w)
     \<lparr>sh_out = [], in6_addr_my = IPV6_ANY_ADDR, in6_addr_dst = IPV6_ANY_ADDR, in4_addr_my = 0, in4_addr_dst = 0,
      shell_ipv6 = IPV6_ANY_ADDR, shell_ipv4 = 0\<rparr>"

definition machine_static :: "'w \<Rightarrow> 'k \<Rightarrow> ('w, 'q, 's, 'h, 'k) machine" where
  "machine_static w k =
     \<lparr>sys_shell = shell_static w, sys_udp = udp_server_initial w\<lparr>sessions := sessions_zero\<rparr>,
      sys_tcp = tcp_server_initial w\<lparr>sessions := sessions_zero\<rparr>,
      work_thread = \<lparr>th_name = None, task_hanble = None\<rparr>, udp_thread = \<lparr>th_name = None, task_hanble = None\<rparr>,
      tcp_thread = \<lparr>th_name = None, task_hanble = None\<rparr>, scheduler = k\<rparr>"

section \<open>Functions nothing calls\<close>

text \<open>The counting loop of \<open>handle\<close> has no effect.\<close>

definition handle ::
  "('w, 'q) shell_state \<times> ('w, 's) udp_server \<Rightarrow> ('w, 'q) shell_state \<times> ('w, 's) udp_server" where
  "handle = (\<lambda>(st, srv).
     let (ret, srv') = zperf_udp_download_stop srv in
     if ret < 0 then (emit (''UDP server not running!'' @ NL) st, srv')
     else (emit (''UDP server stopped'' @ NL) st, srv'))"

text \<open>A result \<open>None\<close> is the missing \<open>return\<close> after a successful upload.\<close>

definition udp_uploader_run ::
  "'w platform \<Rightarrow> ('w, 'q) shell_state \<Rightarrow> (int option \<times> ('w, 'q) shell_state) faulty option" where
  "udp_uploader_run P st =
     (let param = \<lparr>up_peer_addr = Sockaddr_other 0, up_duration_ms = MSEC_PER_SEC * 1, up_rate_kbps = 10,
        up_packet_size = 256, up_tos = 0, up_tcp_nodelay = 0, up_priority = 0\<rparr>
      in case zperf_udp_upload P (Some param) (Some results_zero) st of
           None \<Rightarrow> None
         | Some (Inl f) \<Rightarrow> Some (Inl f)
         | Some (Inr (ret, results, st1)) \<Rightarrow>
             Some (Inr (if ret < 0 then (Some ret, emit (''UDP upload failed ('' @ fmt_d ret @ '')'' @ NL) st1)
                        else (None, zperf_udp_uploader_init st1))))"

text \<open>Its peer address is never set, so it always fails.\<close>

lemma udp_uploader_run_fails:
  "udp_uploader_run P st = Some (Inr (Some (- EINVAL), emit (''UDP upload failed (-22)'' @ NL) st))"
proof -
  have "fmt_d (- EINVAL) = ''-22''" by code_simp
  then show ?thesis by (simp add: udp_uploader_run_def zperf_udp_upload_def EINVAL_def)
qed

section \<open>After \<open>zperf_init\<close>\<close>

lemma truncate_shell [simp]:
  "async_state.truncate (zperf_shell_init P st) = async_state.truncate st"
  by (simp add: zperf_shell_init_def async_state.defs)

lemma k_thread_create_handle: "k_thread_create K th f k = Inr (th', k') \<Longrightarrow> task_hanble th' \<noteq> None"
  by (auto simp: k_thread_create_def split: prod.splits option.splits)

lemma k_work_queue_start_handle: "k_work_queue_start K f th k = Inr (th', k') \<Longrightarrow> task_hanble th' \<noteq> None"
  by (auto simp: k_work_queue_start_def split: prod.splits option.splits)

lemma zperf_receiver_initE:
  "zperf_udp_receiver_init K m = Inr m' \<Longrightarrow> \<exists>th k. m' = m\<lparr>udp_thread := th, scheduler := k\<rparr> \<and> task_hanble th \<noteq> None"
  "zperf_tcp_receiver_init K m = Inr m' \<Longrightarrow> \<exists>th k. m' = m\<lparr>tcp_thread := th, scheduler := k\<rparr> \<and> task_hanble th \<noteq> None"
  using k_thread_create_handle
  by (fastforce simp: zperf_udp_receiver_init_def zperf_tcp_receiver_init_def fbind_Inr_iff)+

lemma reset_sessions_static:
  "sys_udp m = udp_server_initial w\<lparr>sessions := sessions_zero\<rparr> \<Longrightarrow> sys_udp (reset_sessions m) = udp_server_initial w"
  "sys_tcp m = tcp_server_initial w\<lparr>sessions := sessions_zero\<rparr> \<Longrightarrow> sys_tcp (reset_sessions m) = tcp_server_initial w"
  by (simp_all add: reset_sessions_def udp_server_initial_def tcp_server_initial_def)

lemma zperf_init_state:
  assumes "zperf_init P Q K (machine_static w k) = Inr (ret, m)"
  shows "ret = 0 \<and> sys_udp m = udp_server_initial w \<and> sys_tcp m = tcp_server_initial w \<and>
    zperf_init_uploads Q (async_static w) = Inr (async_state.truncate (sys_shell m)) \<and>
    task_hanble (work_thread m) \<noteq> None \<and> task_hanble (udp_thread m) \<noteq> None \<and> task_hanble (tcp_thread m) \<noteq> None"
proof -
  let ?m = "machine_static w k :: ('a, 'b, 'c, 'd, 'e) machine"
  from assms obtain ws th k1 m1 m2 where
    ws: "k_work_queue_init Q (upload_work (sys_shell ?m)) = Inr ws"
    and th: "k_work_queue_start K Work_task (work_thread ?m) k = Inr (th, k1)"
    and m1: "zperf_udp_receiver_init K (?m\<lparr>sys_shell := zperf_tcp_uploader_init (zperf_udp_uploader_init
        (sys_shell ?m\<lparr>upload_work := ws\<rparr>)), work_thread := k_thread_name_set th ''zperf_work_q'', scheduler := k1\<rparr>) = Inr m1"
    and m2: "zperf_tcp_receiver_init K m1 = Inr m2"
    and m: "ret = 0" "m = reset_sessions m2\<lparr>sys_shell := zperf_shell_init P (sys_shell (reset_sessions m2))\<rparr>"
    by (auto simp: zperf_init_def fbind_Inr_iff Let_def CONFIG_NET_SHELL_def machine_static_def)
  from zperf_receiver_initE(1) [OF m1] zperf_receiver_initE(2) [OF m2]
  obtain th1 k2 th2 k3 where m2_eq: "m2 = ?m\<lparr>sys_shell := zperf_tcp_uploader_init (zperf_udp_uploader_init
        (sys_shell ?m\<lparr>upload_work := ws\<rparr>)), work_thread := k_thread_name_set th ''zperf_work_q'', udp_thread := th1,
        tcp_thread := th2, scheduler := k3\<rparr>" "task_hanble th1 \<noteq> None" "task_hanble th2 \<noteq> None" by auto
  have servers: "sys_udp (reset_sessions m2) = udp_server_initial w" "sys_tcp (reset_sessions m2) = tcp_server_initial w"
    by (rule reset_sessions_static, simp add: m2_eq machine_static_def)+
  have shell: "sys_shell (reset_sessions m2) = sys_shell m2" "work_thread (reset_sessions m2) = work_thread m2"
    "udp_thread (reset_sessions m2) = udp_thread m2" "tcp_thread (reset_sessions m2) = tcp_thread m2"
    by (simp_all add: reset_sessions_def)
  have "zperf_init_uploads Q (async_static w) = Inr (async_state.truncate (sys_shell m2))"
    using ws by (simp add: m2_eq machine_static_def shell_static_def zperf_init_uploads_def async_static_def
        async_state.defs zperf_udp_uploader_init_def zperf_tcp_uploader_init_def)
  with servers shell m m2_eq k_work_queue_start_handle [OF th] show ?thesis
    by (simp add: k_thread_name_set_def)
qed

end
