(* ===== verification/Zperf_Program.thy ===== *)
theory Zperf_Program
  imports Zperf_Lifecycle Zperf_System Zperf_Async_Properties
begin

text \<open>
  The whole program: both server threads, the worker thread and the shell, interleaved over the memory
  they share. Shared are the world (lwIP and FreeRTOS), the local addresses of \<^verbatim>\<open>zperf_common.c\<close> and
  the session table of \<^verbatim>\<open>zperf_session.c\<close>; each part keeps its own variables and its own record of what
  it asked of the network.

  The parts were modelled one by one, each with these variables in its own state. Here the memory exists
  once: a part is handed its present contents before each step (\<open>udp_view\<close>, \<open>tcp_view\<close>, \<open>async_view\<close>) and
  what it left there is kept after it. What one part may rely on of the others, and guarantees to them, is
  the locale \<open>shared_component\<close>.
\<close>

section \<open>Rely and guarantee\<close>

locale shared_component =
  fixes step :: "'c \<Rightarrow> 'c \<Rightarrow> bool"
    and inv :: "'c \<Rightarrow> bool"
    and mem_of :: "'c \<Rightarrow> 'm"
    and with_mem :: "'m \<Rightarrow> 'c \<Rightarrow> 'c"
    and rely :: "'m \<Rightarrow> 'm \<Rightarrow> bool"
    and guar :: "'m \<Rightarrow> 'm \<Rightarrow> bool"
  assumes inv_step: "inv c \<Longrightarrow> step c c' \<Longrightarrow> inv c'"
    and guarantee: "inv c \<Longrightarrow> step c c' \<Longrightarrow> guar (mem_of c) (mem_of c')"
    and stable: "inv c \<Longrightarrow> rely (mem_of c) m \<Longrightarrow> inv (with_mem m c)"
    and mem_of_with: "mem_of (with_mem m c) = m"
    and with_mem_with: "with_mem m (with_mem m' c) = with_mem m c"
    and with_mem_of: "with_mem (mem_of c) c = c"
begin

lemma own_step:
  assumes "inv (with_mem m c)" and "step (with_mem m c) c'"
  shows "inv (with_mem (mem_of c') c')" and "guar m (mem_of c')"
  using inv_step [OF assms] guarantee [OF assms] by (simp_all add: with_mem_of mem_of_with)

lemma other_step: "inv (with_mem m c) \<Longrightarrow> rely m m' \<Longrightarrow> inv (with_mem m' c)"
  using stable [of "with_mem m c" m'] by (simp add: mem_of_with with_mem_with)

end

section \<open>The shared memory\<close>

record 'w memory =
  mem_world :: 'w
  mem_my4_port :: u16
  mem_my4_addr :: in_addr
  mem_my6_port :: u16
  mem_my6_addr :: in6_addr
  mem_sessions :: sessions

definition memory_of :: "('w, 'z) shared_scheme \<Rightarrow> 'w memory" where
  "memory_of st = \<lparr>mem_world = world st, mem_my4_port = my4_port st, mem_my4_addr = my4_addr st,
     mem_my6_port = my6_port st, mem_my6_addr = my6_addr st, mem_sessions = sessions st\<rparr>"

definition with_memory :: "'w memory \<Rightarrow> ('w, 'z) shared_scheme \<Rightarrow> ('w, 'z) shared_scheme" where
  "with_memory m st = st\<lparr>world := mem_world m, my4_port := mem_my4_port m, my4_addr := mem_my4_addr m,
     my6_port := mem_my6_port m, my6_addr := mem_my6_addr m, sessions := mem_sessions m\<rparr>"

lemma memory_simps [simp]:
  "memory_of (with_memory m st) = m" "with_memory m (with_memory m' st) = with_memory m st"
  "with_memory (memory_of st) st = st" "mem_sessions (memory_of st) = sessions st"
  "mem_world (memory_of st) = world st"
  by (simp_all add: memory_of_def with_memory_def)

text \<open>A change of memory that leaves row \<open>i\<close> of the table alone and the table well formed.\<close>

definition keeps_row :: "nat \<Rightarrow> 'w memory \<Rightarrow> 'w memory \<Rightarrow> bool" where
  "keeps_row i m m' \<longleftrightarrow> mem_sessions m' ! i = mem_sessions m ! i \<and>
     (sessions_wf (mem_sessions m) \<longrightarrow> sessions_wf (mem_sessions m'))"

section \<open>The parts as components\<close>

lemma udp_step_row:
  assumes "udp_step P R c c'"
  shows "sessions (snd c') ! 1 = sessions (snd c) ! 1"
  using assms
proof (cases rule: udp_step.cases)
  case (start st sem fds st')
  with udp_server_setup_effect [OF start(4)] show ?thesis by simp
next
  case (start_failed st sem ctl fds st')
  with udp_server_setup_effect [OF start_failed(4)] udp_server_leave_effect [of P ctl fds st'] show ?thesis by simp
next
  case (turn fds st fds' st')
  with udp_server_turn_work [OF turn(3)] show ?thesis by (simp add: udp_work_def)
next
  case (leave fds st ctl fds' st')
  with udp_server_turn_work [OF leave(3)] udp_server_leave_effect [of P ctl fds' st'] show ?thesis
    by (simp add: udp_work_def)
next
  case (download prm cb ud st r st' pc)
  then show ?thesis by (auto simp: zperf_udp_download_def Let_def split: option.splits if_splits sum.splits)
next
  case (stop st r st' pc)
  then show ?thesis by (auto simp: zperf_udp_download_stop_def split: if_splits)
qed simp_all

lemma tcp_step_row:
  assumes "tcp_step P R c c'" and "tcp_shape (snd c)"
  shows "sessions (snd c') ! 0 = sessions (snd c) ! 0"
  using assms(1)
proof (cases rule: tcp_step.cases)
  case (start st sem st')
  with assms(2) tcp_server_setup_effect [OF start(4)] show ?thesis by (simp add: tcp_shape_def)
next
  case (start_failed st sem ctl st')
  with assms(2) tcp_server_setup_effect [OF start_failed(4)] tcp_server_leave_effect [of st' P ctl] show ?thesis
    by (simp add: tcp_shape_def)
next
  case (turn st st')
  with assms(2) tcp_server_turn_work [OF turn(3)] show ?thesis by (simp add: tcp_work_def)
next
  case (leave st ctl st')
  with assms(2) tcp_server_turn_work [OF leave(3)] tcp_work_shape [of st st'] tcp_server_leave_effect [of st' P ctl]
  show ?thesis by (simp add: tcp_work_def)
next
  case (download prm cb ud st r st' pc)
  then show ?thesis by (auto simp: zperf_tcp_download_def Let_def split: option.splits if_splits sum.splits)
next
  case (stop st r st' pc)
  then show ?thesis by (auto simp: zperf_tcp_download_stop_def split: if_splits)
qed simp_all

lemma udp_inv_stable:
  assumes "udp_inv cnt cap c" and "keeps_row 0 (memory_of (snd c)) m"
  shows "udp_inv cnt cap (apsnd (with_memory m) c)"
proof (cases c)
  case (Pair pc st)
  with assms show ?thesis
    by (cases pc) (auto simp: udp_inv_def udp_table_ok_def keeps_row_def with_memory_def)
qed

lemma tcp_inv_stable:
  assumes "tcp_inv cnt cap c" and "keeps_row 1 (memory_of (snd c)) m"
  shows "tcp_inv cnt cap (apsnd (with_memory m) c)"
proof (cases c)
  case (Pair pc st)
  with assms show ?thesis
    by (cases pc) (auto simp: tcp_inv_def tcp_shape_def keeps_row_def with_memory_def)
qed

interpretation udp_part: shared_component "udp_step P R" "\<lambda>c. sem_laws R cnt cap \<and> udp_inv cnt cap c"
  "\<lambda>c. memory_of (snd c)" "\<lambda>m. apsnd (with_memory m)" "keeps_row 0" "keeps_row 1" for P R cnt cap
proof (unfold_locales, goal_cases)
  case (1 c c')
  then show ?case using udp_inv_step by blast
next
  case (2 c c')
  then have "udp_inv cnt cap c'" using udp_inv_step by blast
  with 2 udp_step_row [of P R c c'] show ?case by (simp add: keeps_row_def udp_inv_def udp_table_ok_def)
qed (auto simp: udp_inv_stable)

interpretation tcp_part: shared_component "tcp_step P R" "\<lambda>c. sem_laws R cnt cap \<and> tcp_inv cnt cap c"
  "\<lambda>c. memory_of (snd c)" "\<lambda>m. apsnd (with_memory m)" "keeps_row 1" "keeps_row 0" for P R cnt cap
proof (unfold_locales, goal_cases)
  case (1 c c')
  then show ?case using tcp_inv_step by blast
next
  case (2 c c')
  then have "tcp_inv cnt cap c'" using tcp_inv_step by blast
  with 2 tcp_step_row [of P R c c'] show ?case by (simp add: keeps_row_def tcp_inv_def tcp_shape_def)
qed (auto simp: tcp_inv_stable)

text \<open>The uploads share nothing but the world.\<close>

lemma async_inv_cong:
  assumes "upload_work st' = upload_work st" and "upload_ctx st' = upload_ctx st"
  shows "async_inv Q items cap (pc, st') = async_inv Q items cap (pc, st)"
  using assms by (simp add: async_inv_def)

lemma async_inv_world [simp]: "async_inv Q items cap (apsnd (world_update f) c) = async_inv Q items cap c"
  by (cases c) (simp add: async_inv_def)

interpretation async_part: shared_component "\<lambda>c c'. \<exists>l. async_step P Q c l c'" "async_inv Q items cap"
  "\<lambda>c. world (snd c)" "\<lambda>w. apsnd (world_update (\<lambda>_. w))" "\<lambda>_ _. True" "\<lambda>_ _. True" for P Q items cap
  by unfold_locales (auto dest: async_step_simulates)

section \<open>States and steps of the program\<close>

record ('w, 'q, 's) program =
  prog_mem :: "'w memory"
  prog_udp :: "pollfd list server_pc \<times> ('w, 's) udp_server"
  prog_tcp :: "unit server_pc \<times> ('w, 's) tcp_server"
  prog_worker :: worker_pc
  prog_shell :: "('w, 'q) shell_state"

definition udp_view :: "('w, 'q, 's) program \<Rightarrow> pollfd list server_pc \<times> ('w, 's) udp_server" where
  "udp_view p = apsnd (with_memory (prog_mem p)) (prog_udp p)"

definition tcp_view :: "('w, 'q, 's) program \<Rightarrow> unit server_pc \<times> ('w, 's) tcp_server" where
  "tcp_view p = apsnd (with_memory (prog_mem p)) (prog_tcp p)"

definition shell_view :: "('w, 'q, 's) program \<Rightarrow> ('w, 'q) shell_state" where
  "shell_view p = (prog_shell p)\<lparr>world := mem_world (prog_mem p)\<rparr>"

definition async_view :: "('w, 'q, 's) program \<Rightarrow> worker_pc \<times> ('w, 'q) async_state" where
  "async_view p = (prog_worker p, async_state.truncate (shell_view p))"

definition system_view :: "('w, 'q, 's) program \<Rightarrow> ('w, 'q, 's) system" where
  "system_view p = \<lparr>sys_shell = shell_view p, sys_udp = snd (udp_view p), sys_tcp = snd (tcp_view p)\<rparr>"

definition put_udp :: "pollfd list server_pc \<times> ('w, 's) udp_server \<Rightarrow> ('w, 'q, 's) program \<Rightarrow> ('w, 'q, 's) program" where
  "put_udp c p = p\<lparr>prog_udp := c, prog_mem := memory_of (snd c)\<rparr>"

definition put_tcp :: "unit server_pc \<times> ('w, 's) tcp_server \<Rightarrow> ('w, 'q, 's) program \<Rightarrow> ('w, 'q, 's) program" where
  "put_tcp c p = p\<lparr>prog_tcp := c, prog_mem := memory_of (snd c)\<rparr>"

definition put_shell :: "('w, 'q) shell_state \<Rightarrow> ('w, 'q, 's) program \<Rightarrow> ('w, 'q, 's) program" where
  "put_shell st p = p\<lparr>prog_shell := st, prog_mem := (prog_mem p)\<lparr>mem_world := world st\<rparr>\<rparr>"

definition put_async :: "worker_pc \<times> ('w, 'q) async_state \<Rightarrow> ('w, 'q, 's) program \<Rightarrow> ('w, 'q, 's) program" where
  "put_async c p = put_shell (async_state.extend (snd c) (async_state.more (prog_shell p))) (p\<lparr>prog_worker := fst c\<rparr>)"

text \<open>A command of the shell calls into a server, which it may change, but not into the server's thread.\<close>

definition put_system :: "('w, 'q, 's) system \<Rightarrow> ('w, 'q, 's) program \<Rightarrow> ('w, 'q, 's) program" where
  "put_system sys p = put_shell (sys_shell sys)
     (p\<lparr>prog_udp := (fst (prog_udp p), sys_udp sys), prog_tcp := (fst (prog_tcp p), sys_tcp sys)\<rparr>)"

text \<open>
  The threads in any order. The steps of \<open>udp_step\<close> and \<open>tcp_step\<close> include the calls that other tasks make
  of a server, those of \<open>async_step\<close> the requests for uploads; \<open>shell\<close> is a whole command line. After a
  fault of the worker or of a request the program does nothing any more.
\<close>

inductive program_step ::
  "'w platform \<Rightarrow> (work_item, 'q) rtos_queue \<Rightarrow> 's rtos \<Rightarrow> ('w, 'q, 's) program \<Rightarrow> ('w, 'q, 's) program \<Rightarrow> bool"
  for P :: "'w platform" and Q :: "(work_item, 'q) rtos_queue" and R :: "'s rtos" where
  udp: "prog_worker p \<noteq> Async_faulted \<Longrightarrow> udp_step P R (udp_view p) c \<Longrightarrow> program_step P Q R p (put_udp c p)"
| tcp: "prog_worker p \<noteq> Async_faulted \<Longrightarrow> tcp_step P R (tcp_view p) c \<Longrightarrow> program_step P Q R p (put_tcp c p)"
| async: "prog_worker p \<noteq> Async_faulted \<Longrightarrow> async_step P Q (async_view p) l c \<Longrightarrow> program_step P Q R p (put_async c p)"
| shell: "prog_worker p \<noteq> Async_faulted \<Longrightarrow> shell_task P Q R args (system_view p) = Some (Inr sys) \<Longrightarrow>
    program_step P Q R p (put_system sys p)"

text \<open>The program that \<open>zperf_init\<close> leaves: one world, and the table of the two servers, which agree.\<close>

definition program_of :: "('w, 'q, 's, 'h, 'k) machine \<Rightarrow> ('w, 'q, 's) program" where
  "program_of m = \<lparr>prog_mem = memory_of (sys_udp m), prog_udp = (Server_created, sys_udp m),
     prog_tcp = (Server_created, sys_tcp m), prog_worker = Worker_idle, prog_shell = sys_shell m\<rparr>"

inductive program_reachable ::
  "'w platform \<Rightarrow> (work_item, 'q) rtos_queue \<Rightarrow> 's rtos \<Rightarrow> ('h, 'k) task_create \<Rightarrow> ('w, 'q, 's) program \<Rightarrow> bool"
  for P :: "'w platform" and Q :: "(work_item, 'q) rtos_queue" and R :: "'s rtos" and K :: "('h, 'k) task_create" where
  init: "zperf_init P Q K (machine_static w k) = Inr (0, m) \<Longrightarrow> program_reachable P Q R K (program_of m)"
| step: "program_reachable P Q R K p \<Longrightarrow> program_step P Q R p p' \<Longrightarrow> program_reachable P Q R K p'"

section \<open>What a command does to the rest\<close>

definition same_uploads :: "('w, 'q, 'z) async_state_scheme \<Rightarrow> ('w, 'q, 'y) async_state_scheme \<Rightarrow> bool" where
  "same_uploads st st' \<longleftrightarrow> upload_work st' = upload_work st \<and> upload_ctx st' = upload_ctx st"

lemma same_uploads_emit [simp]: "same_uploads st (emit t st') = same_uploads st st'"
  by (simp add: same_uploads_def emit_def)

lemma emit_same_uploads [simp]: "same_uploads (emit t st) st' = same_uploads st st'"
  by (simp add: same_uploads_def emit_def)

lemma same_uploads_refl [simp]: "same_uploads st st"
  by (simp add: same_uploads_def)

lemma sync_upload_frame:
  "zperf_udp_upload P (Some prm) (Some res) (st :: ('w, 'q) shell_state) = Some (Inr (ret, r, st')) \<Longrightarrow> same_uploads st st'"
  "zperf_tcp_upload P (Some prm) (Some res) st = Some (Inr (ret, r, st')) \<Longrightarrow> same_uploads st st'"
  using zperf_udp_upload_frame [of P prm res st ret r st'] zperf_tcp_upload_frame [of P prm res st ret r st']
  by (cases st; cases st'; simp add: udp_frame_def tcp_frame_def same_uploads_def)+

text \<open>An upload command either leaves the queue and the contexts alone or makes one request.\<close>

definition upload_requested ::
  "(work_item, 'q) rtos_queue \<Rightarrow> ('w, 'q) shell_state \<Rightarrow> ('w, 'q) shell_state \<Rightarrow> bool" where
  "upload_requested Q st st' \<longleftrightarrow> (\<exists>item param cb ud r (st0 :: ('w, 'q) shell_state) st1.
     upload_async Q item param cb ud st0 = Inr (r, st1) \<and>
     same_uploads st st0 \<and> same_uploads st1 st')"

lemma execute_sync_frame:
  assumes "execute_sync upload stats name = Some (Inr (status, st'))"
    and "\<And>ret r st1. upload = Some (Inr (ret, r, st1)) \<Longrightarrow> same_uploads st st1"
  shows "same_uploads st st'"
  using assms
  by (auto simp: execute_sync_def fbind_Inr_iff split: option.splits sum.splits if_splits)

lemma execute_async_frame:
  assumes "execute_async Q item param cb name st0 = Some (Inr (status, st'))" and "same_uploads st st0"
  shows "upload_requested Q st st'"
proof -
  obtain r st1 where "upload_async Q item (Some param) (Some cb) SHELL_HANDLE st0 = Inr (r, st1)" "same_uploads st1 st'"
    using assms(1) by (auto simp: execute_async_def split: sum.splits option.splits prod.splits if_splits)
  with assms(2) show ?thesis unfolding upload_requested_def by blast
qed

lemma execute_upload_frame:
  assumes "execute_upload P Q param is_udp async st = Some (Inr (status, st'))"
  shows "same_uploads st st' \<or> upload_requested Q st st'"
proof -
  have sync: "same_uploads st st'"
    if "execute_sync (zperf_udp_upload P (Some param) (Some results_zero) st0) stats name = Some (Inr (status, st')) \<or>
      execute_sync (zperf_tcp_upload P (Some param) (Some results_zero) st0) stats name = Some (Inr (status, st'))"
      and "same_uploads st st0" for st0 stats name
    using that sync_upload_frame execute_sync_frame [of _ stats name status st' st]
    by (fastforce simp: same_uploads_def)
  show ?thesis
    using assms sync execute_async_frame
    by (fastforce simp: execute_upload_def config_defs Let_def split: sum.splits if_splits)
qed

lemma shell_upload_frame:
  assumes "shell_cmd_upload P Q is_udp argv st = Some (Inr (status, st'))"
  shows "same_uploads st st' \<or> upload_requested Q st st'"
  using assms execute_upload_frame [of P Q _ is_udp _ "emit _ st" status st']
  by (fastforce simp: shell_cmd_upload_def upload_requested_def split: sum.splits prod.splits)

lemma download_memory:
  "zperf_udp_download P R prm cb ud ust = Inr (r, ust') \<Longrightarrow> memory_of ust' = memory_of ust"
  "zperf_tcp_download P R prm cb ud tst = Inr (r, tst') \<Longrightarrow> memory_of tst' = memory_of tst"
  by (auto simp: zperf_udp_download_def zperf_tcp_download_def memory_of_def Let_def
      split: option.splits if_splits sum.splits)

lemma download_answer_frame [simp]:
  "upload_work (snd (download_answer name ret port st)) = upload_work st"
  "upload_ctx (snd (download_answer name ret port st)) = upload_ctx st"
  by (simp_all add: download_answer_def emit_def)

lemma cmd_udp_download_frame:
  assumes "cmd_udp_download P R argv (st, srv) = Inr (status, st', srv')"
  shows "same_uploads st st' \<and> (srv' = srv \<or> (\<exists>prm cb ud r. zperf_udp_download P R prm cb ud srv = Inr (r, srv')))"
proof -
  from assms obtain ret t param where bind: "zperf_bind_host P argv download_params_zero = Inr (ret, t, param)"
    by (auto simp: cmd_udp_download_def CONFIG_NET_UDP_def fbind_Inr_iff)
  show ?thesis
  proof (cases "ret < 0")
    case True
    with assms bind show ?thesis by (clarsimp simp: cmd_udp_download_def CONFIG_NET_UDP_def)
  next
    case False
    with assms bind obtain r where call: "zperf_udp_download P R (Some param) (Some UDP_SESSION_CB) SHELL_HANDLE srv = Inr (r, srv')"
      and "st' = snd (download_answer ''UDP'' r (dp_port param) (if 0 \<le> r then k_yield P (emit t st) else emit t st))"
      by (auto simp: cmd_udp_download_def CONFIG_NET_UDP_def fbind_Inr_iff Let_def case_prod_beta)
    then have "same_uploads st st'" by (simp add: k_yield_def same_uploads_def emit_def)
    with call show ?thesis by blast
  qed
qed

lemma cmd_tcp_download_frame:
  assumes "cmd_tcp_download P R argv (st, srv) = Inr (status, st', srv')"
  shows "same_uploads st st' \<and> (srv' = srv \<or> (\<exists>prm cb ud r. zperf_tcp_download P R prm cb ud srv = Inr (r, srv')))"
proof -
  from assms obtain ret t param where bind: "zperf_bind_host P argv download_params_zero = Inr (ret, t, param)"
    by (auto simp: cmd_tcp_download_def CONFIG_NET_TCP_def fbind_Inr_iff)
  show ?thesis
  proof (cases "ret < 0")
    case True
    with assms bind show ?thesis by (clarsimp simp: cmd_tcp_download_def CONFIG_NET_TCP_def)
  next
    case False
    with assms bind obtain r where call: "zperf_tcp_download P R (Some param) (Some TCP_SESSION_CB) SHELL_HANDLE srv = Inr (r, srv')"
      and "st' = snd (download_answer ''TCP'' r (dp_port param) (emit t st))"
      by (auto simp: cmd_tcp_download_def CONFIG_NET_TCP_def fbind_Inr_iff Let_def case_prod_beta)
    then have "same_uploads st st'" by (simp add: k_yield_def same_uploads_def emit_def)
    with call show ?thesis by blast
  qed
qed

lemma shell_task_effect:
  assumes "shell_task P Q R args sys = Some (Inr sys')"
  obtains (uploads) "sys_udp sys' = sys_udp sys" "sys_tcp sys' = sys_tcp sys"
      "same_uploads (sys_shell sys) (sys_shell sys') \<or> upload_requested Q (sys_shell sys) (sys_shell sys')"
    | (udp) prm cb ud r where "zperf_udp_download P R prm cb ud (sys_udp sys) = Inr (r, sys_udp sys')"
      "sys_tcp sys' = sys_tcp sys" "same_uploads (sys_shell sys) (sys_shell sys')"
    | (tcp) prm cb ud r where "zperf_tcp_download P R prm cb ud (sys_tcp sys) = Inr (r, sys_tcp sys')"
      "sys_udp sys' = sys_udp sys" "same_uploads (sys_shell sys) (sys_shell sys')"
proof -
  consider (print) t where "sys' = sys\<lparr>sys_shell := emit t (sys_shell sys)\<rparr>"
    | (upload) is_udp argv status st where "shell_cmd_upload P Q is_udp argv (sys_shell sys) = Some (Inr (status, st))"
      "sys' = sys\<lparr>sys_shell := st\<rparr>"
    | (u) argv status st srv where "cmd_udp_download P R argv (sys_shell sys, sys_udp sys) = Inr (status, st, srv)"
      "sys' = sys\<lparr>sys_shell := st, sys_udp := srv\<rparr>"
    | (t) argv status st srv where "cmd_tcp_download P R argv (sys_shell sys, sys_tcp sys) = Inr (status, st, srv)"
      "sys' = sys\<lparr>sys_shell := st, sys_tcp := srv\<rparr>"
    using assms
    by (auto simp: shell_task_def Let_def fbind_Inr_iff split: if_splits list.splits)
  then show thesis
  proof cases
    case print
    then show thesis by (intro uploads) simp_all
  next
    case upload
    with shell_upload_frame [OF upload(1)] show thesis by (intro uploads) simp_all
  next
    case u
    with cmd_udp_download_frame [OF u(1)] uploads udp show thesis by auto
  next
    case t
    with cmd_tcp_download_frame [OF t(1)] uploads tcp show thesis by auto
  qed
qed

section \<open>The abstract program\<close>

text \<open>
  What the program promises as a whole: two servers, each at a phase of its life, and a queue of uploads
  without duplicates; one of the three moves at a time.
\<close>

type_synonym program_abs = "server_phase \<times> server_phase \<times> work_item list"

inductive program_spec :: "program_abs \<Rightarrow> program_abs \<Rightarrow> bool" where
  udp_moves: "life_step a a' \<Longrightarrow> program_spec (a, b, q) (a', b, q)"
| tcp_moves: "life_step b b' \<Longrightarrow> program_spec (a, b, q) (a, b', q)"
| queue_moves: "upload_queue q l = Some q' \<Longrightarrow> program_spec (a, b, q) (a, b, q')"

definition program_abs :: "('q \<Rightarrow> work_item list) \<Rightarrow> ('w, 'q, 's) program \<Rightarrow> program_abs" where
  "program_abs items p =
     (udp_phase (prog_udp p), tcp_phase (prog_tcp p), work_queued items (upload_work (prog_shell p)))"

section \<open>The invariant of the program\<close>

definition program_inv ::
  "(work_item, 'q) rtos_queue \<Rightarrow> ('s \<Rightarrow> nat) \<Rightarrow> ('s \<Rightarrow> nat) \<Rightarrow> ('q \<Rightarrow> work_item list) \<Rightarrow> ('q \<Rightarrow> nat) \<Rightarrow>
   ('w, 'q, 's) program \<Rightarrow> bool" where
  "program_inv Q cnt cap items qcap p \<longleftrightarrow> udp_inv cnt cap (udp_view p) \<and> tcp_inv cnt cap (tcp_view p) \<and>
     async_inv Q items qcap (async_view p)"

lemma keeps_row_world [simp]: "keeps_row i m (m\<lparr>mem_world := w\<rparr>)"
  by (simp add: keeps_row_def)

lemma phase_view [simp]: "udp_phase (apsnd (with_memory m) u) = udp_phase u" "tcp_phase (apsnd (with_memory m) t) = tcp_phase t"
  by (simp_all add: udp_phase_def tcp_phase_def with_memory_def)

lemma view_memory [simp]: "apsnd (with_memory (memory_of (snd c))) c = c"
  by (cases c) simp

lemma view_view [simp]: "apsnd (with_memory m) (apsnd (with_memory m') c) = apsnd (with_memory m) c"
  by (cases c) simp

text \<open>The uploads see only the queue and the contexts of the shell's state.\<close>

lemma async_view_inv:
  "async_inv Q items qcap (async_view p) = async_inv Q items qcap (prog_worker p, async_state.truncate (prog_shell p))"
  unfolding async_view_def shell_view_def by (rule async_inv_cong) (simp_all add: async_state.truncate_def)

lemma truncate_uploads [simp]:
  "upload_work (async_state.truncate st) = upload_work st" "upload_ctx (async_state.truncate st) = upload_ctx st"
  by (simp_all add: async_state.truncate_def)

lemma extend_simps [simp]:
  "async_state.truncate (async_state.extend st z) = st" "upload_work (async_state.extend st z) = upload_work st"
  by (simp_all add: async_state.truncate_def async_state.extend_def)

lemma requested_inv:
  assumes "upload_requested Q st st'" and "async_inv Q items qcap (pc, async_state.truncate st)"
  shows "async_inv Q items qcap (pc, async_state.truncate st') \<and>
    (\<exists>l. upload_queue (work_queued items (upload_work st)) l = Some (work_queued items (upload_work st')))"
proof -
  from assms(1) obtain item param cb ud r and st0 st1 :: "('b, 'a) shell_state" where
    call: "upload_async Q item param cb ud st0 = Inr (r, st1)" and same: "same_uploads st st0" "same_uploads st1 st'"
    unfolding upload_requested_def by blast
  define a0 a1 where a: "a0 = async_state.truncate st0" "a1 = async_state.truncate st1"
  have "upload_async Q item param cb ud a0 = Inr (r, a1)"
    using call unfolding a
    by (auto simp: upload_async_def zperf_async_work_submit_def async_state.truncate_def Let_def
        split: option.splits if_splits sum.splits)
  moreover have inv0: "async_inv Q items qcap (pc, a0)"
    using assms(2) same(1) async_inv_cong [of a0 "async_state.truncate st"] by (simp add: same_uploads_def a)
  ultimately have "async_inv Q items qcap (pc, a1) \<and>
      (\<exists>l. upload_queue (work_queued items (upload_work a0)) l = Some (work_queued items (upload_work a1)))"
    by (cases rule: upload_async_cases [OF inv0, where p = item and param = param and cb = cb and ud = ud])
      (auto intro: exI [of _ Internal] exI [of _ "Submitted item"])
  with same(2) async_inv_cong [of "async_state.truncate st'" a1] same(1) show ?thesis
    by (simp add: same_uploads_def a)
qed

lemma program_udp_step:
  assumes laws: "sem_laws R cnt cap" and inv: "program_inv Q cnt cap items qcap p" and step: "udp_step P R (udp_view p) c"
  shows "program_inv Q cnt cap items qcap (put_udp c p) \<and> program_spec (program_abs items p) (program_abs items (put_udp c p)) \<and>
    keeps_row 1 (prog_mem p) (prog_mem (put_udp c p))"
proof -
  from inv have parts: "sem_laws R cnt cap \<and> udp_inv cnt cap (apsnd (with_memory (prog_mem p)) (prog_udp p))"
    "sem_laws R cnt cap \<and> tcp_inv cnt cap (apsnd (with_memory (prog_mem p)) (prog_tcp p))"
    using laws by (simp_all add: program_inv_def udp_view_def tcp_view_def)
  note own = udp_part.own_step [OF parts(1) step [unfolded udp_view_def]]
  have "life_step (udp_phase (udp_view p)) (udp_phase c)"
    using udp_step_simulates [OF laws _ step] inv by (simp add: program_inv_def)
  then have "program_spec (program_abs items p) (program_abs items (put_udp c p))"
    by (simp add: program_abs_def put_udp_def udp_view_def program_spec.udp_moves)
  with own tcp_part.other_step [OF parts(2) own(2)] inv show ?thesis
    by (simp add: program_inv_def udp_view_def tcp_view_def async_view_inv put_udp_def)
qed

lemma program_tcp_step:
  assumes laws: "sem_laws R cnt cap" and inv: "program_inv Q cnt cap items qcap p" and step: "tcp_step P R (tcp_view p) c"
  shows "program_inv Q cnt cap items qcap (put_tcp c p) \<and> program_spec (program_abs items p) (program_abs items (put_tcp c p)) \<and>
    keeps_row 0 (prog_mem p) (prog_mem (put_tcp c p))"
proof -
  from inv have parts: "sem_laws R cnt cap \<and> tcp_inv cnt cap (apsnd (with_memory (prog_mem p)) (prog_tcp p))"
    "sem_laws R cnt cap \<and> udp_inv cnt cap (apsnd (with_memory (prog_mem p)) (prog_udp p))"
    using laws by (simp_all add: program_inv_def udp_view_def tcp_view_def)
  note own = tcp_part.own_step [OF parts(1) step [unfolded tcp_view_def]]
  have "life_step (tcp_phase (tcp_view p)) (tcp_phase c)"
    using tcp_step_simulates [OF laws _ step] inv by (simp add: program_inv_def)
  then have "program_spec (program_abs items p) (program_abs items (put_tcp c p))"
    by (simp add: program_abs_def put_tcp_def tcp_view_def program_spec.tcp_moves)
  with own udp_part.other_step [OF parts(2) own(2)] inv show ?thesis
    by (simp add: program_inv_def udp_view_def tcp_view_def async_view_inv put_tcp_def)
qed

text \<open>The worker and the shell change no row of the table.\<close>

lemma servers_keep_world:
  assumes "program_inv Q cnt cap items qcap p"
  shows "udp_inv cnt cap (apsnd (with_memory ((prog_mem p)\<lparr>mem_world := w\<rparr>)) (prog_udp p))"
    and "tcp_inv cnt cap (apsnd (with_memory ((prog_mem p)\<lparr>mem_world := w\<rparr>)) (prog_tcp p))"
  using assms udp_inv_stable [of cnt cap "udp_view p" "(prog_mem p)\<lparr>mem_world := w\<rparr>"]
    tcp_inv_stable [of cnt cap "tcp_view p" "(prog_mem p)\<lparr>mem_world := w\<rparr>"]
  by (simp_all add: program_inv_def udp_view_def tcp_view_def)

lemma program_async_step:
  assumes inv: "program_inv Q cnt cap items qcap p" and step: "async_step P Q (async_view p) l c"
  shows "program_inv Q cnt cap items qcap (put_async c p) \<and> program_spec (program_abs items p) (program_abs items (put_async c p)) \<and>
    mem_sessions (prog_mem (put_async c p)) = mem_sessions (prog_mem p)"
proof -
  have "async_inv Q items qcap (async_view p)" using inv by (simp add: program_inv_def)
  from async_step_simulates [OF this step]
  have sim: "upload_queue (work_queued items (upload_work (prog_shell p))) l = Some (work_queued items (upload_work (snd c)))"
    "async_inv Q items qcap c" by (simp_all add: async_view_def shell_view_def)
  from sim(1) have "program_spec (program_abs items p) (program_abs items (put_async c p))"
    by (simp add: program_abs_def put_async_def put_shell_def program_spec.queue_moves)
  with sim(2) servers_keep_world [OF inv] show ?thesis
    by (simp add: program_inv_def udp_view_def tcp_view_def async_view_inv put_async_def put_shell_def)
qed

lemma put_system_inv:
  assumes "udp_inv cnt cap (fst (prog_udp p), sys_udp sys)" "memory_of (sys_udp sys) = prog_mem p"
    and "tcp_inv cnt cap (fst (prog_tcp p), sys_tcp sys)" "memory_of (sys_tcp sys) = prog_mem p"
    and "async_inv Q items qcap (prog_worker p, async_state.truncate (sys_shell sys))"
  shows "program_inv Q cnt cap items qcap (put_system sys p)"
  using udp_inv_stable [OF assms(1), of "(prog_mem p)\<lparr>mem_world := world (sys_shell sys)\<rparr>"]
    tcp_inv_stable [OF assms(3), of "(prog_mem p)\<lparr>mem_world := world (sys_shell sys)\<rparr>"] assms(2,4,5)
  by (simp add: program_inv_def udp_view_def tcp_view_def async_view_inv put_system_def put_shell_def)

lemma program_shell_step:
  assumes laws: "sem_laws R cnt cap" and inv: "program_inv Q cnt cap items qcap p"
    and step: "shell_task P Q R args (system_view p) = Some (Inr sys)"
  shows "program_inv Q cnt cap items qcap (put_system sys p) \<and>
    program_spec (program_abs items p) (program_abs items (put_system sys p)) \<and>
    mem_sessions (prog_mem (put_system sys p)) = mem_sessions (prog_mem p)"
proof -
  have sys: "sys_udp (system_view p) = snd (udp_view p)" "sys_tcp (system_view p) = snd (tcp_view p)"
    "sys_shell (system_view p) = shell_view p" "memory_of (snd (udp_view p)) = prog_mem p"
    "memory_of (snd (tcp_view p)) = prog_mem p" by (simp_all add: system_view_def udp_view_def tcp_view_def)
  have view: "(fst (prog_udp p), snd (udp_view p)) = udp_view p" "(fst (prog_tcp p), snd (tcp_view p)) = tcp_view p"
    by (simp_all add: udp_view_def tcp_view_def apsnd_def map_prod_def split: prod.split)
  have parts: "udp_inv cnt cap (udp_view p)" "tcp_inv cnt cap (tcp_view p)"
    "async_inv Q items qcap (prog_worker p, async_state.truncate (shell_view p))"
    using inv by (simp_all add: program_inv_def async_view_def)
  have quiet: "async_inv Q items qcap (prog_worker p, async_state.truncate (sys_shell sys))"
    if "same_uploads (shell_view p) (sys_shell sys)"
    using parts(3) that async_inv_cong [of "async_state.truncate (sys_shell sys)" "async_state.truncate (shell_view p)"]
    by (simp add: same_uploads_def)
  have "program_inv Q cnt cap items qcap (put_system sys p) \<and> program_spec (program_abs items p) (program_abs items (put_system sys p))"
    using step
  proof (cases rule: shell_task_effect)
    case uploads
    have "async_inv Q items qcap (prog_worker p, async_state.truncate (sys_shell sys)) \<and>
        (\<exists>l. upload_queue (work_queued items (upload_work (prog_shell p))) l = Some (work_queued items (upload_work (sys_shell sys))))"
      using uploads(3) quiet requested_inv [OF _ parts(3), of "sys_shell sys"]
      by (auto simp: sys same_uploads_def shell_view_def intro: exI [of _ Internal])
    then show ?thesis
      using uploads(1,2) parts sys view put_system_inv [of cnt cap p sys Q items qcap]
      by (auto simp: program_abs_def put_system_def put_shell_def udp_view_def tcp_view_def intro: program_spec.queue_moves)
  next
    case (udp prm cb ud r)
    have st: "udp_step P R (udp_view p) (fst (prog_udp p), sys_udp sys)"
      using udp_step.download [OF udp(1), of "fst (prog_udp p)"] by (simp add: sys view)
    show ?thesis
      using udp_step_simulates [OF laws parts(1) st] udp_inv_step [OF laws st parts(1)] quiet parts(2) udp(2,3)
        download_memory(1) [OF udp(1)] put_system_inv [of cnt cap p sys Q items qcap] view
      by (auto simp: sys program_abs_def put_system_def put_shell_def udp_view_def tcp_view_def same_uploads_def shell_view_def
          intro: program_spec.udp_moves)
  next
    case (tcp prm cb ud r)
    have st: "tcp_step P R (tcp_view p) (fst (prog_tcp p), sys_tcp sys)"
      using tcp_step.download [OF tcp(1), of "fst (prog_tcp p)"] by (simp add: sys view)
    show ?thesis
      using tcp_step_simulates [OF laws parts(2) st] tcp_inv_step [OF laws st parts(2)] quiet parts(1) tcp(2,3)
        download_memory(2) [OF tcp(1)] put_system_inv [of cnt cap p sys Q items qcap] view
      by (auto simp: sys program_abs_def put_system_def put_shell_def udp_view_def tcp_view_def same_uploads_def shell_view_def
          intro: program_spec.tcp_moves)
  qed
  then show ?thesis by (simp add: put_system_def put_shell_def)
qed

lemma program_step_keeps:
  assumes laws: "sem_laws R cnt cap" and inv: "program_inv Q cnt cap items qcap p" and step: "program_step P Q R p p'"
  shows "program_inv Q cnt cap items qcap p'" and "program_spec (program_abs items p) (program_abs items p')"
  using step program_udp_step [OF laws inv] program_tcp_step [OF laws inv] program_async_step [OF inv]
    program_shell_step [OF laws inv]
  by (auto elim!: program_step.cases)

lemma zperf_init_uploads_empty:
  assumes "queue_laws Q items qcap" and "zperf_init_uploads Q (async_static w) = Inr st"
  shows "work_queued items (upload_work st) = []"
proof -
  from assms(2) obtain q where q: "xQueueCreate Q DEFAULT_QUEUE_SIZE = Some q"
    by (auto simp: zperf_init_uploads_def k_work_queue_init_def split: option.splits)
  with queue_lawsD(1) [OF assms(1) q] assms(2) show ?thesis
    by (auto simp: zperf_init_uploads_def k_work_queue_init_def zperf_udp_uploader_init_def
        zperf_tcp_uploader_init_def k_work_init_def async_static_def work_queued_def)
qed

lemma program_init:
  assumes laws: "queue_laws Q items qcap" and init: "zperf_init P Q K (machine_static w k) = Inr (0, m)"
  shows "program_inv Q cnt cap items qcap (program_of m)" and "program_abs items (program_of m) = (Phase_off, Phase_off, [])"
proof -
  note start = zperf_init_state [OF init]
  have tcp: "with_memory (memory_of (sys_udp m)) (sys_tcp m) = sys_tcp m"
    using start by (simp add: with_memory_def memory_of_def udp_server_initial_def tcp_server_initial_def)
  have async: "async_inv Q items qcap (Worker_idle, async_state.truncate (sys_shell m))"
    by (rule async_inv_init [OF laws, where w = w]) (use start in simp)
  have "udp_inv cnt cap (Server_created, sys_udp m)" "tcp_inv cnt cap (Server_created, sys_tcp m)"
    using start by (simp_all add: udp_inv_initial tcp_inv_initial)
  with tcp async show "program_inv Q cnt cap items qcap (program_of m)"
    by (simp add: program_inv_def udp_view_def tcp_view_def async_view_inv program_of_def)
  from start laws have "work_queued items (upload_work (sys_shell m)) = []"
    using zperf_init_uploads_empty [OF laws] by fastforce
  then show "program_abs items (program_of m) = (Phase_off, Phase_off, [])"
    by (simp add: program_abs_def program_of_def udp_phase_def tcp_phase_def)
qed

lemma program_reachable_inv:
  assumes "sem_laws R cnt cap" and "queue_laws Q items qcap" and "program_reachable P Q R K p"
  shows "program_inv Q cnt cap items qcap p \<and> program_spec\<^sup>*\<^sup>* (Phase_off, Phase_off, []) (program_abs items p)"
  using assms(3)
proof (induction rule: program_reachable.induct)
  case (init w k m)
  with program_init [OF assms(2) init] show ?case by simp
next
  case (step p p')
  with program_step_keeps [OF assms(1)] show ?case by (meson rtranclp.rtrancl_into_rtrancl)
qed

text \<open>Seen from the whole program, each server is still a walk of its automaton.\<close>

lemma program_spec_phases: "program_spec (a, b, q) (a', b', q') \<Longrightarrow> life_step a a' \<and> life_step b b'"
  by (auto elim!: program_spec.cases intro: life_step.refused)

interpretation program_udp: server_thread "program_step P Q R"
  "\<lambda>p. sem_laws R cnt cap \<and> program_inv Q cnt cap items qcap p" "\<lambda>p. udp_phase (prog_udp p)" for P Q R cnt cap items qcap
proof (unfold_locales, goal_cases)
  case (1 p p')
  then show ?case using program_step_keeps(1) by blast
next
  case (2 p p')
  then have "program_spec (program_abs items p) (program_abs items p')" using program_step_keeps(2) by blast
  then show ?case unfolding program_abs_def by (simp add: program_spec_phases)
qed

interpretation program_tcp: server_thread "program_step P Q R"
  "\<lambda>p. sem_laws R cnt cap \<and> program_inv Q cnt cap items qcap p" "\<lambda>p. tcp_phase (prog_tcp p)" for P Q R cnt cap items qcap
proof (unfold_locales, goal_cases)
  case (1 p p')
  then show ?case using program_step_keeps(1) by blast
next
  case (2 p p')
  then have "program_spec (program_abs items p) (program_abs items p')" using program_step_keeps(2) by blast
  then show ?case unfolding program_abs_def by (simp add: program_spec_phases)
qed

section \<open>A concrete program\<close>

text \<open>A scheduler that counts the tasks it has created.\<close>

definition demo_tasks :: "(nat, nat) task_create" where
  "demo_tasks = \<lparr>xTaskCreate = \<lambda>f name k. (Some k, k + 1)\<rparr>"

type_synonym demo_machine = "(demo_world, work_item list \<times> nat, nat \<times> nat, nat, nat) machine"

lemma demo_machine_init:
  "\<exists>m :: demo_machine. zperf_init demo_platform demo_queue demo_tasks (machine_static demo_start 0) = Inr (0, m)"
  by (simp add: zperf_init_def k_work_queue_init_def demo_queue_def k_work_queue_start_def demo_tasks_def
      zperf_udp_receiver_init_def zperf_tcp_receiver_init_def k_thread_create_def Let_def)

text \<open>The first step of the UDP server's thread, which creates its semaphore.\<close>

lemma demo_udp_init:
  assumes "zperf_init demo_platform demo_queue demo_tasks (machine_static demo_start 0) = Inr (0, m :: demo_machine)"
  shows "\<exists>st. udp_step demo_platform demo_rtos (udp_view (program_of m)) (Server_waiting, st) \<and> \<not> udp_server_running st"
proof -
  have udp: "sys_udp m = udp_server_initial demo_start" using zperf_init_state [OF assms] by simp
  then have "\<exists>sem. k_sem_init demo_rtos (udp_server_run (sys_udp m)) (initial_count (udp_server_run (sys_udp m)))
      (max_count (udp_server_run (sys_udp m))) = Inr sem"
    by (simp add: k_sem_init_def demo_rtos_def udp_server_initial_def K_SEM_DEFINE_def)
  then obtain sem where "udp_step demo_platform demo_rtos (Server_created, sys_udp m)
      (Server_waiting, sys_udp m\<lparr>udp_server_run := sem\<rparr>)" using udp_step.init by blast
  with udp show ?thesis by (auto simp: udp_view_def program_of_def udp_server_initial_def)
qed

lemma demo_idle_program:
  "\<exists>p :: (demo_world, work_item list \<times> nat, nat \<times> nat) program.
     program_reachable demo_platform demo_queue demo_rtos demo_tasks p \<and> prog_worker p = Worker_idle \<and>
     program_abs fst p = (Phase_idle, Phase_off, [])"
proof -
  obtain m :: demo_machine where m: "zperf_init demo_platform demo_queue demo_tasks (machine_static demo_start 0) = Inr (0, m)"
    using demo_machine_init by blast
  then obtain st where st: "udp_step demo_platform demo_rtos (udp_view (program_of m)) (Server_waiting, st)"
    "\<not> udp_server_running st" using demo_udp_init by blast
  let ?p = "put_udp (Server_waiting, st) (program_of m)"
  have "program_step demo_platform demo_queue demo_rtos (program_of m) ?p"
    by (rule program_step.udp [OF _ st(1)]) (simp add: program_of_def)
  then have "program_reachable demo_platform demo_queue demo_rtos demo_tasks ?p"
    using program_reachable.init [OF m] program_reachable.step by blast
  moreover have "program_abs fst ?p = (Phase_idle, Phase_off, [])"
    using program_init(2) [OF demo_queue_laws m] st(2) by (simp add: program_abs_def put_udp_def udp_phase_def program_of_def)
  ultimately show ?thesis by (intro exI [of _ ?p]) (simp add: put_udp_def program_of_def)
qed

section \<open>Properties\<close>

text \<open>
  C10. In every state the threads and the shell can bring the program to, in whatever order they run, the
  session table they share is well formed and the statistics of every UDP slot balance, the descriptors
  each server has open are those of its poll array, and no upload waits twice.
\<close>

theorem program_invariant:
  assumes "sem_laws R cnt cap" and "queue_laws Q items qcap" and "program_reachable P Q R K p"
  shows "sessions_wf (mem_sessions (prog_mem p)) \<and>
    (\<forall>s \<in> set (mem_sessions (prog_mem p) ! proto_index SESSION_UDP).
       ses_next_id s = 1 + ses_error s + (ses_counter s - ses_outorder s)) \<and>
    (\<forall>fd. balance (trace (snd (prog_udp p))) fd = pc_open (fst (prog_udp p)) fd) \<and>
    (\<forall>fd \<ge> 0. balance (trace (snd (prog_tcp p))) fd =
       (if fst (prog_tcp p) = Server_polling () then fds_open (tcp_fds (snd (prog_tcp p))) fd else 0)) \<and>
    distinct (work_queued items (upload_work (prog_shell p)))"
proof -
  have inv: "program_inv Q cnt cap items qcap p" using program_reachable_inv [OF assms] by simp
  then have "async_inv Q items qcap (prog_worker p, async_state.truncate (prog_shell p))"
    by (simp add: program_inv_def async_view_inv)
  then have "distinct (work_queued items (upload_work (prog_shell p)))" by (simp add: async_inv_def work_queue_ok_def)
  moreover from inv have "udp_inv cnt cap (udp_view p)" "tcp_inv cnt cap (tcp_view p)" by (simp_all add: program_inv_def)
  ultimately show ?thesis
    by (simp add: udp_inv_def tcp_inv_def udp_table_ok_def loss_balanced_def udp_view_def tcp_view_def with_memory_def)
qed

theorem program_invariant_witness:
  "\<exists>m :: demo_machine. zperf_init demo_platform demo_queue demo_tasks (machine_static demo_start 0) = Inr (0, m) \<and>
     sessions_wf (mem_sessions (prog_mem (program_of m)))"
proof -
  obtain m :: demo_machine where m: "zperf_init demo_platform demo_queue demo_tasks (machine_static demo_start 0) = Inr (0, m)"
    using demo_machine_init by blast
  with program_invariant [OF demo_sem_laws demo_queue_laws program_reachable.init [OF m]] show ?thesis by blast
qed

text \<open>
  C11. The program refines its abstract counterpart: every state it reaches lies on a run of two server
  automata and a queue of uploads without duplicates, and every step of any thread or command is a step
  of one of the three. A session that has been told to stop does nothing but end, whatever else runs.
\<close>

theorem program_refines_spec:
  assumes "sem_laws R cnt cap" and "queue_laws Q items qcap" and "program_reachable P Q R K p"
  shows "program_spec\<^sup>*\<^sup>* (Phase_off, Phase_off, []) (program_abs items p) \<and>
    (\<forall>p'. program_step P Q R p p' \<longrightarrow> program_spec (program_abs items p) (program_abs items p')) \<and>
    (\<forall>p'. (program_step P Q R)\<^sup>*\<^sup>* p p' \<longrightarrow> udp_phase (prog_udp p) = Phase_serving True \<longrightarrow>
      udp_phase (prog_udp p') = Phase_serving True \<or>
      (\<exists>d. (program_step P Q R)\<^sup>*\<^sup>* p d \<and> (program_step P Q R)\<^sup>*\<^sup>* d p' \<and> udp_phase (prog_udp d) = Phase_ending)) \<and>
    (\<forall>p'. (program_step P Q R)\<^sup>*\<^sup>* p p' \<longrightarrow> tcp_phase (prog_tcp p) = Phase_serving True \<longrightarrow>
      tcp_phase (prog_tcp p') = Phase_serving True \<or>
      (\<exists>d. (program_step P Q R)\<^sup>*\<^sup>* p d \<and> (program_step P Q R)\<^sup>*\<^sup>* d p' \<and> tcp_phase (prog_tcp d) = Phase_ending))"
proof -
  have inv: "sem_laws R cnt cap \<and> program_inv Q cnt cap items qcap p" using program_reachable_inv [OF assms] assms(1) by simp
  from program_reachable_inv [OF assms] program_step_keeps(2) [OF assms(1)]
    program_udp.stop_is_kept [OF _ inv] program_tcp.stop_is_kept [OF _ inv] show ?thesis by blast
qed

theorem program_refines_spec_witness:
  "\<exists>m :: demo_machine. zperf_init demo_platform demo_queue demo_tasks (machine_static demo_start 0) = Inr (0, m) \<and>
     program_spec\<^sup>*\<^sup>* (Phase_off, Phase_off, []) (program_abs fst (program_of m))"
proof -
  obtain m :: demo_machine where m: "zperf_init demo_platform demo_queue demo_tasks (machine_static demo_start 0) = Inr (0, m)"
    using demo_machine_init by blast
  with program_refines_spec [OF demo_sem_laws demo_queue_laws program_reachable.init [OF m]] show ?thesis by blast
qed

text \<open>
  C12. The sessions of one server are safe from the rest of the program: a step after which a UDP session
  differs is a step of the UDP server, and the same for TCP. So a running measurement is not disturbed by
  uploads, commands or the other server, although all share one table.
\<close>

theorem program_sessions_private:
  assumes "sem_laws R cnt cap" and "queue_laws Q items qcap" and "program_reachable P Q R K p"
    and "program_step P Q R p p'"
  shows "(mem_sessions (prog_mem p') ! proto_index SESSION_UDP = mem_sessions (prog_mem p) ! proto_index SESSION_UDP \<or>
      (\<exists>c. udp_step P R (udp_view p) c \<and> p' = put_udp c p)) \<and>
    (mem_sessions (prog_mem p') ! proto_index SESSION_TCP = mem_sessions (prog_mem p) ! proto_index SESSION_TCP \<or>
      (\<exists>c. tcp_step P R (tcp_view p) c \<and> p' = put_tcp c p))"
proof -
  have inv: "program_inv Q cnt cap items qcap p" using program_reachable_inv [OF assms(1-3)] by simp
  note steps = program_udp_step [OF assms(1) inv] program_tcp_step [OF assms(1) inv] program_async_step [OF inv]
    program_shell_step [OF assms(1) inv]
  from assms(4) show ?thesis
  proof (cases rule: program_step.cases)
    case (udp c)
    with steps(1) [of P c] show ?thesis by (auto simp: keeps_row_def simp del: split_paired_Ex)
  next
    case (tcp c)
    with steps(2) [of P c] show ?thesis by (auto simp: keeps_row_def simp del: split_paired_Ex)
  next
    case (async l c)
    with steps(3) [of P l c] show ?thesis by simp
  next
    case (shell args sys)
    with steps(4) [of P args sys] show ?thesis by simp
  qed
qed

theorem program_sessions_private_witness:
  "\<exists>(m :: demo_machine) c. zperf_init demo_platform demo_queue demo_tasks (machine_static demo_start 0) = Inr (0, m) \<and>
     udp_step demo_platform demo_rtos (udp_view (program_of m)) c \<and>
     (mem_sessions (prog_mem (put_udp c (program_of m))) ! 1 = mem_sessions (prog_mem (program_of m)) ! 1 \<or>
      (\<exists>d. tcp_step demo_platform demo_rtos (tcp_view (program_of m)) d \<and> put_udp c (program_of m) = put_tcp d (program_of m)))"
proof -
  obtain m :: demo_machine where m: "zperf_init demo_platform demo_queue demo_tasks (machine_static demo_start 0) = Inr (0, m)"
    using demo_machine_init by blast
  then obtain c where c: "udp_step demo_platform demo_rtos (udp_view (program_of m)) c" using demo_udp_init by blast
  have "program_step demo_platform demo_queue demo_rtos (program_of m) (put_udp c (program_of m))"
    by (rule program_step.udp [OF _ c]) (simp add: program_of_def)
  from program_sessions_private [OF demo_sem_laws demo_queue_laws program_reachable.init [OF m] this] m c
  show ?thesis by (intro exI [of _ m] exI [of _ c]) (simp del: split_paired_Ex)
qed

end
