(* ===== verification/Zperf_Main.thy ===== *)
theory Zperf_Main
  imports Zperf_System
begin

text \<open>
  \<open>main\<close> of \<^verbatim>\<open>zperf_main.c\<close> and the small functions beside it, and the hooks of
  \<^verbatim>\<open>freertos/FreeRTOSCommonHooks.c\<close> that do something.

  What \<open>main\<close> calls of lwIP is the parameter \<open>net_start\<close>; the interface \<open>lpc_netif\<close>, whose fields lwIP
  manages, is part of the world. A failed \<open>LWIP_ASSERT\<close> ends the program, the fault \<open>Assertion_failed\<close>.
  \<open>vSetupIFTask\<close> is not used by the program and not modelled.
\<close>

section \<open>Delays and hooks\<close>

definition msDelay :: "'w platform \<Rightarrow> u32 \<Rightarrow> ('w, 'z) io_state_scheme \<Rightarrow> ('w, 'z) io_state_scheme" where
  "msDelay P ms st = st\<lparr>world := vTaskDelay P ((ucast (configTICK_RATE_HZ P) * ms) div 1000) (world st)\<rparr>"

text \<open>\<open>vTaskDelayUntil\<close> wakes the task \<open>ms\<close> ticks after the time in its first argument, here the present.\<close>

definition FreeRTOSDelay ::
  "(u32 \<Rightarrow> u32 \<Rightarrow> 'w \<Rightarrow> 'w) \<Rightarrow> 'w platform \<Rightarrow> u32 \<Rightarrow> ('w, 'z) io_state_scheme \<Rightarrow> ('w, 'z) io_state_scheme" where
  "FreeRTOSDelay vTaskDelayUntil P ms st =
     (let (xDelayTime, w) = xTaskGetTickCount P (world st) in st\<lparr>world := vTaskDelayUntil xDelayTime ms w\<rparr>)"

text \<open>What is printed before the program exits; \<open>file\<close> is the name the compiler has for the source file.\<close>

definition vAssertCalled :: "u32 \<Rightarrow> string \<Rightarrow> string" where
  "vAssertCalled ulLine pcFileName = ''[ASSERT] '' @ pcFileName @ '':'' @ fmt_u ulLine @ NL"

definition vApplicationMallocFailedHook :: "string \<Rightarrow> string" where
  "vApplicationMallocFailedHook file = vAssertCalled 103 file"

section \<open>Options\<close>

text \<open>Name, whether an argument is required, and the letter; the entry of zeros that ends the array is left out.\<close>

definition longopts :: "(string \<times> bool \<times> char) list" where
  "longopts = [(''debug'', False, CHR ''d''), (''help'', False, CHR ''h''), (''gateway'', True, CHR ''g''),
     (''ipaddr'', True, CHR ''i''), (''netmask'', True, CHR ''m'')]"

definition usage :: string where
  "usage = ''options:'' @ NL @ concat (map (\<lambda>(name, has_arg, val). ''-'' @ [val] @ '' --'' @ name @ NL) longopts)"

section \<open>Start-up\<close>

record ('w, 'k) net_start =
  lwip_init :: "'w \<Rightarrow> 'w"
  netif_add :: "in_addr \<Rightarrow> in_addr \<Rightarrow> in_addr \<Rightarrow> 'w \<Rightarrow> bool \<times> 'w"
  netif_create_ip6_linklocal_address :: "'w \<Rightarrow> 'w"
  netif_add_ip6_address_idx :: "in6_addr \<Rightarrow> int \<Rightarrow> 'w \<Rightarrow> bool \<times> int \<times> 'w"
  ip6_addr_state :: "'w \<Rightarrow> u8 list"
  set_ip6_addr_state :: "u8 list \<Rightarrow> 'w \<Rightarrow> 'w"
  IP6_ADDR_VALID :: u8
  netif_set_default :: "'w \<Rightarrow> 'w"
  netif_set_up :: "'w \<Rightarrow> 'w"
  LWIP_TCPIP_CORE_LOCKING :: bool
  sys_mutex_new :: "'w \<Rightarrow> bool \<times> 'w"
  sys_thread_new :: "string \<Rightarrow> 'k \<Rightarrow> 'k"

text \<open>The four bytes of an address in the order of the network.\<close>

definition IP4_ADDR :: "u32 \<Rightarrow> u32 \<Rightarrow> u32 \<Rightarrow> u32 \<Rightarrow> u32" where
  "IP4_ADDR a b c d = htonl (push_bit 24 a OR push_bit 16 b OR push_bit 8 c OR d)"

definition main_ip6addr :: in6_addr where
  "main_ip6addr = \<lparr>u32_addr0 = IP4_ADDR 0x20 0x01 0x0d 0xb8, u32_addr1 = IP4_ADDR 0 0 0 0,
     u32_addr2 = IP4_ADDR 0 0 0 0, u32_addr3 = IP4_ADDR 0 0 0 1\<rparr>"

text \<open>\<open>lpc_netif.ip6_addr_state[i] |= IP6_ADDR_VALID\<close>\<close>

definition mark_valid :: "('w, 'k) net_start \<Rightarrow> int \<Rightarrow> 'w \<Rightarrow> 'w faulty" where
  "mark_valid S i w =
     (let states = ip6_addr_state S w in
      if 0 \<le> i \<and> nat i < length states
      then Inr (set_ip6_addr_state S (states[nat i := states ! nat i OR IP6_ADDR_VALID S]) w)
      else Inl Out_of_bounds)"

text \<open>
  Lines 205 to 230: the interface. \<open>idx0\<close> is what the uninitialised variable \<open>idx\<close> holds; the result has
  what was printed.
\<close>

definition main_netif :: "('w, 'k) net_start \<Rightarrow> int \<Rightarrow> 'w \<Rightarrow> (string \<times> 'w) faulty" where
  "main_netif S idx0 w =
     (let (added, w1) = netif_add S (IP4_ADDR 192 168 0 2) (IP4_ADDR 255 255 255 0) (IP4_ADDR 192 168 0 1) (lwip_init S w)
      in if \<not> added then Inl Assertion_failed
         else
           let (ok, idx, w2) = netif_add_ip6_address_idx S main_ip6addr idx0 (netif_create_ip6_linklocal_address S w1);
               out = (if ok then [] else ''Can't add ipv6 address'' @ NL)
           in fbind (mark_valid S 0 w2) (\<lambda>w3. fbind (mark_valid S idx w3) (\<lambda>w4.
             let w5 = netif_set_up S (netif_set_default S w4) in
             if LWIP_TCPIP_CORE_LOCKING S then
               let (mutex, w6) = sys_mutex_new S w5 in if mutex then Inr (out, w6) else Inl Assertion_failed
             else Inr (out, w5))))"

text \<open>\<open>main\<close> up to the start of the scheduler.\<close>

definition main ::
  "('w, 'k) net_start \<Rightarrow> 'w platform \<Rightarrow> (work_item, 'q) rtos_queue \<Rightarrow> ('h, 'k) task_create \<Rightarrow> int \<Rightarrow> 'w \<Rightarrow> 'k \<Rightarrow>
   (string \<times> ('w, 'q, 's, 'h, 'k) machine) faulty" where
  "main S P Q K idx0 w k =
     fbind (main_netif S idx0 w) (\<lambda>(out, w').
     fbind (zperf_init P Q K (machine_static w' k)) (\<lambda>(ret, m).
     Inr (out, m\<lparr>scheduler := sys_thread_new S ''shell'' (scheduler m)\<rparr>)))"

section \<open>What \<open>main\<close> needs\<close>

lemma mark_valid_Inr: "mark_valid S i w = Inr w' \<Longrightarrow> 0 \<le> i \<and> nat i < length (ip6_addr_state S w)"
  by (auto simp: mark_valid_def Let_def split: if_splits)

lemma main_netif_Inr:
  assumes "main_netif S idx0 w = Inr (out, w')"
  obtains w1 ok idx w2 w3 where
    "netif_add S (IP4_ADDR 192 168 0 2) (IP4_ADDR 255 255 255 0) (IP4_ADDR 192 168 0 1) (lwip_init S w) = (True, w1)"
    "netif_add_ip6_address_idx S main_ip6addr idx0 (netif_create_ip6_linklocal_address S w1) = (ok, idx, w2)"
    "mark_valid S 0 w2 = Inr w3" "0 \<le> idx" "nat idx < length (ip6_addr_state S w3)" "ok \<longleftrightarrow> out = []"
  using assms
  by (auto simp: main_netif_def fbind_Inr_iff Let_def split: prod.splits if_splits dest: mark_valid_Inr)

lemma main_Inr:
  assumes "main S P Q K idx0 w k = Inr (out, m)"
  obtains w' m' where "main_netif S idx0 w = Inr (out, w')" "zperf_init P Q K (machine_static w' k) = Inr (0, m')"
    "m = m'\<lparr>scheduler := sys_thread_new S ''shell'' (scheduler m')\<rparr>"
  using assms zperf_init_state by (fastforce simp: main_def fbind_Inr_iff)

text \<open>The address of the interface is the one the shell is configured with, \<open>2001:db8::1\<close>.\<close>

lemma main_ip6addr_bytes:
  "main_ip6addr = \<lparr>u32_addr0 = 0xb80d0120, u32_addr1 = 0, u32_addr2 = 0, u32_addr3 = 0x01000000\<rparr>"
  unfolding main_ip6addr_def IP4_ADDR_def by code_simp

text \<open>A delay of \<open>ms\<close> milliseconds is rounded down to ticks, if the product fits its 32 bits.\<close>

lemma msDelay_ticks:
  assumes "unat (configTICK_RATE_HZ P) * unat ms < 2 ^ 32" and "configTICK_RATE_HZ P < 2 ^ 32"
  shows "msDelay P ms st = st\<lparr>world := vTaskDelay P (of_nat (unat (configTICK_RATE_HZ P) * unat ms div 1000)) (world st)\<rparr>"
proof -
  have "unat (configTICK_RATE_HZ P) < 2 ^ 32" using assms(2) by (simp add: word_less_nat_alt)
  then have "unat (ucast (configTICK_RATE_HZ P) :: u32) = unat (configTICK_RATE_HZ P)"
    by (simp add: unsigned_ucast_eq take_bit_nat_eq_self)
  with assms(1) have "unat (ucast (configTICK_RATE_HZ P) * ms) = unat (configTICK_RATE_HZ P) * unat ms"
    by (simp add: unat_word_ariths)
  then have "(ucast (configTICK_RATE_HZ P) * ms) div 1000 = (of_nat (unat (configTICK_RATE_HZ P) * unat ms div 1000) :: u32)"
    using div_le_dividend [of "unat (configTICK_RATE_HZ P) * unat ms" 1000] assms(1)
    by (simp add: word_unat_eq_iff unat_div unsigned_of_nat take_bit_nat_eq_self del: div_le_dividend of_nat_mult)
  then show ?thesis by (simp add: msDelay_def)
qed

end
