(* ===== verification/Spec2Isabelle.thy ===== *)
theory Spec2Isabelle
  imports Zperf_Transfer Zperf_Tcp_Properties Zperf_Async_Properties Zephyr_Net_Parse_Properties
    Zperf_Shell_Properties Zperf_Program Zperf_Main
begin

text \<open>
  A verification library for zperf on FreeRTOS and lwIP: a network benchmark that sends (uploads) or
  receives (downloads) UDP and TCP traffic and reports rates, losses and jitter. The code under
  \<^verbatim>\<open>src/zperf\<close> is Zephyr's zperf on top of a small layer that replaces the Zephyr kernel
  (\<^verbatim>\<open>src/zperf/zephyr\<close>) by FreeRTOS and lwIP.

  \<^bold>\<open>The parts and the theories that model them.\<close>

  \<^item> \<open>Zperf_Prelude\<close>: integer types, faults, byte order, 32-bit fields in byte buffers, array search.
    \<open>Zperf_Types\<close>: \<^verbatim>\<open>zperf.h\<close>, \<^verbatim>\<open>zperf_internal.h\<close>, \<^verbatim>\<open>zephyr/config.h\<close>. \<open>Zperf_Cstring\<close>: \<open>strtoul\<close>,
    \<open>strtol\<close> and the printing of numbers.
  \<^item> \<open>Zperf_Platform\<close>: the sockets of \<^verbatim>\<open>zephyr/net/socket.h\<close> and the clock of \<^verbatim>\<open>zephyr/thread.h\<close> over
    the parameter \<open>platform\<close> (lwIP and the FreeRTOS clock). \<open>Zephyr_Kernel\<close>: the time conversions of
    \<^verbatim>\<open>zephyr/kernel.c\<close>. \<open>Zephyr_Thread\<close>: semaphores and threads of \<^verbatim>\<open>zephyr/thread.c\<close> over \<open>rtos\<close> and
    \<open>rtos_tasks\<close>. \<open>Zephyr_Work\<close>: the work queue of \<^verbatim>\<open>zephyr/work.c\<close> over \<open>rtos_queue\<close>.
  \<^item> \<open>Zephyr_Net_Ip\<close> and \<open>Zephyr_Net_Parse\<close>: \<^verbatim>\<open>zephyr/net/net_ip.c\<close>, \<^verbatim>\<open>net_ip.h\<close>, \<^verbatim>\<open>net_core.c\<close> and
    \<^verbatim>\<open>net_if.c\<close>; the parser works on the memory of a C string, so that it can overrun it.
  \<^item> \<open>Zperf_Session\<close>: the session table of \<^verbatim>\<open>zperf_session.c\<close>. \<open>Zperf_Wire\<close>: the packet headers, the
    server's reply and its decoding. \<open>Zperf_Common\<close>: \<^verbatim>\<open>zperf_common.c\<close>. \<open>Zperf_Server_Control\<close>: what
    both servers share.
  \<^item> \<open>Zperf_Udp_Receiver\<close> and \<open>Zperf_Tcp_Receiver\<close>: \<^verbatim>\<open>zperf_udp_receiver.c\<close> and
    \<^verbatim>\<open>zperf_tcp_receiver.c\<close>, with the step relations \<open>udp_step\<close> and \<open>tcp_step\<close> that interleave the server
    thread with the control functions other tasks call.
  \<^item> \<open>Zperf_Udp_Uploader\<close> and \<open>Zperf_Tcp_Uploader\<close>: the uploads of \<^verbatim>\<open>zperf_udp_uploader.c\<close> and
    \<^verbatim>\<open>zperf_tcp_uploader.c\<close>. \<open>Zperf_Async\<close>: their asynchronous variants, with the step relation
    \<open>async_step\<close> of callers and worker thread; \<open>Zperf_Upload_Frame\<close> says what an upload leaves alone.
  \<^item> \<open>Zperf_Shell_Text\<close> and \<open>Zperf_Shell\<close>: \<^verbatim>\<open>zperf_shell.c\<close>, every command up to \<open>shell_task\<close>.
    \<open>Zperf_System\<close>: \<open>zperf_init\<close>, which puts the parts together. \<open>Zperf_Main\<close>: \<open>main\<close> of
    \<^verbatim>\<open>zperf_main.c\<close> up to the start of the scheduler, over the parameter \<open>net_start\<close> (lwIP's interface
    functions), and the hooks of \<^verbatim>\<open>freertos/FreeRTOSCommonHooks.c\<close>.
  \<^item> \<open>Zperf_Program\<close>: the whole program, \<open>program_step\<close>, in which both server threads, the worker thread and the
    commands of the shell take turns over the memory they share: the world, the local addresses and the
    session table.

  Each theory keeps the names of the C functions and follows their control flow; where a long function
  is split, a comment gives the lines of each part. State is passed explicitly in records that extend
  one another: \<open>io_state\<close> (world and trace), then the variables of the component.

  \<^bold>\<open>How the code is read.\<close> The build is 32 bits wide (\<open>long\<close> and \<open>size_t\<close> are 32 bits) and little
  endian. Integers are words of their C width, \<open>int\<close> values that never overflow are \<open>int\<close>. Division by
  zero, null pointers, accesses out of bounds, failed assertions and signed overflow are faults, values
  \<open>Inl\<close> of the type \<open>faulty\<close>. A loop that may run forever is a \<open>partial_function\<close> into \<open>option\<close>; \<open>None\<close>
  is no result. The only fuel is in \<open>upload_fin_loop\<close>, which counts the two attempts of the code.
  Every call of the network appends an event to the trace, and so does every call of a callback.

  \<^bold>\<open>Parameters.\<close> lwIP and FreeRTOS are not part of the repository. They are the records \<open>platform\<close>,
  \<open>rtos\<close>, \<open>rtos_queue\<close>, \<open>rtos_tasks\<close> and \<open>net_start\<close> over an abstract world, and a theorem that needs a documented
  behaviour names it: \<open>sem_laws\<close> (counting semaphores), \<open>queue_laws\<close> (bounded queues), \<open>clock_laws\<close> (the
  clock advances), \<open>drain_laws\<close> (finitely many packets wait), \<open>send_laws\<close> (a send makes progress) and
  \<open>errno_positive\<close>. \<open>Zperf_Demo_Platform\<close> has an instance on which the witnesses evaluate.

  \<^bold>\<open>Interfaces.\<close> \<open>byte_order\<close> (both widths), \<open>struct_write\<close>, \<open>struct_overlay\<close> and \<open>two_structs\<close> (the three
  headers), \<open>session_table\<close> (both rows of the table), \<open>server_control\<close> and
  \<open>server_thread\<close> (both servers, alone and inside the whole program), \<open>shared_component\<close> (what each part relies
  on and guarantees of the shared memory) and \<open>fifo\<close> (the work queue) are locales, interpreted on the
  definitions of the model.

  \<^bold>\<open>What is proved.\<close>

  \<^item> Receivers (\<open>Zperf_Udp_Properties\<close>, \<open>Zperf_Tcp_Properties\<close>): invariants of all reachable states (the
    table, the loss statistics, the open descriptors, the semaphore and the running flag); how data and
    end packets are counted and reported; the report read back by the client; that a stop ends a
    session; exactly which packets make the handler fail.
  \<^item> Life of a server (\<open>Zperf_Lifecycle\<close>): an automaton \<open>life_step\<close> of the phases of a server, which
    both step relations refine, so every interleaving of requests, stops and the server thread is a walk
    of that automaton.
  \<^item> The whole program (\<open>Zperf_Program\<close>): its invariant, by rely and guarantee of the parts; its refinement of
    two such automata and a queue of uploads; and that no part touches the sessions of another.
  \<^item> Uploads (\<open>Zperf_Udp_Upload_Properties\<close>, \<open>Zperf_Tcp_Upload_Properties\<close>): which packets are sent, that
    the uploads return, which sockets stay open, the pacing.
  \<^item> Asynchronous uploads (\<open>Zperf_Async_Properties\<close>): they refine a queue without duplicates, run once
    each and in order, and report; and where a report goes astray.
  \<^item> Text (\<open>Zephyr_Net_Parse_Properties\<close>, \<open>Zperf_Shell_Properties\<close>): parser and printers against reference
    definitions, round trips, the parameters a command builds, and the arguments that are misread.
  \<^item> Below: whole UDP transfers over a lossy network and TCP transfers in pieces of any size, from uploader
    to receiver (lemmas in \<open>Zperf_Transfer\<close>); the state in which \<open>main\<close> starts the scheduler; and the commands
    that start a server and queue an upload, at any moment of the program.

  \<^bold>\<open>What is not modelled.\<close> Logging (the \<open>NET_*\<close> macros). The lengths of address structures: a socket
  address is its family with the fields of that family, and \<open>memcpy_sockaddr\<close> is a parameter for what a
  copy of \<open>sizeof(struct sockaddr)\<close> bytes leaves of it. Thread priorities and stack sizes, hence
  preemption beyond the interleavings of the step relations, in which the set-up and each turn of a server
  loop, an upload and a command of the shell are one step each; races inside such a step, for example of
  two uploads over one packet buffer, are out of reach. Of \<^verbatim>\<open>zperf_main.c\<close> the task \<open>vSetupIFTask\<close>, which nothing starts (and which
  calls \<open>shell_task\<close> without its argument); of \<^verbatim>\<open>freertos/FreeRTOSCommonHooks.c\<close> the empty hooks and the
  heap of another compiler; \<^verbatim>\<open>lwip/include\<close> (options of lwIP) and the macros of \<^verbatim>\<open>zephyr/logging\<close>,
  \<^verbatim>\<open>zephyr/shell\<close>, \<^verbatim>\<open>zephyr/toolchain.h\<close>, which have no behaviour of their own.
\<close>

section \<open>Sender and receiver together\<close>

text \<open>
  C7. A whole transfer over a network that loses packets but keeps their order: when at least two data
  packets and one end packet of a successful upload arrive at a server that has a slot for their sender,
  the server completes the session. It counts every data packet that arrived but the first, which opens
  the session, with its bytes; none is late; and the lost packets it reports are the gaps below the last
  number that arrived, so never more than really were lost, and none if none was.
\<close>

theorem udp_transfer_measured:
  assumes "errno_positive P"
    and "zperf_udp_upload P (Some prm) (Some res) st = Some (Inr (0, Some res', st'))"
    and "trace st' = trace st @ evs" and "length (sent evs) < 2 ^ 31"
    and "subseq rs (map snd (sent evs))" and "got = filter data_packet rs" and "1 < length got" and "\<exists>d \<in> set rs. end_packet d"
    and "udp_admits srv addr i"
  shows "\<exists>srv' s duration. udp_receive_all P' sock addr rs srv = Inr srv' \<and>
    udp_slot srv' i = s\<lparr>ses_state := STATE_COMPLETED, ses_stat := udp_fill_stat s duration\<rparr> \<and>
    ses_counter s = of_nat (length got - 1) \<and> ses_outorder s = 0 \<and>
    ses_length s = of_nat ((length got - 1) * unat (udp_packet_size (ucast (up_packet_size prm)))) \<and>
    unat (ses_error s) + length got = Suc (packet_number (last got)) \<and>
    unat (ses_error s) + length got \<le> unat (nb_packets_sent res')"
proof (rule udp_upload_stream [OF assms(1-4)])
  fix xs ys
  assume split: "map snd (sent evs) = xs @ ys" and data: "\<forall>d \<in> set xs. data_packet d" and fin: "\<forall>d \<in> set ys. end_packet d"
    and numbers: "map packet_number xs = [0..<length xs]" and nb: "nb_packets_sent res' = of_nat (length xs)"
    and size: "\<forall>d \<in> set xs. length d = unat (udp_packet_size (ucast (up_packet_size prm)))"
  have small: "length xs < 2 ^ 31" using arg_cong [OF split, of length] assms(4) by simp
  obtain as bs where rs: "rs = as @ bs" and sub: "subseq as xs" "subseq bs ys"
    using assms(5) unfolding split by (rule subseq_appendE)
  have as: "\<forall>d \<in> set as. data_packet d" "\<forall>d \<in> set as. d \<in> set xs" and bs: "\<forall>d \<in> set bs. end_packet d"
    using sub data fin by (auto dest: list_emb_set)
  have got: "got = as" using as(1) bs by (auto simp: assms(6) rs end_not_data intro: filter_True filter_False)
  have up: "subseq (map packet_number as) [0..<length xs]" using subseq_map [OF sub(1)] numbers by metis
  have asc: "sorted_wrt (<) (map packet_number as)" by (rule sorted_wrt_subseq [OF up]) simp
  obtain d ds where ds: "as = d # ds" "ds \<noteq> []" using assms(7) by (cases as rule: remdups_adj.cases) (auto simp: got)
  obtain e es where es: "bs = e # es" using assms(8) as(1) by (cases bs) (auto simp: rs end_not_data)
  have len: "length as \<le> Suc (packet_number (last as))"
    using ascending_length [OF asc] by (simp add: ds last_map)
  have below: "packet_number (last as) < length xs"
    using list_emb_set [OF up, of "packet_number (last as)"] ds by auto
  have "length ds < 2 ^ 31" using len below small by (simp add: ds)
  then obtain srv' s duration where run: "udp_receive_all P' sock addr (d # ds @ e # es) srv = Inr srv'"
    "udp_slot srv' i = s\<lparr>ses_state := STATE_COMPLETED, ses_stat := udp_fill_stat s duration\<rparr>"
    "ses_counter s = of_nat (length ds)" "ses_length s = of_nat (sum_list (map length ds))" "ses_outorder s = 0"
    "ses_error s = dg_id (get_datagram (last ds)) - of_nat (length ds)"
    using udp_receive_session [OF assms(9), of d ds e es P' sock] as(1) asc bs ds es by auto
  have "map length ds = replicate (length ds) (unat (udp_packet_size (ucast (up_packet_size prm))))"
    using as(2) size by (intro replicate_eqI) (auto simp: ds)
  moreover have "unat (ses_error s) = packet_number (last as) - length ds"
    using len below small by (simp add: run(6) ds unat_diff_of_nat packet_number_def)
  moreover have "unat (nb_packets_sent res') = length xs"
    using small by (simp add: nb unsigned_of_nat take_bit_nat_eq_self)
  ultimately show ?thesis
    using run len below by (intro exI [of _ srv'] exI [of _ s] exI [of _ duration]) (simp add: got rs ds es sum_list_replicate)
qed

theorem udp_transfer_measured_witness:
  "\<exists>res' st' srv' s duration. zperf_udp_upload demo_platform (Some demo_two) (Some results_zero) demo_uploader_run =
      Some (Inr (0, Some res', st')) \<and>
    udp_receive_all demo_platform 3 demo_peer (map snd (sent (trace st')))
      (udp_server_initial demo_start :: (demo_world, nat \<times> nat) udp_server) = Inr srv' \<and>
    udp_slot srv' 0 = s\<lparr>ses_state := STATE_COMPLETED, ses_stat := udp_fill_stat s duration\<rparr> \<and>
    ses_counter s = 1 \<and> ses_error s = 0"
proof -
  obtain res' st' where run: "zperf_udp_upload demo_platform (Some demo_two) (Some results_zero) demo_uploader_run =
      Some (Inr (0, Some res', st'))" and two: "nb_packets_sent res' = 2" "length (sent (trace st')) \<le> 4"
    using demo_two_run by blast
  have tr: "trace st' = trace demo_uploader_run @ trace st'" by (simp add: demo_uploader_run_def demo_uploader_def)
  from two have small: "length (sent (trace st')) < 2 ^ 31" by simp
  obtain xs ys where xs: "map snd (sent (trace st')) = xs @ ys" "\<forall>d \<in> set xs. data_packet d" "\<forall>d \<in> set ys. end_packet d"
    "ys \<noteq> []" "nb_packets_sent res' = of_nat (length xs)"
    by (rule udp_upload_stream [OF demo_errno_positive run tr small])
  have "length xs = 2" using arg_cong [OF xs(1), of length] two xs(5) by (auto dest!: arg_cong [of _ _ unat] simp: unsigned_of_nat take_bit_nat_eq_self)
  moreover have "filter data_packet (map snd (sent (trace st'))) = xs" using xs(2,3) by (auto simp: xs(1) end_not_data intro: filter_False)
  moreover have "\<exists>d \<in> set (map snd (sent (trace st'))). end_packet d" using xs(3,4) by (cases ys) (auto simp: xs(1))
  ultimately show ?thesis
    using udp_transfer_measured [OF demo_errno_positive run tr small subseq_order.refl refl _ _ initial_admits [of demo_start], of demo_platform 3]
      two(1) run by (auto simp: unat_eq_0)
qed



section \<open>The start of the program\<close>


text \<open>An interface with three addresses.\<close>

definition demo_net :: "(demo_world, nat) net_start" where
  "demo_net = \<lparr>lwip_init = id, netif_add = (\<lambda>a m g w. (True, w)), netif_create_ip6_linklocal_address = id,
     netif_add_ip6_address_idx = (\<lambda>a i w. (True, 1, w)), ip6_addr_state = (\<lambda>w. [0, 0, 0]),
     set_ip6_addr_state = (\<lambda>s w. w), IP6_ADDR_VALID = 16, netif_set_default = id, netif_set_up = id,
     LWIP_TCPIP_CORE_LOCKING = True, sys_mutex_new = (\<lambda>w. (True, w)), sys_thread_new = (\<lambda>n k. k + 1)\<rparr>"


section \<open>From the command line to the threads\<close>

text \<open>
  C24. The command \<open>udp_download <port>\<close> while the UDP server is idle, at any moment of the program: the
  shell prints that the server was started on that port, the server has taken the port over and is left
  with exactly one accepted request, and neither the TCP server nor the queue of uploads has moved.
\<close>

theorem shell_download_starts_server:
  assumes "sem_laws R cnt cap" and "queue_laws Q items qcap" and "program_reachable P Q R K p"
    and "prog_worker p \<noteq> Async_faulted" and "program_abs items p = (Phase_idle, b, q)" and "port < 65536"
  shows "\<exists>sys. shell_task P Q R [prog, ''udp_download'', show_nat port] (system_view p) = Some (Inr sys) \<and>
    program_step P Q R p (put_system sys p) \<and> program_abs items (put_system sys p) = (Phase_requested False, b, q) \<and>
    udp_server_port (snd (prog_udp (put_system sys p))) = of_nat port \<and>
    sh_out (prog_shell (put_system sys p)) = sh_out (prog_shell p) @ ''UDP server started on port '' @ show_nat port @ NL"
proof -
  let ?param = "download_params_zero\<lparr>dp_port := of_nat port\<rparr>" and ?srv = "snd (udp_view p)"
  have wait: "fst (prog_udp p) = Server_waiting" and idle: "\<not> udp_server_running ?srv"
    using assms(5) by (auto simp: program_abs_def udp_phase_def udp_view_def with_memory_def elim: phase_of.elims split: if_splits)
  have "udp_inv cnt cap (udp_view p)" using program_reachable_inv [OF assms(1-3)] by (simp add: program_inv_def)
  with wait have "sem_is_binary cap (udp_server_run ?srv)"
    by (cases "udp_view p") (auto simp: udp_inv_def udp_view_def apsnd_def map_prod_def split: prod.splits)
  then obtain h where give: "k_sem_give R (udp_server_run ?srv) = Inr h"
    by (auto simp: k_sem_give_def sem_is_binary_def split: option.splits)
  then obtain srv' where call: "zperf_udp_download P R (Some ?param) (Some UDP_SESSION_CB) SHELL_HANDLE ?srv = Inr (0, srv')"
    and srv': "udp_server_running srv'" "\<not> udp_server_stop srv'" "udp_server_port srv' = of_nat port"
    using idle by (simp add: zperf_udp_download_def Let_def)
  have num: "strtoul 10 (show_nat port) = (of_nat port, [])"
    using strtoul_show_nat [of port "[]"] assms(6) by simp
  have bind: "zperf_bind_host P [''udp_download'', show_nat port] download_params_zero = Inr (0, [], ?param)"
    using num ucast_of_nat_u16 [OF assms(6)] by (simp add: zperf_bind_host_def arg_str_def argv_at_def)
  have fmt: "fmt_u (ucast (of_nat port :: u16)) = show_nat port"
    using assms(6) by (simp add: fmt_u_def unsigned_ucast_eq unsigned_of_nat take_bit_nat_eq_self take_bit_eq_mod)
  let ?st = "emit (''UDP server started on port '' @ show_nat port @ NL) (k_yield P (emit [] (shell_view p)))"
  let ?sys = "system_view p\<lparr>sys_shell := ?st, sys_udp := srv'\<rparr>"
  have "cmd_udp_download P R [''udp_download'', show_nat port] (shell_view p, ?srv) = Inr (kStatus_SHELL_Success, ?st, srv')"
    using bind call fmt by (simp add: cmd_udp_download_def download_answer_def EALREADY_def download_params_zero_def Let_def)
  then have run: "shell_task P Q R [prog, ''udp_download'', show_nat port] (system_view p) = Some (Inr ?sys)"
    by (simp add: shell_task_def system_view_def Let_def)
  have "sh_out ?st = sh_out (prog_shell p) @ ''UDP server started on port '' @ show_nat port @ NL"
    "upload_work ?st = upload_work (prog_shell p)"
    by (simp_all add: emit_def k_yield_def shell_view_def)
  moreover have "tcp_phase (fst (prog_tcp p), snd (tcp_view p)) = tcp_phase (prog_tcp p)"
    by (simp add: tcp_phase_def tcp_view_def with_memory_def)
  ultimately show ?thesis
    using run program_step.shell [OF assms(4) run] srv' wait assms(5)
    by (intro exI [of _ ?sys]) (simp add: put_system_def put_shell_def program_abs_def system_view_def udp_phase_def)
qed

theorem shell_download_starts_server_witness:
  "\<exists>(p :: (demo_world, work_item list \<times> nat, nat \<times> nat) program) sys.
     program_reachable demo_platform demo_queue demo_rtos demo_tasks p \<and>
     shell_task demo_platform demo_queue demo_rtos [''zperf'', ''udp_download'', show_nat 5001] (system_view p) = Some (Inr sys) \<and>
     program_abs fst (put_system sys p) = (Phase_requested False, Phase_off, [])"
proof -
  obtain p :: "(demo_world, work_item list \<times> nat, nat \<times> nat) program" where
    p: "program_reachable demo_platform demo_queue demo_rtos demo_tasks p" "prog_worker p = Worker_idle"
      "program_abs fst p = (Phase_idle, Phase_off, [])" using demo_idle_program by blast
  with shell_download_starts_server [OF demo_sem_laws demo_queue_laws p(1) _ p(3), of 5001 "''zperf''"] show ?thesis
    by auto
qed

text \<open>Nothing an upload command prints before it starts can fail but the duration of a packet.\<close>

lemma print_time_total: "\<exists>t. print_time v = Inr t"
  by (simp add: print_time_def TIME_US_def TIME_US_UNIT_def Let_def)

lemma print_rate_total: "\<exists>t. print_rate v = Inr t"
  by (simp add: print_rate_def KBPS_def KBPS_UNIT_def Let_def)

lemma upload_banners:
  assumes "unat (up_rate_kbps prm) mod 2 ^ 22 \<noteq> 0"
  obtains t t' where "upload_banner prm = Inr t" "udp_upload_banner prm = Inr t'"
proof -
  obtain s where s: "print_time (up_duration_ms prm * USEC_PER_MSEC) = Inr s" using print_time_total by blast
  obtain r where r: "print_rate (up_rate_kbps prm) = Inr r" using print_rate_total by blast
  have "zperf_packet_duration (ucast (up_packet_size prm)) (up_rate_kbps prm) \<noteq> Inl Division_by_zero"
    using assms by (simp add: packet_duration_fault_iff)
  then obtain d where d: "zperf_packet_duration (ucast (up_packet_size prm)) (up_rate_kbps prm) = Inr d"
    by (auto simp: zperf_packet_duration_def split: if_splits)
  show thesis by (rule that) (simp_all add: upload_banner_def udp_upload_banner_def s r d)
qed

lemma execute_async_answer:
  assumes inv: "async_inv Q items qcap (pc, async_state.truncate st0)" and same: "same_uploads st0 st"
  shows "\<exists>sh. execute_async Q item prm cb name st = Some (Inr sh) \<and>
    (if k_work_is_pending item (upload_work st) then same_uploads st (snd sh)
     else item \<notin> set (work_queued items (upload_work st)) \<and>
       work_queued items (upload_work (snd sh)) = work_queued items (upload_work st) @ [item] \<and>
       ac_param (upload_ctx (snd sh) item) = prm)"
proof (cases "k_work_is_pending item (upload_work st)")
  case True
  then show ?thesis by (simp add: execute_async_def upload_async_busy EBUSY_def)
next
  case False
  from inv same have ok: "work_queue_ok Q items qcap (taken_item pc) (upload_work st)"
    by (simp add: async_inv_def same_uploads_def)
  from wq.submit_ok [OF ok False] obtain ws where ws: "k_work_submit_to_queue Q item (upload_work st) = Inr (True, ws)"
    "work_queued items ws = work_queued items (upload_work st) @ [item]" by blast
  with False work_pending_iff [OF ok, of item] show ?thesis
    by (simp add: execute_async_def upload_async_def zperf_async_work_submit_def)
qed

text \<open>
  C25. The command \<open>udp_upload\<close> with the option for an asynchronous upload, at any moment of the program,
  is always answered: when its arguments are well formed and its rate does not vanish in 32 bits, either
  the upload is already pending and nothing changes, or it is queued once, at the end, with the parameters
  the command spells out, for the worker to take.
\<close>

theorem shell_upload_queued:
  assumes "sem_laws R cnt cap" and "queue_laws Q items qcap" and "program_reachable P Q R K p"
    and "prog_worker p \<noteq> Async_faulted" and "program_abs items p = (a, b, q)"
    and "upload_prepare P True (''udp_upload'' # args) = Inr (Inr (t, prm, True))" and "unat (up_rate_kbps prm) mod 2 ^ 22 \<noteq> 0"
  shows "\<exists>sys. shell_task P Q R (prog # ''udp_upload'' # args) (system_view p) = Some (Inr sys) \<and>
    program_step P Q R p (put_system sys p) \<and>
    (if k_work_is_pending Udp_upload_work (upload_work (prog_shell p))
     then program_abs items (put_system sys p) = (a, b, q) \<and> upload_ctx (prog_shell (put_system sys p)) = upload_ctx (prog_shell p)
     else Udp_upload_work \<notin> set q \<and> program_abs items (put_system sys p) = (a, b, q @ [Udp_upload_work]) \<and>
       ac_param (upload_ctx (prog_shell (put_system sys p)) Udp_upload_work) = prm)"
proof -
  have "program_inv Q cnt cap items qcap p" using program_reachable_inv [OF assms(1-3)] by simp
  then have inv: "async_inv Q items qcap (prog_worker p, async_state.truncate (prog_shell p))"
    by (simp add: program_inv_def async_view_inv)
  obtain t1 t2 where banner: "upload_banner prm = Inr t1" "udp_upload_banner prm = Inr t2"
    by (rule upload_banners [OF assms(7)])
  define st where "st = emit t2 (emit t1 (emit t (shell_view p)))"
  have same: "same_uploads (prog_shell p) st" by (simp add: st_def) (simp add: same_uploads_def shell_view_def)
  obtain sh where async: "execute_async Q Udp_upload_work prm UDP_UPLOAD_CB ''UDP'' st = Some (Inr sh)"
    and effect: "if k_work_is_pending Udp_upload_work (upload_work st) then same_uploads st (snd sh)
      else Udp_upload_work \<notin> set (work_queued items (upload_work st)) \<and>
        work_queued items (upload_work (snd sh)) = work_queued items (upload_work st) @ [Udp_upload_work] \<and>
        ac_param (upload_ctx (snd sh) Udp_upload_work) = prm"
    using execute_async_answer [OF inv same, of Udp_upload_work prm UDP_UPLOAD_CB "''UDP''"] by blast
  let ?sys = "system_view p\<lparr>sys_shell := snd sh\<rparr>"
  have "shell_cmd_upload P Q True (''udp_upload'' # args) (shell_view p) = Some (Inr sh)"
    using assms(6) banner async by (simp add: shell_cmd_upload_def execute_upload_def st_def Let_def)
  then have run: "shell_task P Q R (prog # ''udp_upload'' # args) (system_view p) = Some (Inr ?sys)"
    by (cases sh) (simp add: shell_task_def system_view_def Let_def)
  have phases: "udp_phase (fst (prog_udp p), snd (udp_view p)) = a" "tcp_phase (fst (prog_tcp p), snd (tcp_view p)) = b"
    using assms(5) by (simp_all add: program_abs_def udp_phase_def tcp_phase_def udp_view_def tcp_view_def with_memory_def)
  show ?thesis
    using run program_step.shell [OF assms(4) run] effect same assms(5) phases
    by (intro exI [of _ ?sys])
      (auto simp: put_system_def put_shell_def program_abs_def system_view_def same_uploads_def split: if_splits)
qed

theorem shell_upload_queued_witness:
  "\<exists>(p :: (demo_world, work_item list \<times> nat, nat \<times> nat) program) sys.
     program_reachable demo_platform demo_queue demo_rtos demo_tasks p \<and>
     shell_task demo_platform demo_queue demo_rtos [''zperf'', ''udp_upload'', ''-a'', ''192.168.0.2''] (system_view p) =
       Some (Inr sys) \<and> program_abs fst (put_system sys p) = (Phase_idle, Phase_off, [Udp_upload_work])"
proof -
  obtain p :: "(demo_world, work_item list \<times> nat, nat \<times> nat) program" where
    p: "program_reachable demo_platform demo_queue demo_rtos demo_tasks p" "prog_worker p = Worker_idle"
      "program_abs fst p = (Phase_idle, Phase_off, [])" using demo_idle_program by blast
  have opts: "upload_options True [''udp_upload'', ''-a'', ''192.168.0.2''] 1 no_opts = Inr (no_opts\<lparr>uo_async := True, uo_cnt := 1\<rparr>)"
    by (simp add: upload_options.simps no_opts_def)
  have "\<exists>t' peer. upload_peer demo_platform (Some ''192.168.0.2'') DEF_PORT_STR = Inr (t', peer)"
    by (simp add: upload_peer_def Let_def case_prod_beta)
  then obtain t' peer where peer: "upload_peer demo_platform (Some ''192.168.0.2'') DEF_PORT_STR = Inr (t', peer)" by blast
  obtain t prm where prep: "upload_prepare demo_platform True [''udp_upload'', ''-a'', ''192.168.0.2''] = Inr (Inr (t, prm, True))"
    "up_rate_kbps prm = 10"
    using peer by (auto simp: upload_prepare_def opts [unfolded One_nat_def] argv_at_def upload_numbers_def upload_param_def Let_def)
  have "program_inv demo_queue fst snd fst snd p" using program_reachable_inv [OF demo_sem_laws demo_queue_laws p(1)] by simp
  then have "async_inv demo_queue fst snd (Worker_idle, async_state.truncate (prog_shell p))"
    using p(2) by (simp add: program_inv_def async_view_inv)
  then have "\<not> k_work_is_pending Udp_upload_work (upload_work (prog_shell p))"
    using p(3) work_pending_iff [of demo_queue fst snd None "upload_work (prog_shell p)"]
    by (simp add: async_inv_def program_abs_def)
  with shell_upload_queued [OF demo_sem_laws demo_queue_laws p(1) _ p(3) prep(1), of "''zperf''"] p(1,2) prep(2) show ?thesis
    by auto
qed

end
